(* ===== verification/Prelude.thy ===== *)
theory Prelude
  imports Main "HOL-Library.Word" "HOL-Library.Monad_Syntax"
begin

text \<open>
  Shared vocabulary of the development: machine integers, byte strings, polling and result
  types, the parts of the Rust standard library that the modelled code calls (checked and
  saturating arithmetic, splitting, trimming and comparing strings, formatting numbers), and
  the generic lemmas that every component uses.

  Conventions. A \<open>usize\<close> length or index is a \<^typ>\<open>nat\<close>; where its width matters the word
  type is used. The target has 64-bit pointers, so \<open>u64 as usize\<close> is the identity. A
  \<open>Result<T, E>\<close> is \<open>'e + 'a\<close> with \<open>Err = Inl\<close> and \<open>Ok = Inr\<close>. A function whose result is an
  \<open>option\<close> at the outermost level returns \<open>None\<close> exactly where the code does not return:
  an \<open>assert!\<close>, \<open>expect\<close>, slice index or \<open>unreachable!\<close> that fires, or a loop that never ends.
  \<open>debug_assert!\<close> is compiled out, as in a release build.
\<close>

section \<open>Types\<close>

type_synonym u8 = "8 word"
type_synonym u64 = "64 word"
type_synonym bytes = "u8 list"

datatype 'a poll = Ready 'a | Pending

abbreviation Ok :: "'a \<Rightarrow> 'e + 'a" where "Ok \<equiv> Inr"
abbreviation Err :: "'e \<Rightarrow> 'e + 'a" where "Err \<equiv> Inl"

datatype error_kind = UnexpectedEof | InvalidData | InvalidInput | WriteZero | OtherKind string

datatype io_error = IoError (io_kind: error_kind) (io_msg: string)

named_theorems hyper_defs \<open>definitions unfolded by the component proofs\<close>

lemmas res_splits = sum.splits poll.splits option.splits prod.splits if_splits

section \<open>Bytes and ASCII\<close>

definition ascii :: "string \<Rightarrow> bytes" where
  "ascii s = map of_char s"

lemma ascii_Nil [simp]: "ascii [] = []"
  by (simp add: ascii_def)

lemma ascii_append [simp]: "ascii (s @ t) = ascii s @ ascii t"
  by (simp add: ascii_def)

lemma length_ascii [simp]: "length (ascii s) = length s"
  by (simp add: ascii_def)

definition CR :: u8 where "CR = 13"
definition LF :: u8 where "LF = 10"
definition CRLF :: bytes where "CRLF = [CR, LF]"

definition is_digit :: "u8 \<Rightarrow> bool" where
  "is_digit b \<longleftrightarrow> 48 \<le> b \<and> b \<le> 57"

definition to_ascii_lowercase :: "u8 \<Rightarrow> u8" where
  "to_ascii_lowercase b = (if 65 \<le> b \<and> b \<le> 90 then b + 32 else b)"

definition to_ascii_uppercase :: "u8 \<Rightarrow> u8" where
  "to_ascii_uppercase b = (if 97 \<le> b \<and> b \<le> 122 then b - 32 else b)"

definition eq_ignore_ascii_case :: "bytes \<Rightarrow> bytes \<Rightarrow> bool" where
  "eq_ignore_ascii_case a b \<longleftrightarrow> map to_ascii_lowercase a = map to_ascii_lowercase b"

text \<open>\<open>str::split\<close> on a single byte: there is always at least one piece.\<close>

fun split_on :: "'a \<Rightarrow> 'a list \<Rightarrow> 'a list list" where
  "split_on c [] = [[]]"
| "split_on c (x # xs) =
     (if x = c then [] # split_on c xs
      else (case split_on c xs of [] \<Rightarrow> [[x]] | p # ps \<Rightarrow> (x # p) # ps))"

text \<open>The bytes below 128 that \<open>char::is_whitespace\<close> accepts.\<close>

definition is_ws :: "u8 \<Rightarrow> bool" where
  "is_ws b \<longleftrightarrow> (9 \<le> b \<and> b \<le> 13) \<or> b = 32"

definition trim :: "bytes \<Rightarrow> bytes" where
  "trim s = rev (dropWhile is_ws (rev (dropWhile is_ws s)))"

lemma split_on_nonempty [simp]: "split_on c xs \<noteq> []"
  by (induction xs) (auto split: list.splits)

lemma split_on_no_sep: "c \<notin> set xs \<Longrightarrow> split_on c xs = [xs]"
  by (induction xs) auto

lemma split_on_append_sep:
  "c \<notin> set ys \<Longrightarrow> split_on c (xs @ c # ys) = split_on c xs @ [ys]"
  by (induction xs) (auto simp: split_on_no_sep split: list.splits)

lemma split_on_append: "split_on c (xs @ c # ys) = split_on c xs @ split_on c ys"
  by (induction xs) (auto split: list.splits)

lemma last_split_on_Cons:
  "x \<noteq> c \<Longrightarrow> last (split_on c (x # xs)) =
     (if c \<in> set xs then last (split_on c xs) else x # last (split_on c xs))"
proof (induction xs arbitrary: x)
  case (Cons y ys)
  then show ?case by (auto simp: split_on_no_sep split: list.splits)
qed simp

lemma trim_leading_space: "is_ws b \<Longrightarrow> trim (b # s) = trim s"
  by (simp add: trim_def)

lemma trim_id: "s = [] \<or> (\<not> is_ws (hd s) \<and> \<not> is_ws (last s)) \<Longrightarrow> trim s = s"
  by (auto simp: trim_def hd_rev dropWhile_eq_self_iff [THEN iffD2])

lemma eq_ignore_ascii_case_refl [simp]: "eq_ignore_ascii_case a a"
  by (simp add: eq_ignore_ascii_case_def)

lemma eq_ignore_ascii_case_sym: "eq_ignore_ascii_case a b \<Longrightarrow> eq_ignore_ascii_case b a"
  by (simp add: eq_ignore_ascii_case_def)

section \<open>Integer arithmetic\<close>

definition checked_add :: "'a::len word \<Rightarrow> 'a word \<Rightarrow> 'a word option" where
  "checked_add a b = (if unat a + unat b < 2 ^ LENGTH('a) then Some (a + b) else None)"

definition checked_mul :: "'a::len word \<Rightarrow> 'a word \<Rightarrow> 'a word option" where
  "checked_mul a b = (if unat a * unat b < 2 ^ LENGTH('a) then Some (a * b) else None)"

definition saturating_mul :: "'a::len word \<Rightarrow> 'a word \<Rightarrow> 'a word" where
  "saturating_mul a b = (if unat a * unat b < 2 ^ LENGTH('a) then a * b else - 1)"

lemma checked_add_Some:
  "checked_add a b = Some c \<longleftrightarrow> unat a + unat b < 2 ^ LENGTH('a) \<and> unat c = unat a + unat b"
  for a b c :: "'a::len word"
  by (auto simp: checked_add_def unat_word_ariths word_unat_eq_iff split: if_splits)

lemma checked_mul_Some:
  "checked_mul a b = Some c \<longleftrightarrow> unat a * unat b < 2 ^ LENGTH('a) \<and> unat c = unat a * unat b"
  for a b c :: "'a::len word"
  by (auto simp: checked_mul_def unat_word_ariths word_unat_eq_iff split: if_splits)

lemma checked_add_None:
  "checked_add a b = None \<longleftrightarrow> 2 ^ LENGTH('a) \<le> unat a + unat b" for a b :: "'a::len word"
  by (auto simp: checked_add_def)

lemma checked_mul_None:
  "checked_mul a b = None \<longleftrightarrow> 2 ^ LENGTH('a) \<le> unat a * unat b" for a b :: "'a::len word"
  by (auto simp: checked_mul_def)

lemma unat_sub_u64: "unat b \<le> unat a \<Longrightarrow> unat (a - b) = unat a - unat b" for a b :: u64
  by (simp add: unat_sub word_le_nat_alt)

lemma unat_of_nat_u8: "n < 256 \<Longrightarrow> unat (word_of_nat n :: u8) = n"
  by (simp add: unat_of_nat)

lemma unat_less_u8: "unat (b :: u8) < 256"
  using unsigned_less [of b, where ?'a = nat] by simp

lemma unat_less_u64: "unat (w :: u64) < 18446744073709551616"
  using unsigned_less [of w, where ?'a = nat] by simp

lemma unat_ucast_u8_u64 [simp]: "unat (ucast (b :: u8) :: u64) = unat b"
  using unat_less_u8 [of b] by (simp add: unsigned_ucast_eq take_bit_nat_eq_self)

lemma unat_of_nat_u64: "n < 2 ^ 64 \<Longrightarrow> unat (word_of_nat n :: u64) = n"
  by (simp add: unat_of_nat)

text \<open>
  One step of a positional-notation parser: multiply by the radix, add the digit, both checked.
  It succeeds exactly when the exact value fits the width.
\<close>

lemma checked_mul_add:
  fixes r k d :: u64
  shows "do { r' \<leftarrow> checked_mul r k; checked_add r' d } =
      (if unat r * unat k + unat d < 2 ^ 64
       then Some (word_of_nat (unat r * unat k + unat d)) else None)"
  by (auto simp: checked_mul_def checked_add_def unat_word_ariths word_unat_eq_iff unat_of_nat
      simp del: of_nat_add of_nat_mult split: if_splits)

section \<open>Numbers in text\<close>

definition decimal_digit :: "nat \<Rightarrow> u8" where
  "decimal_digit d = word_of_nat (48 + d)"

text \<open>What \<open>Display\<close> writes for an unsigned integer.\<close>

fun decimal :: "nat \<Rightarrow> bytes" where
  "decimal n = (if n < 10 then [decimal_digit n] else decimal (n div 10) @ [decimal_digit (n mod 10)])"

declare decimal.simps [simp del]

definition hex_digit :: "nat \<Rightarrow> u8" where
  "hex_digit d = (if d < 10 then word_of_nat (48 + d) else word_of_nat (55 + d))"

text \<open>What \<open>UpperHex\<close> (\<open>{:X}\<close>) writes for an unsigned integer.\<close>

fun upper_hex :: "nat \<Rightarrow> bytes" where
  "upper_hex n = (if n < 16 then [hex_digit n] else upper_hex (n div 16) @ [hex_digit (n mod 16)])"

declare upper_hex.simps [simp del]

lemma unat_decimal_digit: "d < 10 \<Longrightarrow> unat (decimal_digit d) = 48 + d"
  by (simp add: decimal_digit_def unat_of_nat_u8 del: of_nat_add)

lemma is_digit_unat: "is_digit b \<longleftrightarrow> 48 \<le> unat b \<and> unat b \<le> 57"
  by (simp add: is_digit_def word_le_nat_alt)

lemma is_digit_decimal_digit: "d < 10 \<Longrightarrow> is_digit (decimal_digit d)"
  by (simp add: is_digit_unat unat_decimal_digit)

lemma decimal_nonempty [simp]: "decimal n \<noteq> []"
  by (subst decimal.simps) simp

lemma decimal_digits: "b \<in> set (decimal n) \<Longrightarrow> is_digit b"
proof (induction n rule: decimal.induct)
  case (1 n)
  then show ?case
    by (subst (asm) decimal.simps) (auto simp: is_digit_decimal_digit split: if_splits)
qed

lemma upper_hex_nonempty [simp]: "upper_hex n \<noteq> []"
  by (subst upper_hex.simps) simp

lemma length_upper_hex: "n < 16 ^ Suc k \<Longrightarrow> length (upper_hex n) \<le> Suc k"
proof (induction k arbitrary: n)
  case 0
  then show ?case by (subst upper_hex.simps) simp
next
  case (Suc k)
  show ?case
  proof (cases "n < 16")
    case True
    then show ?thesis by (subst upper_hex.simps) simp
  next
    case False
    have "n div 16 < 16 ^ Suc k"
      using Suc.prems by (simp add: less_mult_imp_div_less mult.commute)
    with Suc.IH False show ?thesis by (subst upper_hex.simps) simp
  qed
qed

end
