(* ===== verification/Errors.thy ===== *)
theory Errors
  imports Prelude
begin

text \<open>
  The error type of the crate (\<^verbatim>\<open>src/src/error.rs\<close>): the kinds of error, the chain of causes,
  the constructors the protocol code calls and the predicates a user asks of an error.
\<close>

section \<open>Kinds\<close>

datatype header = Token | ContentLengthInvalid | TransferEncodingInvalid | TransferEncodingUnexpected

datatype parse =
    ParseMethod | ParseVersion | ParseVersionH2 | ParseUri | ParseUriTooLong
  | ParseHeader header | ParseTooLarge | ParseStatus | ParseInternal

datatype user =
    UserBody | UserMakeService | UserService | UserUnexpectedHeader | UserUnsupportedVersion
  | UserUnsupportedRequestMethod | UserUnsupportedStatusCode | UserAbsoluteUriRequired
  | UserNoUpgrade | UserManualUpgrade | UserWithoutShutdownNonHttp1 | UserAbortedByCallback

datatype kind =
    KParse parse | KUser user | KIncompleteMessage | KUnexpectedMessage | KCanceled | KChannelClosed
  | KIo | KConnect | KListen | KAccept | KHeaderTimeout | KBody | KBodyWrite | KBodyWriteAborted
  | KShutdown | KHttp2

text \<open>
  A cause is a boxed error: an \<open>io::Error\<close>, another crate error, the \<open>TimedOut\<close> sentinel, or an
  error of the user's code with the cause that its \<open>source\<close> method reports.
\<close>

text \<open>
  An error of the \<open>h2\<close> crate is known by what its methods report: \<open>reason\<close>, \<open>is_io\<close>, \<open>into_io\<close> and the
  text that it displays.
\<close>

datatype h2_error =
  H2Error (h2_err_reason: "32 word option") (h2_is_io: bool) (h2_into_io: "io_error option") (h2_text: string)

datatype error = Error (ekind: kind) (ecause: "cause option")
and cause =
    CauseIo io_error | CauseHyper error | CauseTimedOut | CauseH2 h2_error
  | CauseUser string "cause option"

section \<open>Predicates and constructors\<close>

definition is_parse :: "error \<Rightarrow> bool" where
  "is_parse e = (case ekind e of KParse _ \<Rightarrow> True | _ \<Rightarrow> False)"

definition is_parse_too_large :: "error \<Rightarrow> bool" where
  "is_parse_too_large e =
     (case ekind e of KParse ParseTooLarge \<Rightarrow> True | KParse ParseUriTooLong \<Rightarrow> True | _ \<Rightarrow> False)"

definition is_parse_status :: "error \<Rightarrow> bool" where
  "is_parse_status e = (case ekind e of KParse ParseStatus \<Rightarrow> True | _ \<Rightarrow> False)"

definition is_user :: "error \<Rightarrow> bool" where
  "is_user e = (case ekind e of KUser _ \<Rightarrow> True | _ \<Rightarrow> False)"

definition is_canceled :: "error \<Rightarrow> bool" where
  "is_canceled e = (case ekind e of KCanceled \<Rightarrow> True | _ \<Rightarrow> False)"

definition is_closed :: "error \<Rightarrow> bool" where
  "is_closed e = (case ekind e of KChannelClosed \<Rightarrow> True | _ \<Rightarrow> False)"

definition is_connect :: "error \<Rightarrow> bool" where
  "is_connect e = (case ekind e of KConnect \<Rightarrow> True | _ \<Rightarrow> False)"

definition is_incomplete_message :: "error \<Rightarrow> bool" where
  "is_incomplete_message e = (case ekind e of KIncompleteMessage \<Rightarrow> True | _ \<Rightarrow> False)"

definition is_body_write_aborted :: "error \<Rightarrow> bool" where
  "is_body_write_aborted e = (case ekind e of KBodyWriteAborted \<Rightarrow> True | _ \<Rightarrow> False)"

definition into_cause :: "error \<Rightarrow> cause option" where
  "into_cause e = ecause e"

definition error_new :: "kind \<Rightarrow> error" where
  "error_new k = Error k None"

definition error_with :: "error \<Rightarrow> cause \<Rightarrow> error" where
  "error_with e c = Error (ekind e) (Some c)"

text \<open>\<open>StdError::source\<close> of a boxed cause.\<close>

fun cause_source :: "cause \<Rightarrow> cause option" where
  "cause_source (CauseHyper e) = ecause e"
| "cause_source (CauseUser _ c) = c"
| "cause_source _ = None"

text \<open>
  \<open>find_source\<close>: walk the chain of causes and stop at the first one that downcasts, here tested
  by the predicate \<open>p\<close>.
\<close>

function find_source_from :: "(cause \<Rightarrow> bool) \<Rightarrow> cause option \<Rightarrow> cause option" where
  "find_source_from p None = None"
| "find_source_from p (Some c) = (if p c then Some c else find_source_from p (cause_source c))"
  by pat_completeness auto
termination
proof (relation "measure (\<lambda>(_, co). case co of None \<Rightarrow> 0 | Some c \<Rightarrow> Suc (size c))", goal_cases)
  case (2 p c)
  show ?case
  proof (cases c)
    case (CauseHyper e)
    then show ?thesis by (cases e) (auto split: option.splits)
  qed (auto split: option.splits)
qed simp

definition find_source :: "(cause \<Rightarrow> bool) \<Rightarrow> error \<Rightarrow> cause option" where
  "find_source p e = find_source_from p (ecause e)"

definition is_timeout :: "error \<Rightarrow> bool" where
  "is_timeout e = (find_source (\<lambda>c. c = CauseTimedOut) e \<noteq> None)"

text \<open>\<open>h2::Reason::INTERNAL_ERROR\<close> is the code 2 of RFC 7540, section 7.\<close>

definition INTERNAL_ERROR :: "32 word" where
  "INTERNAL_ERROR = 2"

definition h2_reason :: "error \<Rightarrow> 32 word" where
  "h2_reason e =
     (case find_source (\<lambda>c. case c of CauseH2 _ \<Rightarrow> True | _ \<Rightarrow> False) e of
        Some (CauseH2 h) \<Rightarrow> (case h2_err_reason h of Some r \<Rightarrow> r | None \<Rightarrow> INTERNAL_ERROR)
      | _ \<Rightarrow> INTERNAL_ERROR)"

definition new_canceled where "new_canceled = error_new KCanceled"
definition new_incomplete where "new_incomplete = error_new KIncompleteMessage"
definition new_too_large where "new_too_large = error_new (KParse ParseTooLarge)"
definition new_version_h2 where "new_version_h2 = error_new (KParse ParseVersionH2)"
definition new_unexpected_message where "new_unexpected_message = error_new KUnexpectedMessage"
definition new_io where "new_io cause = error_with (error_new KIo) (CauseIo cause)"
definition new_listen where "new_listen cause = error_with (error_new KListen) cause"
definition new_accept where "new_accept cause = error_with (error_new KAccept) cause"
definition new_connect where "new_connect cause = error_with (error_new KConnect) cause"
definition new_closed where "new_closed = error_new KChannelClosed"
definition new_body where "new_body cause = error_with (error_new KBody) cause"
definition new_body_write where "new_body_write cause = error_with (error_new KBodyWrite) cause"
definition new_body_write_aborted where "new_body_write_aborted = error_new KBodyWriteAborted"
definition new_user where "new_user u = error_new (KUser u)"
definition new_user_header where "new_user_header = new_user UserUnexpectedHeader"
definition new_header_timeout where "new_header_timeout = error_new KHeaderTimeout"
definition new_user_unsupported_version where "new_user_unsupported_version = new_user UserUnsupportedVersion"
definition new_user_unsupported_request_method where
  "new_user_unsupported_request_method = new_user UserUnsupportedRequestMethod"
definition new_user_unsupported_status_code where "new_user_unsupported_status_code = new_user UserUnsupportedStatusCode"
definition new_user_absolute_uri_required where "new_user_absolute_uri_required = new_user UserAbsoluteUriRequired"
definition new_user_no_upgrade where "new_user_no_upgrade = new_user UserNoUpgrade"
definition new_user_manual_upgrade where "new_user_manual_upgrade = new_user UserManualUpgrade"
definition new_user_make_service where "new_user_make_service cause = error_with (new_user UserMakeService) cause"
definition new_user_service where "new_user_service cause = error_with (new_user UserService) cause"
definition new_user_body where "new_user_body cause = error_with (new_user UserBody) cause"
definition new_without_shutdown_not_h1 where
  "new_without_shutdown_not_h1 = error_new (KUser UserWithoutShutdownNonHttp1)"
definition new_shutdown where "new_shutdown cause = error_with (error_new KShutdown) (CauseIo cause)"

text \<open>\<open>new_h2\<close> panics when an error that \<open>is_io\<close> has no \<open>io::Error\<close> to give.\<close>

definition new_h2 :: "h2_error \<Rightarrow> error option" where
  "new_h2 h = (if h2_is_io h then map_option new_io (h2_into_io h)
               else Some (error_with (error_new KHttp2) (CauseH2 h)))"

lemmas error_new_defs [hyper_defs] =
  new_canceled_def new_incomplete_def new_too_large_def new_version_h2_def
  new_unexpected_message_def new_io_def new_closed_def new_body_def new_body_write_def
  new_body_write_aborted_def new_user_def new_user_header_def new_header_timeout_def
  new_user_unsupported_status_code_def new_user_service_def new_user_body_def new_shutdown_def
  new_listen_def new_accept_def new_connect_def new_user_unsupported_version_def
  new_user_unsupported_request_method_def new_user_absolute_uri_required_def new_user_no_upgrade_def
  new_user_manual_upgrade_def new_user_make_service_def new_without_shutdown_not_h1_def
  error_new_def error_with_def

text \<open>\<open>impl From<Parse> for Error\<close>, used by the \<open>?\<close> operator on parse results.\<close>

definition error_of_parse :: "parse \<Rightarrow> error" where
  "error_of_parse p = error_new (KParse p)"

definition content_length_invalid where "content_length_invalid = ParseHeader ContentLengthInvalid"
definition transfer_encoding_invalid where "transfer_encoding_invalid = ParseHeader TransferEncodingInvalid"
definition transfer_encoding_unexpected where "transfer_encoding_unexpected = ParseHeader TransferEncodingUnexpected"

text \<open>\<open>impl From<httparse::Error> for Parse\<close>.\<close>

datatype httparse_error =
    HpHeaderName | HpHeaderValue | HpNewLine | HpStatus | HpToken | HpTooManyHeaders | HpVersion

fun parse_of_httparse :: "httparse_error \<Rightarrow> parse" where
  "parse_of_httparse HpHeaderName = ParseHeader Token"
| "parse_of_httparse HpHeaderValue = ParseHeader Token"
| "parse_of_httparse HpNewLine = ParseHeader Token"
| "parse_of_httparse HpToken = ParseHeader Token"
| "parse_of_httparse HpStatus = ParseStatus"
| "parse_of_httparse HpTooManyHeaders = ParseTooLarge"
| "parse_of_httparse HpVersion = ParseVersion"

section \<open>Texts\<close>

fun description_of :: "kind \<Rightarrow> string" where
  "description_of (KParse ParseMethod) = ''invalid HTTP method parsed''"
| "description_of (KParse ParseVersion) = ''invalid HTTP version parsed''"
| "description_of (KParse ParseVersionH2) = ''invalid HTTP version parsed (found HTTP2 preface)''"
| "description_of (KParse ParseUri) = ''invalid URI''"
| "description_of (KParse ParseUriTooLong) = ''URI too long''"
| "description_of (KParse (ParseHeader Token)) = ''invalid HTTP header parsed''"
| "description_of (KParse (ParseHeader ContentLengthInvalid)) = ''invalid content-length parsed''"
| "description_of (KParse (ParseHeader TransferEncodingInvalid)) = ''invalid transfer-encoding parsed''"
| "description_of (KParse (ParseHeader TransferEncodingUnexpected)) = ''unexpected transfer-encoding parsed''"
| "description_of (KParse ParseTooLarge) = ''message head is too large''"
| "description_of (KParse ParseStatus) = ''invalid HTTP status-code parsed''"
| "description_of (KParse ParseInternal) = ''internal error inside Hyper and/or its dependencies, please report''"
| "description_of KIncompleteMessage = ''connection closed before message completed''"
| "description_of KUnexpectedMessage = ''received unexpected message from connection''"
| "description_of KChannelClosed = ''channel closed''"
| "description_of KConnect = ''error trying to connect''"
| "description_of KCanceled = ''operation was canceled''"
| "description_of KListen = ''error creating server listener''"
| "description_of KAccept = ''error accepting connection''"
| "description_of KHeaderTimeout = ''read header from client timeout''"
| "description_of KBody = ''error reading a body from connection''"
| "description_of KBodyWrite = ''error writing a body to connection''"
| "description_of KBodyWriteAborted = ''body write aborted''"
| "description_of KShutdown = ''error shutting down connection''"
| "description_of KHttp2 = ''http2 error''"
| "description_of KIo = ''connection error''"
| "description_of (KUser UserBody) = ''error from user's HttpBody stream''"
| "description_of (KUser UserMakeService) = ''error from user's MakeService''"
| "description_of (KUser UserService) = ''error from user's Service''"
| "description_of (KUser UserUnexpectedHeader) = ''user sent unexpected header''"
| "description_of (KUser UserUnsupportedVersion) = ''request has unsupported HTTP version''"
| "description_of (KUser UserUnsupportedRequestMethod) = ''request has unsupported HTTP method''"
| "description_of (KUser UserUnsupportedStatusCode) = ''response has 1xx status code, not supported by server''"
| "description_of (KUser UserAbsoluteUriRequired) = ''client requires absolute-form URIs''"
| "description_of (KUser UserNoUpgrade) = ''no upgrade available''"
| "description_of (KUser UserManualUpgrade) = ''upgrade expected but low level API in use''"
| "description_of (KUser UserWithoutShutdownNonHttp1) = ''without_shutdown() called on a non-HTTP/1 connection''"
| "description_of (KUser UserAbortedByCallback) = ''operation aborted by an application callback''"

definition description :: "error \<Rightarrow> string" where
  "description e = description_of (ekind e)"

text \<open>\<open>Display\<close>: the description, then the text of the cause; a \<open>TimedOut\<close> has a text of its own.\<close>

fun display_error :: "error \<Rightarrow> string" and display_cause :: "cause \<Rightarrow> string" where
  "display_error (Error k (Some c)) = description_of k @ '': '' @ display_cause c"
| "display_error (Error k None) = description_of k"
| "display_cause (CauseIo e) = io_msg e"
| "display_cause (CauseHyper e) = display_error e"
| "display_cause CauseTimedOut = ''operation timed out''"
| "display_cause (CauseH2 h) = h2_text h"
| "display_cause (CauseUser text _) = text"

section \<open>Chains of causes\<close>

text \<open>The view of a cause chain that does not depend on the loop: a timeout is found at any depth.\<close>

inductive caused_by :: "cause option \<Rightarrow> cause \<Rightarrow> bool" where
  here: "caused_by (Some c) c"
| deeper: "caused_by (cause_source c) d \<Longrightarrow> caused_by (Some c) d"

inductive_cases caused_by_NoneE [elim!]: "caused_by None d"

lemma find_source_from_iff:
  "find_source_from p co \<noteq> None \<longleftrightarrow> (\<exists>d. caused_by co d \<and> p d)"
proof (induction p co rule: find_source_from.induct)
  case (1 p)
  show ?case by auto
next
  case (2 p c)
  show ?case
  proof (cases "p c")
    case True
    then show ?thesis by (auto intro: caused_by.here)
  next
    case False
    with "2.IH" show ?thesis
      by (auto intro: caused_by.deeper elim: caused_by.cases)
  qed
qed

lemma find_source_wrapped:
  "find_source p (error_with e (CauseHyper f)) =
     (if p (CauseHyper f) then Some (CauseHyper f) else find_source p f)"
  by (simp add: find_source_def error_with_def)

text \<open>C26: What an error was caused by is not lost when it is wrapped. \<open>is_timeout\<close> holds exactly when
  the timeout sentinel is somewhere in the chain of causes, and an error that carries another one as
  its cause reports the same timeout and the same HTTP/2 reason as the error it wraps.\<close>

theorem wrapped_error_keeps_cause:
  "(is_timeout f \<longleftrightarrow> caused_by (ecause f) CauseTimedOut) \<and>
   is_timeout (error_with e (CauseHyper f)) = is_timeout f \<and>
   h2_reason (error_with e (CauseHyper f)) = h2_reason f \<and>
   ekind (error_with e (CauseHyper f)) = ekind e"
proof -
  have "is_timeout f \<longleftrightarrow> caused_by (ecause f) CauseTimedOut"
    unfolding is_timeout_def find_source_def find_source_from_iff by blast
  then show ?thesis
    by (simp add: is_timeout_def h2_reason_def find_source_wrapped) (simp add: error_with_def)
qed

end
