(* ===== verification/Body_Length.thy ===== *)
theory Body_Length
  imports Errors
begin

text \<open>
  The decoded length of an incoming body (\<^verbatim>\<open>src/src/body/length.rs\<close>): a \<open>u64\<close> in which the two
  largest values stand for a chunked and a close-delimited body.
\<close>

datatype decoded_length = DecodedLength (dl_val: u64)

definition MAX_LEN :: u64 where "MAX_LEN = - 1 - 2"

definition CLOSE_DELIMITED :: decoded_length where "CLOSE_DELIMITED = DecodedLength (- 1)"
definition CHUNKED :: decoded_length where "CHUNKED = DecodedLength (- 1 - 1)"
definition ZERO :: decoded_length where "ZERO = DecodedLength 0"

definition danger_len :: "decoded_length \<Rightarrow> u64" where
  "danger_len d = dl_val d"

definition into_opt :: "decoded_length \<Rightarrow> u64 option" where
  "into_opt d = (if d = CHUNKED \<or> d = CLOSE_DELIMITED then None else Some (dl_val d))"

definition checked_new :: "u64 \<Rightarrow> parse + decoded_length" where
  "checked_new len = (if len \<le> MAX_LEN then Ok (DecodedLength len) else Err ParseTooLarge)"

definition sub_if :: "decoded_length \<Rightarrow> u64 \<Rightarrow> decoded_length" where
  "sub_if d amt =
     (if d = CHUNKED \<or> d = CLOSE_DELIMITED then d else DecodedLength (dl_val d - amt))"

definition is_exact :: "decoded_length \<Rightarrow> bool" where
  "is_exact d \<longleftrightarrow> dl_val d \<le> MAX_LEN"

text \<open>\<open>impl From<Option<u64>> for DecodedLength\<close>.\<close>

definition decoded_length_from :: "u64 option \<Rightarrow> decoded_length" where
  "decoded_length_from len =
     (case len of
        None \<Rightarrow> CHUNKED
      | Some n \<Rightarrow> (case checked_new n of Err _ \<Rightarrow> CHUNKED | Ok d \<Rightarrow> d))"

lemmas length_consts [hyper_defs] = MAX_LEN_def CLOSE_DELIMITED_def CHUNKED_def ZERO_def

section \<open>The three length classes do not overlap\<close>

lemma sentinels_distinct [simp]:
  "CHUNKED \<noteq> CLOSE_DELIMITED" "CLOSE_DELIMITED \<noteq> CHUNKED"
  "CHUNKED \<noteq> ZERO" "ZERO \<noteq> CHUNKED" "CLOSE_DELIMITED \<noteq> ZERO" "ZERO \<noteq> CLOSE_DELIMITED"
  by (simp_all add: length_consts)

lemma le_MAX_LEN_iff: "n \<le> MAX_LEN \<longleftrightarrow> n \<noteq> - 1 \<and> n \<noteq> - 1 - 1"
proof -
  have m: "unat n < 2 ^ 64" using unat_less_u64 [of n] by simp
  have "unat (MAX_LEN) = 2 ^ 64 - 3" "unat (- 1 :: u64) = 2 ^ 64 - 1"
    "unat (- 1 - 1 :: u64) = 2 ^ 64 - 2"
    by (simp_all add: MAX_LEN_def unsigned_minus_1_eq_mask mask_eq_exp_minus_1)
  then show ?thesis
    using m by (auto simp: word_le_nat_alt word_unat_eq_iff)
qed

lemma is_exact_iff: "is_exact d \<longleftrightarrow> d \<noteq> CHUNKED \<and> d \<noteq> CLOSE_DELIMITED"
  by (cases d) (auto simp: is_exact_def le_MAX_LEN_iff CHUNKED_def CLOSE_DELIMITED_def)

lemma checked_new_Ok_iff: "checked_new n = Ok d \<longleftrightarrow> d = DecodedLength n \<and> is_exact d"
  by (auto simp: checked_new_def is_exact_def)

lemma checked_new_into_opt: "checked_new n = Ok d \<Longrightarrow> into_opt d = Some n"
  by (auto simp: checked_new_Ok_iff is_exact_iff into_opt_def)

lemma into_opt_Some_iff: "into_opt d = Some n \<longleftrightarrow> checked_new n = Ok d"
  by (cases d) (auto simp: checked_new_Ok_iff is_exact_iff into_opt_def)

lemma decoded_length_from_into_opt:
  "decoded_length_from (into_opt d) = (if is_exact d then d else CHUNKED)"
proof (cases "is_exact d")
  case True
  then have "into_opt d = Some (dl_val d)" "checked_new (dl_val d) = Ok d"
    by (cases d; simp add: is_exact_iff into_opt_def checked_new_Ok_iff)+
  with True show ?thesis by (simp add: decoded_length_from_def)
next
  case False
  then show ?thesis by (auto simp: is_exact_iff into_opt_def decoded_length_from_def)
qed

end
