(* ===== verification/Decode.thy ===== *)
theory Decode
  imports Body_Length
begin

text \<open>
  The body decoder of HTTP/1 (\<^verbatim>\<open>src/src/proto/h1/decode.rs\<close>): length-delimited, chunked and
  close-delimited bodies, read through the \<open>MemRead\<close> trait. A \<open>MemRead\<close> implementation is a
  function \<open>rd\<close> that takes the reader and a byte count and returns the changed reader with the
  poll result.

  The chunked decoder is related to \<open>ref_decode\<close>, a decoder of complete byte strings that looks
  at one byte at a time: whatever pieces the reader delivers, and however often it is not ready,
  a finished sequence of \<open>decode\<close> calls delivers the reference body. The laws a reader has to
  obey are the locales \<open>mem_read\<close> and \<open>mem_stream\<close>.
\<close>

type_synonym 'r mem_reader = "'r \<Rightarrow> nat \<Rightarrow> 'r \<times> (io_error + bytes) poll"

section \<open>Definitions\<close>

datatype chunked_state =
    CSize | CSizeLws | CExtension | CSizeLf | CBody | CBodyCr | CBodyLf | CTrailer | CTrailerLf
  | CEndCr | CEndLf | CEnd

datatype decoder_kind = DLength u64 | DChunked chunked_state u64 | DEof bool

record decoder = dec_kind :: decoder_kind

definition decoder_length :: "u64 \<Rightarrow> decoder" where
  "decoder_length x = \<lparr>dec_kind = DLength x\<rparr>"

definition decoder_chunked :: decoder where
  "decoder_chunked = \<lparr>dec_kind = DChunked CSize 0\<rparr>"

definition decoder_eof :: decoder where
  "decoder_eof = \<lparr>dec_kind = DEof False\<rparr>"

definition decoder_new :: "decoded_length \<Rightarrow> decoder" where
  "decoder_new len =
     (if len = CHUNKED then decoder_chunked
      else if len = CLOSE_DELIMITED then decoder_eof
      else decoder_length (danger_len len))"

definition decoder_is_eof :: "decoder \<Rightarrow> bool" where
  "decoder_is_eof d =
     (case dec_kind d of
        DLength n \<Rightarrow> n = 0
      | DChunked st _ \<Rightarrow> st = CEnd
      | DEof b \<Rightarrow> b)"

definition incomplete_body where "incomplete_body = IoError UnexpectedEof ''end of file before message length reached''"
definition eof_in_size_line where "eof_in_size_line = IoError UnexpectedEof ''unexpected EOF during chunk size line''"
definition size_overflow where "size_overflow = IoError InvalidData ''invalid chunk size: overflow''"

text \<open>The macro \<open>byte!\<close>, with the rest of the calling function as the continuation \<open>f\<close>.\<close>

definition with_byte ::
    "'r mem_reader \<Rightarrow> 'r \<Rightarrow> (u8 \<Rightarrow> io_error + 'a) \<Rightarrow> 'r \<times> (io_error + 'a) poll" where
  "with_byte rd r f =
     (case rd r 1 of
        (r', Pending) \<Rightarrow> (r', Pending)
      | (r', Ready (Err e)) \<Rightarrow> (r', Ready (Err e))
      | (r', Ready (Ok [])) \<Rightarrow> (r', Ready (Err eof_in_size_line))
      | (r', Ready (Ok (b # _))) \<Rightarrow> (r', Ready (f b)))"

text \<open>
  \<open>read_size\<close>. The checked operations store the product before the sum is tried, so a failing
  addition leaves the product in \<open>size\<close>.
\<close>

definition add_digit :: "u64 \<Rightarrow> u64 \<Rightarrow> u64 \<times> (io_error + chunked_state)" where
  "add_digit sz d =
     (case checked_mul sz 16 of
        None \<Rightarrow> (sz, Err size_overflow)
      | Some sz \<Rightarrow>
          (case checked_add sz d of
             None \<Rightarrow> (sz, Err size_overflow)
           | Some sz \<Rightarrow> (sz, Ok CSize)))"

definition size_byte :: "u64 \<Rightarrow> u8 \<Rightarrow> u64 \<times> (io_error + chunked_state)" where
  "size_byte sz b =
     (if 48 \<le> b \<and> b \<le> 57 then add_digit sz (ucast (b - 48))
      else if 97 \<le> b \<and> b \<le> 102 then add_digit sz (ucast (b + 10 - 97))
      else if 65 \<le> b \<and> b \<le> 70 then add_digit sz (ucast (b + 10 - 65))
      else if b = 9 \<or> b = 32 then (sz, Ok CSizeLws)
      else if b = 59 then (sz, Ok CExtension)
      else if b = CR then (sz, Ok CSizeLf)
      else (sz, Err (IoError InvalidInput ''Invalid chunk size line: Invalid Size'')))"

definition read_size ::
    "'r mem_reader \<Rightarrow> 'r \<Rightarrow> u64 \<Rightarrow> 'r \<times> u64 \<times> (io_error + chunked_state) poll" where
  "read_size rd r sz =
     (case with_byte rd r (\<lambda>b. Ok (size_byte sz b)) of
        (r', Pending) \<Rightarrow> (r', sz, Pending)
      | (r', Ready (Err e)) \<Rightarrow> (r', sz, Ready (Err e))
      | (r', Ready (Ok (sz', res))) \<Rightarrow> (r', sz', Ready res))"

definition size_lws_byte :: "u8 \<Rightarrow> io_error + chunked_state" where
  "size_lws_byte b =
     (if b = 9 \<or> b = 32 then Ok CSizeLws
      else if b = 59 then Ok CExtension
      else if b = CR then Ok CSizeLf
      else Err (IoError InvalidInput ''Invalid chunk size linear white space''))"

definition extension_byte :: "u8 \<Rightarrow> io_error + chunked_state" where
  "extension_byte b =
     (if b = CR then Ok CSizeLf
      else if b = LF then Err (IoError InvalidData ''invalid chunk extension contains newline'')
      else Ok CExtension)"

definition size_lf_byte :: "u64 \<Rightarrow> u8 \<Rightarrow> io_error + chunked_state" where
  "size_lf_byte sz b =
     (if b = LF then (if sz = 0 then Ok CEndCr else Ok CBody)
      else Err (IoError InvalidInput ''Invalid chunk size LF''))"

definition body_cr_byte :: "u8 \<Rightarrow> io_error + chunked_state" where
  "body_cr_byte b = (if b = CR then Ok CBodyLf else Err (IoError InvalidInput ''Invalid chunk body CR''))"

definition body_lf_byte :: "u8 \<Rightarrow> io_error + chunked_state" where
  "body_lf_byte b = (if b = LF then Ok CSize else Err (IoError InvalidInput ''Invalid chunk body LF''))"

definition trailer_byte :: "u8 \<Rightarrow> io_error + chunked_state" where
  "trailer_byte b = (if b = CR then Ok CTrailerLf else Ok CTrailer)"

definition trailer_lf_byte :: "u8 \<Rightarrow> io_error + chunked_state" where
  "trailer_lf_byte b = (if b = LF then Ok CEndCr else Err (IoError InvalidInput ''Invalid trailer end LF''))"

definition end_cr_byte :: "u8 \<Rightarrow> io_error + chunked_state" where
  "end_cr_byte b = (if b = CR then Ok CEndLf else Ok CTrailer)"

definition end_lf_byte :: "u8 \<Rightarrow> io_error + chunked_state" where
  "end_lf_byte b = (if b = LF then Ok CEnd else Err (IoError InvalidInput ''Invalid chunk end LF''))"

definition usize_max :: u64 where "usize_max = - 1"

definition read_body ::
    "'r mem_reader \<Rightarrow> 'r \<Rightarrow> u64 \<Rightarrow> 'r \<times> u64 \<times> bytes option \<times> (io_error + chunked_state) poll" where
  "read_body rd r rem =
     (let rem_cap = (if rem > usize_max then usize_max else rem)
      in case rd r (unat rem_cap) of
           (r', Pending) \<Rightarrow> (r', rem, None, Pending)
         | (r', Ready (Err e)) \<Rightarrow> (r', rem, None, Ready (Err e))
         | (r', Ready (Ok chunk)) \<Rightarrow>
             (let count = length chunk
              in if count = 0 then (r', 0, None, Ready (Err incomplete_body))
                 else let rem' = rem - word_of_nat count
                      in (r', rem', Some chunk, Ready (Ok (if rem' > 0 then CBody else CBodyCr)))))"

text \<open>\<open>ChunkedState::step\<close>: the changed reader, \<open>size\<close>, \<open>buf\<close> and the next state.\<close>

definition plain_step ::
    "'r mem_reader \<Rightarrow> 'r \<Rightarrow> u64 \<Rightarrow> (u8 \<Rightarrow> io_error + chunked_state)
     \<Rightarrow> 'r \<times> u64 \<times> bytes option \<times> (io_error + chunked_state) poll" where
  "plain_step rd r sz f = (case with_byte rd r f of (r', res) \<Rightarrow> (r', sz, None, res))"

fun step ::
    "'r mem_reader \<Rightarrow> chunked_state \<Rightarrow> 'r \<Rightarrow> u64
     \<Rightarrow> 'r \<times> u64 \<times> bytes option \<times> (io_error + chunked_state) poll" where
  "step rd CSize r sz = (case read_size rd r sz of (r', sz', res) \<Rightarrow> (r', sz', None, res))"
| "step rd CSizeLws r sz = plain_step rd r sz size_lws_byte"
| "step rd CExtension r sz = plain_step rd r sz extension_byte"
| "step rd CSizeLf r sz = plain_step rd r sz (size_lf_byte sz)"
| "step rd CBody r sz = read_body rd r sz"
| "step rd CBodyCr r sz = plain_step rd r sz body_cr_byte"
| "step rd CBodyLf r sz = plain_step rd r sz body_lf_byte"
| "step rd CTrailer r sz = plain_step rd r sz trailer_byte"
| "step rd CTrailerLf r sz = plain_step rd r sz trailer_lf_byte"
| "step rd CEndCr r sz = plain_step rd r sz end_cr_byte"
| "step rd CEndLf r sz = plain_step rd r sz end_lf_byte"
| "step rd CEnd r sz = (r, sz, None, Ready (Ok CEnd))"

text \<open>The \<open>loop\<close> of the chunked branch of \<open>decode\<close>; a reader that never runs dry may keep it busy.\<close>

partial_function (option) chunked_loop ::
    "'r mem_reader \<Rightarrow> chunked_state \<Rightarrow> u64 \<Rightarrow> 'r
     \<Rightarrow> (chunked_state \<times> u64 \<times> 'r \<times> (io_error + bytes) poll) option" where
  "chunked_loop rd state sz r =
     (case step rd state r sz of
        (r', sz', buf, Pending) \<Rightarrow> Some (state, sz', r', Pending)
      | (r', sz', buf, Ready (Err e)) \<Rightarrow> Some (state, sz', r', Ready (Err e))
      | (r', sz', buf, Ready (Ok state')) \<Rightarrow>
          (if state' = CEnd then Some (state', sz', r', Ready (Ok []))
           else case buf of
                  Some b \<Rightarrow> Some (state', sz', r', Ready (Ok b))
                | None \<Rightarrow> chunked_loop rd state' sz' r'))"

declare chunked_loop.simps [code]

definition decode ::
    "'r mem_reader \<Rightarrow> decoder \<Rightarrow> 'r \<Rightarrow> (decoder \<times> 'r \<times> (io_error + bytes) poll) option" where
  "decode rd d r =
     (case dec_kind d of
        DLength remaining \<Rightarrow>
          (if remaining = 0 then Some (d, r, Ready (Ok []))
           else case rd r (unat remaining) of
                  (r', Pending) \<Rightarrow> Some (d, r', Pending)
                | (r', Ready (Err e)) \<Rightarrow> Some (d, r', Ready (Err e))
                | (r', Ready (Ok buf)) \<Rightarrow>
                    (let num = word_of_nat (length buf)
                     in if num > remaining then Some (d\<lparr>dec_kind := DLength 0\<rparr>, r', Ready (Ok buf))
                        else if num = 0 then Some (d, r', Ready (Err incomplete_body))
                        else Some (d\<lparr>dec_kind := DLength (remaining - num)\<rparr>, r', Ready (Ok buf))))
      | DChunked state sz \<Rightarrow>
          map_option (\<lambda>(state', sz', r', res). (d\<lparr>dec_kind := DChunked state' sz'\<rparr>, r', res))
            (chunked_loop rd state sz r)
      | DEof is_eof \<Rightarrow>
          (if is_eof then Some (d, r, Ready (Ok []))
           else case rd r 8192 of
                  (r', Pending) \<Rightarrow> Some (d, r', Pending)
                | (r', Ready (Err e)) \<Rightarrow> Some (d, r', Ready (Err e))
                | (r', Ready (Ok chunk)) \<Rightarrow>
                    Some (d\<lparr>dec_kind := DEof (chunk = [])\<rparr>, r', Ready (Ok chunk))))"

text \<open>The reader over a byte slice: \<open>impl MemRead for &[u8]\<close>.\<close>

definition slice_read_mem :: "bytes mem_reader" where
  "slice_read_mem s len =
     (let n = min len (length s)
      in if n > 0 then (drop n s, Ready (Ok (take n s))) else (s, Ready (Ok [])))"

section \<open>One byte of framing\<close>

text \<open>The transition that every state but the body and the final one makes on a byte.\<close>

fun control_byte :: "chunked_state \<Rightarrow> u64 \<Rightarrow> u8 \<Rightarrow> u64 \<times> (io_error + chunked_state)" where
  "control_byte CSize sz b = size_byte sz b"
| "control_byte CSizeLws sz b = (sz, size_lws_byte b)"
| "control_byte CExtension sz b = (sz, extension_byte b)"
| "control_byte CSizeLf sz b = (sz, size_lf_byte sz b)"
| "control_byte CBodyCr sz b = (sz, body_cr_byte b)"
| "control_byte CBodyLf sz b = (sz, body_lf_byte b)"
| "control_byte CTrailer sz b = (sz, trailer_byte b)"
| "control_byte CTrailerLf sz b = (sz, trailer_lf_byte b)"
| "control_byte CEndCr sz b = (sz, end_cr_byte b)"
| "control_byte CEndLf sz b = (sz, end_lf_byte b)"
| "control_byte CBody sz b = (sz, Ok CBody)"
| "control_byte CEnd sz b = (sz, Ok CEnd)"

lemma step_control:
  assumes "st \<noteq> CBody" "st \<noteq> CEnd"
  shows "step rd st r sz =
     (case rd r (Suc 0) of
        (r', Pending) \<Rightarrow> (r', sz, None, Pending)
      | (r', Ready (Err e)) \<Rightarrow> (r', sz, None, Ready (Err e))
      | (r', Ready (Ok [])) \<Rightarrow> (r', sz, None, Ready (Err eof_in_size_line))
      | (r', Ready (Ok (b # _))) \<Rightarrow>
          (r', fst (control_byte st sz b), None, Ready (snd (control_byte st sz b))))"
  using assms
  by (cases st) (auto simp: plain_step_def read_size_def with_byte_def split: res_splits list.splits)

text \<open>A state that waits for body bytes always has some to wait for.\<close>

definition chunk_wf :: "chunked_state \<Rightarrow> u64 \<Rightarrow> bool" where
  "chunk_wf st sz \<longleftrightarrow> (st = CBody \<longrightarrow> sz \<noteq> 0)"

lemma add_digit_not_body: "snd (add_digit sz d) \<noteq> Ok CBody"
  by (simp add: add_digit_def split: option.split)

lemma size_byte_not_body: "snd (size_byte sz b) \<noteq> Ok CBody"
  by (simp add: size_byte_def add_digit_not_body)

lemma control_byte_wf:
  assumes "st \<noteq> CBody" "snd (control_byte st sz b) = Ok st'"
  shows "chunk_wf st' (fst (control_byte st sz b))"
proof (cases "st' = CBody")
  case True
  with assms have "st = CSizeLf \<and> sz \<noteq> 0"
    by (cases st) (simp_all add: size_byte_not_body size_lws_byte_def extension_byte_def
        size_lf_byte_def body_cr_byte_def body_lf_byte_def trailer_byte_def trailer_lf_byte_def
        end_cr_byte_def end_lf_byte_def split: if_splits)
  then show ?thesis by (simp add: chunk_wf_def)
next
  case False
  then show ?thesis by (simp add: chunk_wf_def)
qed

section \<open>The reference decoder\<close>

text \<open>
  \<open>ref_decode st sz inp\<close>: the body found in the complete input \<open>inp\<close> from state \<open>st\<close>, with the
  input that follows the last chunk; \<open>None\<close> when the input ends early or is malformed.
\<close>

fun ref_decode :: "chunked_state \<Rightarrow> u64 \<Rightarrow> bytes \<Rightarrow> (bytes \<times> bytes) option" where
  "ref_decode st sz [] = (if st = CEnd then Some ([], []) else None)"
| "ref_decode st sz (b # inp) =
     (if st = CEnd then Some ([], b # inp)
      else if st = CBody then
        map_option (apfst (Cons b)) (ref_decode (if sz - 1 > 0 then CBody else CBodyCr) (sz - 1) inp)
      else case snd (control_byte st sz b) of
             Err _ \<Rightarrow> None
           | Ok st' \<Rightarrow> ref_decode st' (fst (control_byte st sz b)) inp)"

lemma ref_decode_End [simp]: "ref_decode CEnd sz inp = Some ([], inp)"
  by (cases inp) simp_all

lemma apfst_append_comp: "apfst (append xs) \<circ> apfst (append ys) = apfst (append (xs @ ys))"
  by auto

lemma ref_decode_body:
  assumes "bs \<noteq> []" "length bs \<le> unat sz"
  shows "ref_decode CBody sz (bs @ inp) =
     map_option (apfst (append bs))
       (ref_decode (if sz - word_of_nat (length bs) > 0 then CBody else CBodyCr)
          (sz - word_of_nat (length bs)) inp)"
  using assms
proof (induction bs arbitrary: sz)
  case Nil
  then show ?case by simp
next
  case (Cons b bs)
  have un: "unat (sz - 1) = unat sz - 1"
    using Cons.prems(2) unat_sub_u64 [of 1 sz] by simp
  show ?case
  proof (cases "bs = []")
    case True
    then show ?thesis by (simp add: option.map_comp apfst_def map_prod_def)
  next
    case False
    then have len: "0 < length bs" by simp
    have "Suc (length bs) \<le> unat sz" using Cons.prems(2) by simp
    with len un have "unat (sz - 1) \<noteq> 0" "length bs \<le> unat (sz - 1)" by linarith+
    then have pos: "sz - 1 > 0" by (simp add: word_less_nat_alt)
    have eq: "sz - 1 - word_of_nat (length bs) = sz - word_of_nat (length (b # bs))" by simp
    have "ref_decode CBody sz ((b # bs) @ inp) =
        map_option (apfst (Cons b)) (ref_decode CBody (sz - 1) (bs @ inp))"
      using pos by simp
    also note Cons.IH [OF False \<open>length bs \<le> unat (sz - 1)\<close>]
    finally show ?thesis
      unfolding eq by (simp add: option.map_comp comp_def apfst_def map_prod_def split_beta)
  qed
qed

section \<open>Readers\<close>

text \<open>The laws of the trait: no more bytes than asked for.\<close>

locale mem_read =
  fixes rd :: "'r mem_reader"
  assumes read_le: "rd r n = (r', Ready (Ok bs)) \<Longrightarrow> length bs \<le> n"

text \<open>What one call of the loop does to the reference decoding of the rest of the stream.\<close>

definition loop_spec ::
    "'r mem_reader \<Rightarrow> ('r \<Rightarrow> bytes) \<Rightarrow> ('r \<Rightarrow> bool) \<Rightarrow> chunked_state \<Rightarrow> u64 \<Rightarrow> 'r
     \<Rightarrow> chunked_state \<Rightarrow> u64 \<Rightarrow> 'r \<Rightarrow> (io_error + bytes) poll \<Rightarrow> bool" where
  "loop_spec rd stream good st sz r st' sz' r' res \<longleftrightarrow>
     (case res of
        Pending \<Rightarrow> good r' \<and>
          ref_decode st sz (stream r) = ref_decode st' sz' (stream r') \<and> chunk_wf st' sz'
      | Ready (Ok bs) \<Rightarrow> good r' \<and>
          (if bs = [] then st' = CEnd \<and> ref_decode st sz (stream r) = Some ([], stream r')
           else ref_decode st sz (stream r) =
                  map_option (apfst (append bs)) (ref_decode st' sz' (stream r')) \<and> chunk_wf st' sz')
      | Ready (Err e) \<Rightarrow>
          (\<exists>r1 n r2. rd r1 n = (r2, Ready (Err e))) \<or> ref_decode st sz (stream r) = None)"

text \<open>
  A reader over a stream: \<open>stream r\<close> are the bytes that will come before the end of the
  transport. Bytes are delivered in order, none at all only at the end, and a reader that is not
  ready loses nothing. \<open>good\<close> is the invariant of the reader.
\<close>

locale mem_stream = mem_read rd for rd :: "'r mem_reader" +
  fixes stream :: "'r \<Rightarrow> bytes"
    and good :: "'r \<Rightarrow> bool"
  assumes read_ok: "good r \<Longrightarrow> rd r n = (r', Ready (Ok bs)) \<Longrightarrow> stream r = bs @ stream r' \<and> good r'"
    and read_eof: "good r \<Longrightarrow> rd r n = (r', Ready (Ok [])) \<Longrightarrow> 0 < n \<Longrightarrow> stream r = []"
    and read_pending: "good r \<Longrightarrow> rd r n = (r', Pending) \<Longrightarrow> stream r' = stream r \<and> good r'"
begin

lemma read_byte:
  assumes "good r" "rd r (Suc 0) = (r', Ready (Ok (b # bs)))"
  shows "bs = []" "stream r = b # stream r'" "good r'"
proof -
  from read_le [OF assms(2)] show bs: "bs = []" by simp
  from read_ok [OF assms] bs show "stream r = b # stream r'" "good r'" by simp_all
qed

text \<open>Every call of the chunked loop returns: a framing state consumes a byte of the stream.\<close>

lemma chunked_loop_returns:
  assumes "good r"
  shows "\<exists>res. chunked_loop rd st sz r = Some res"
  using assms
proof (induction "length (stream r)" arbitrary: st sz r rule: less_induct)
  case less
  show ?case
  proof (cases "st = CBody \<or> st = CEnd")
    case True
    then show ?thesis
      by (subst chunked_loop.simps) (auto simp: read_body_def Let_def split: res_splits)
  next
    case False
    then have st: "st \<noteq> CBody" "st \<noteq> CEnd" by simp_all
    show ?thesis
    proof (cases "\<exists>r' b bs. rd r (Suc 0) = (r', Ready (Ok (b # bs)))")
      case True
      then obtain r' b bs where rd: "rd r (Suc 0) = (r', Ready (Ok (b # bs)))" by blast
      have "length (stream r') < length (stream r)" using read_byte(2) [OF less.prems rd] by simp
      from less.hyps [OF this read_byte(3) [OF less.prems rd]] show ?thesis
        by (subst chunked_loop.simps) (simp add: step_control [OF st] rd split: sum.splits)
    next
      case False
      then show ?thesis
        by (subst chunked_loop.simps)
          (auto simp: step_control [OF st] split: res_splits list.splits)
    qed
  qed
qed

lemma read_body_spec:
  assumes "good r" "chunk_wf CBody sz" "read_body rd r sz = (r', sz', buf, res)"
  shows "case res of
      Pending \<Rightarrow> sz' = sz \<and> stream r' = stream r \<and> good r'
    | Ready (Err e) \<Rightarrow> (\<exists>r1 n r2. rd r1 n = (r2, Ready (Err e))) \<or> stream r = []
    | Ready (Ok st') \<Rightarrow> (\<exists>bs. buf = Some bs \<and> bs \<noteq> [] \<and> st' \<noteq> CEnd \<and> good r' \<and> chunk_wf st' sz' \<and>
        ref_decode CBody sz (stream r) = map_option (apfst (append bs)) (ref_decode st' sz' (stream r')))"
proof -
  have cap: "(if sz > usize_max then usize_max else sz) = sz"
    by (simp add: usize_max_def word_less_1 [symmetric] not_less)
  have pos: "0 < unat sz" using assms(2) by (simp add: chunk_wf_def unat_gt_0)
  show ?thesis
  proof (cases "rd r (unat sz)")
    case (Pair r'' p)
    show ?thesis
    proof (cases p)
      case Pending
      with Pair assms(3) cap read_pending [OF assms(1), of "unat sz" r''] show ?thesis
        by (auto simp: read_body_def Let_def)
    next
      case (Ready x)
      show ?thesis
      proof (cases x)
        case (Inl e)
        with Ready Pair have "rd r (unat sz) = (r'', Ready (Err e))" by simp
        with assms(3) cap show ?thesis by (fastforce simp: read_body_def Let_def)
      next
        case (Inr bs)
        with Ready Pair have rd: "rd r (unat sz) = (r'', Ready (Ok bs))" by simp
        show ?thesis
        proof (cases "bs = []")
          case True
          with rd pos read_eof [OF assms(1), of "unat sz" r''] assms(3) cap show ?thesis
            by (auto simp: read_body_def Let_def)
        next
          case False
          note len = read_le [OF rd]
          have "ref_decode CBody sz (stream r) = ref_decode CBody sz (bs @ stream r'')"
            using read_ok [OF assms(1) rd] by simp
          also note ref_decode_body [OF False len]
          finally show ?thesis using rd False assms(3) cap read_ok [OF assms(1) rd]
            by (auto simp: read_body_def Let_def chunk_wf_def split: if_splits)
        qed
      qed
    qed
  qed
qed

lemma chunked_loop_spec:
  assumes "good r" "chunk_wf st sz" "chunked_loop rd st sz r = Some (st', sz', r', res)"
  shows "loop_spec rd stream good st sz r st' sz' r' res"
  using assms
proof (induction "length (stream r)" arbitrary: st sz r rule: less_induct)
  case less
  note loop = less.prems(3) [unfolded chunked_loop.simps [of rd st sz r]]
  consider "st = CEnd" | "st = CBody" | "st \<noteq> CEnd" "st \<noteq> CBody" by blast
  then show ?case
  proof cases
    case 1
    with loop less.prems(1) show ?thesis by (auto simp: loop_spec_def)
  next
    case 2
    obtain r1 sz1 buf p where rb: "read_body rd r sz = (r1, sz1, buf, p)" by (metis surj_pair)
    from read_body_spec [OF less.prems(1) _ rb] less.prems(1,2) 2 rb loop show ?thesis
      by (cases "stream r") (auto simp: loop_spec_def split: res_splits)
  next
    case 3
    show ?thesis
    proof (cases "\<exists>r1 b bs. rd r (Suc 0) = (r1, Ready (Ok (b # bs)))")
      case True
      then obtain r1 b bs where rd: "rd r (Suc 0) = (r1, Ready (Ok (b # bs)))" by blast
      note str = read_byte(2,3) [OF less.prems(1) rd]
      show ?thesis
      proof (cases "snd (control_byte st sz b)")
        case (Inl e)
        with loop rd 3 str show ?thesis by (auto simp: step_control loop_spec_def)
      next
        case (Inr st1)
        let ?sz1 = "fst (control_byte st sz b)"
        have ref: "ref_decode st sz (stream r) = ref_decode st1 ?sz1 (stream r1)"
          using 3 str Inr by simp
        show ?thesis
        proof (cases "st1 = CEnd")
          case True
          with loop rd 3 Inr ref str(2) show ?thesis by (auto simp: step_control loop_spec_def)
        next
          case False
          with loop rd 3 Inr have "chunked_loop rd st1 ?sz1 r1 = Some (st', sz', r', res)"
            by (simp add: step_control)
          moreover have "chunk_wf st1 ?sz1" using 3(2) Inr by (rule control_byte_wf)
          ultimately have "loop_spec rd stream good st1 ?sz1 r1 st' sz' r' res"
            using less.hyps [of r1 st1 ?sz1] str by simp
          then show ?thesis unfolding loop_spec_def ref .
        qed
      qed
    next
      case False
      with loop 3 less.prems(2) read_eof [OF less.prems(1), of "Suc 0"] read_pending [OF less.prems(1), of "Suc 0"] show ?thesis
        by (fastforce simp: step_control loop_spec_def split: res_splits list.splits)
    qed
  qed
qed

end

section \<open>Chunk sizes\<close>

definition is_hex :: "u8 \<Rightarrow> bool" where
  "is_hex b \<longleftrightarrow> 48 \<le> b \<and> b \<le> 57 \<or> 97 \<le> b \<and> b \<le> 102 \<or> 65 \<le> b \<and> b \<le> 70"

definition hex_val :: "u8 \<Rightarrow> nat" where
  "hex_val b = (if b \<le> 57 then unat b - 48 else if 97 \<le> b then unat b - 87 else unat b - 55)"

definition hex_value :: "nat \<Rightarrow> bytes \<Rightarrow> nat" where
  "hex_value acc bs = foldl (\<lambda>acc b. acc * 16 + hex_val b) acc bs"

lemma hex_value_simps [simp]:
  "hex_value acc [] = acc" "hex_value acc (b # bs) = hex_value (acc * 16 + hex_val b) bs"
  by (simp_all add: hex_value_def)

lemma hex_value_append: "hex_value acc (xs @ ys) = hex_value (hex_value acc xs) ys"
  by (simp add: hex_value_def)

lemma hex_value_ge: "acc \<le> hex_value acc bs"
proof (induction bs arbitrary: acc)
  case (Cons b bs)
  from Cons [of "acc * 16 + hex_val b"] show ?case by simp
qed simp

lemma unat_hex_digits:
  fixes b :: u8
  shows "48 \<le> b \<Longrightarrow> b \<le> 57 \<Longrightarrow> unat (b - 48) = unat b - 48"
    and "97 \<le> b \<Longrightarrow> b \<le> 102 \<Longrightarrow> unat (b - 87) = unat b - 87"
    and "65 \<le> b \<Longrightarrow> b \<le> 70 \<Longrightarrow> unat (b - 55) = unat b - 55"
  by (simp_all add: unat_sub word_le_nat_alt)

lemma add_digit_eq:
  "snd (add_digit sz d) = (if unat sz * 16 + unat d < 2 ^ 64 then Ok CSize else Err size_overflow)"
  "unat sz * 16 + unat d < 2 ^ 64 \<Longrightarrow> fst (add_digit sz d) = word_of_nat (unat sz * 16 + unat d)"
  using checked_mul_add [of sz 16 d]
  by (auto simp: add_digit_def bind_eq_Some_conv split: option.splits if_splits)

lemma size_byte_hex:
  assumes "is_hex b"
  shows "\<exists>d. size_byte sz b = add_digit sz d \<and> unat d = hex_val b"
proof -
  from assms consider "48 \<le> b" "b \<le> 57" | "97 \<le> b" "b \<le> 102" | "65 \<le> b" "b \<le> 70"
    by (auto simp: is_hex_def)
  then show ?thesis
  proof cases
    case 1
    then show ?thesis
      by (intro exI [of _ "ucast (b - 48)"]) (simp add: size_byte_def hex_val_def unat_hex_digits)
  next
    case 2
    then show ?thesis
      by (intro exI [of _ "ucast (b + 10 - 97)"])
        (simp add: size_byte_def hex_val_def unat_hex_digits word_le_nat_alt [of b] word_le_nat_alt [of _ b])
  next
    case 3
    then show ?thesis
      by (intro exI [of _ "ucast (b + 10 - 65)"])
        (simp add: size_byte_def hex_val_def unat_hex_digits word_le_nat_alt [of b] word_le_nat_alt [of _ b])
  qed
qed

text \<open>The size line of a chunk: reading the digits one by one, as the \<open>CSize\<close> state does.\<close>

fun read_digits :: "u64 \<Rightarrow> bytes \<Rightarrow> io_error + u64" where
  "read_digits sz [] = Ok sz"
| "read_digits sz (b # bs) =
     (case size_byte sz b of
        (sz', Ok _) \<Rightarrow> read_digits sz' bs
      | (_, Err e) \<Rightarrow> Err e)"

lemma read_digits_eq:
  "list_all is_hex bs \<Longrightarrow>
   read_digits sz bs =
     (if hex_value (unat sz) bs < 2 ^ 64 then Ok (word_of_nat (hex_value (unat sz) bs))
      else Err size_overflow)"
proof (induction bs arbitrary: sz)
  case Nil
  then show ?case using unat_less_u64 [of sz] by simp
next
  case (Cons b bs)
  then obtain d where sb: "size_byte sz b = add_digit sz d" and d: "unat d = hex_val b"
    using size_byte_hex [of b sz] by auto
  let ?v = "unat sz * 16 + hex_val b"
  show ?case
  proof (cases "?v < 2 ^ 64")
    case True
    then have "add_digit sz d = (word_of_nat ?v, Ok CSize)"
      using add_digit_eq [of sz d] d by (simp add: prod_eq_iff)
    with sb Cons unat_of_nat_u64 [OF True] show ?thesis by simp
  next
    case False
    then have "snd (add_digit sz d) = Err size_overflow" using add_digit_eq(1) [of sz d] d by simp
    moreover have "\<not> hex_value ?v bs < 2 ^ 64" using False hex_value_ge [of ?v bs] by linarith
    ultimately show ?thesis using sb by (auto split: prod.splits sum.splits)
  qed
qed

lemma ref_decode_digits:
  "list_all is_hex bs \<Longrightarrow>
   ref_decode CSize sz (bs @ inp) =
     (case read_digits sz bs of Err _ \<Rightarrow> None | Ok sz' \<Rightarrow> ref_decode CSize sz' inp)"
proof (induction bs arbitrary: sz)
  case (Cons b bs)
  then obtain d where sb: "size_byte sz b = add_digit sz d" using size_byte_hex [of b sz] by auto
  have "snd (add_digit sz d) = Ok CSize \<or> (\<exists>e. snd (add_digit sz d) = Err e)"
    by (simp add: add_digit_eq(1))
  with sb Cons show ?case by (auto split: prod.splits sum.splits)
qed simp

section \<open>Runs\<close>

text \<open>
  A finished sequence of \<open>decode\<close> calls, as the connection makes them: it calls again after data
  and after a pending read and stops at the empty slice.
\<close>

inductive decode_run :: "'r mem_reader \<Rightarrow> decoder \<Rightarrow> 'r \<Rightarrow> bytes \<Rightarrow> decoder \<Rightarrow> 'r \<Rightarrow> bool"
  for rd where
  run_end: "decode rd d r = Some (d', r', Ready (Ok [])) \<Longrightarrow> decode_run rd d r [] d' r'"
| run_pending: "decode rd d r = Some (d1, r1, Pending) \<Longrightarrow> decode_run rd d1 r1 body d' r'
    \<Longrightarrow> decode_run rd d r body d' r'"
| run_data: "decode rd d r = Some (d1, r1, Ready (Ok bs)) \<Longrightarrow> bs \<noteq> []
    \<Longrightarrow> decode_run rd d1 r1 body d' r' \<Longrightarrow> decode_run rd d r (bs @ body) d' r'"

lemma decode_chunked_eq:
  "decode rd \<lparr>dec_kind = DChunked st sz\<rparr> r =
     map_option (\<lambda>(st', sz', r', res). (\<lparr>dec_kind = DChunked st' sz'\<rparr>, r', res))
       (chunked_loop rd st sz r)"
  by (simp add: decode_def)

context mem_stream
begin

text \<open>A finished run of the chunked decoder delivers the reference body and nothing beyond it.\<close>

lemma chunked_run:
  assumes "decode_run rd d r body d' r'" "good r" "dec_kind d = DChunked st sz" "chunk_wf st sz"
  shows "ref_decode st sz (stream r) = Some (body, stream r') \<and> decoder_is_eof d' \<and> good r'"
  using assms
proof (induction arbitrary: st sz rule: decode_run.induct)
  case (run_end d r d' r')
  then obtain st' sz' where "chunked_loop rd st sz r = Some (st', sz', r', Ready (Ok []))"
    and d': "d' = d\<lparr>dec_kind := DChunked st' sz'\<rparr>"
    by (auto simp: decode_def)
  from chunked_loop_spec [OF run_end.prems(1,3) this(1)] d' show ?case
    by (simp add: loop_spec_def decoder_is_eof_def)
next
  case (run_pending d r d1 r1 body d' r')
  then obtain st1 sz1 where l: "chunked_loop rd st sz r = Some (st1, sz1, r1, Pending)"
    and d1: "dec_kind d1 = DChunked st1 sz1"
    by (auto simp: decode_def)
  from chunked_loop_spec [OF run_pending.prems(1,3) l] run_pending.IH [OF _ d1] show ?case
    by (simp add: loop_spec_def)
next
  case (run_data d r d1 r1 bs body d' r')
  then obtain st1 sz1 where l: "chunked_loop rd st sz r = Some (st1, sz1, r1, Ready (Ok bs))"
    and d1: "dec_kind d1 = DChunked st1 sz1"
    by (auto simp: decode_def)
  from chunked_loop_spec [OF run_data.prems(1,3) l] run_data.IH [OF _ d1] run_data.hyps(2) show ?case
    by (simp add: loop_spec_def)
qed

text \<open>A length-delimited body is exactly as long as announced.\<close>

lemma length_run:
  assumes "decode_run rd d r body d' r'" "good r" "dec_kind d = DLength n"
  shows "length body = unat n \<and> stream r = body @ stream r' \<and> decoder_is_eof d' \<and> good r'"
  using assms
proof (induction arbitrary: n rule: decode_run.induct)
  case (run_end d r d' r')
  then show ?case by (auto simp: decode_def decoder_is_eof_def Let_def split: res_splits)
next
  case (run_pending d r d1 r1 body d' r')
  then have "rd r (unat n) = (r1, Pending)" "dec_kind d1 = DLength n"
    by (auto simp: decode_def Let_def split: res_splits)
  with run_pending.IH read_pending [OF run_pending.prems(1)] show ?case by simp
next
  case (run_data d r d1 r1 bs body d' r')
  then have rd: "rd r (unat n) = (r1, Ready (Ok bs))"
    and d1: "d1 = d\<lparr>dec_kind := DLength (if word_of_nat (length bs) > n then 0 else n - word_of_nat (length bs))\<rparr>"
    by (auto simp: decode_def Let_def split: res_splits)
  note le = read_le [OF rd]
  then have "length bs < 2 ^ 64" using unat_less_u64 [of n] by simp
  then have u: "unat (word_of_nat (length bs) :: u64) = length bs" by (rule unat_of_nat_u64)
  with le have "\<not> word_of_nat (length bs) > n" by (simp add: word_less_nat_alt)
  with d1 have "dec_kind d1 = DLength (n - word_of_nat (length bs))" by simp
  from run_data.IH [OF _ this] unat_sub_u64 [of "word_of_nat (length bs)" n] u le
    read_ok [OF run_data.prems(1) rd]
  show ?case by simp
qed

text \<open>A close-delimited body is everything up to the end of the transport.\<close>

lemma eof_run:
  assumes "decode_run rd d r body d' r'" "good r" "dec_kind d = DEof False"
  shows "stream r = body \<and> stream r' = [] \<and> decoder_is_eof d'"
  using assms
proof (induction rule: decode_run.induct)
  case (run_end d r d' r')
  then have "rd r 8192 = (r', Ready (Ok []))" "dec_kind d' = DEof True"
    by (auto simp: decode_def split: res_splits)
  with read_eof [OF run_end.prems(1)] read_ok [OF run_end.prems(1)] show ?case
    by (fastforce simp: decoder_is_eof_def)
next
  case (run_pending d r d1 r1 body d' r')
  then have "rd r 8192 = (r1, Pending)" "dec_kind d1 = DEof False"
    by (auto simp: decode_def split: res_splits)
  with run_pending.IH read_pending [OF run_pending.prems(1)] show ?case by auto
next
  case (run_data d r d1 r1 bs body d' r')
  then have "rd r 8192 = (r1, Ready (Ok bs))" "dec_kind d1 = DEof False"
    by (auto simp: decode_def split: res_splits)
  with run_data.IH read_ok [OF run_data.prems(1)] show ?case by auto
qed

text \<open>No call of \<open>decode\<close> runs forever.\<close>

lemma decode_returns:
  assumes "good r"
  shows "\<exists>res. decode rd d r = Some res"
proof (cases "dec_kind d")
  case (DChunked st sz)
  from chunked_loop_returns [OF assms, of st sz] obtain st' sz' r' p
    where "chunked_loop rd st sz r = Some (st', sz', r', p)" by (metis surj_pair)
  with DChunked show ?thesis by (simp add: decode_def)
qed (auto simp: decode_def Let_def split: res_splits)

end

text \<open>The reader over a byte slice obeys the laws and is never pending.\<close>

interpretation slice_reader: mem_stream slice_read_mem "\<lambda>s. s" "\<lambda>_. True"
  by unfold_locales (auto simp: slice_read_mem_def Let_def min_def split: if_splits)

text \<open>An empty slice means the end of the body, whatever the reader does.\<close>

lemma chunked_loop_empty:
  assumes "chunked_loop rd st sz r = Some (st', sz', r', res)"
  shows "res = Ready (Ok []) \<longrightarrow> st' = CEnd"
proof -
  have "case (st', sz', r', res) of (st', sz', r', res) \<Rightarrow> res = Ready (Ok []) \<longrightarrow> st' = CEnd"
  proof (rule chunked_loop.raw_induct [where P = "\<lambda>rd st sz r (st', sz', r', res). res = Ready (Ok []) \<longrightarrow> st' = CEnd", OF _ assms])
    fix loop :: "'a mem_reader \<Rightarrow> chunked_state \<Rightarrow> u64 \<Rightarrow> 'a
        \<Rightarrow> (chunked_state \<times> u64 \<times> 'a \<times> (io_error + bytes) poll) option"
      and rd st sz r y
    assume IH: "\<And>rd st sz r y. loop rd st sz r = Some y \<Longrightarrow>
        case y of (st', sz', r', res) \<Rightarrow> res = Ready (Ok []) \<longrightarrow> st' = CEnd"
      and eq: "(case step rd st r sz of
        (r', sz', buf, Pending) \<Rightarrow> Some (st, sz', r', Pending)
      | (r', sz', buf, Ready (Err e)) \<Rightarrow> Some (st, sz', r', Ready (Err e))
      | (r', sz', buf, Ready (Ok state')) \<Rightarrow>
          (if state' = CEnd then Some (state', sz', r', Ready (Ok []))
           else case buf of
                  Some b \<Rightarrow> Some (state', sz', r', Ready (Ok b))
                | None \<Rightarrow> loop rd state' sz' r')) = Some y"
    have "step rd st r sz = (r', sz', Some b, p) \<Longrightarrow> b \<noteq> []" for r' sz' b p
      by (cases st) (auto simp: plain_step_def read_body_def Let_def split: res_splits)
    with eq IH show "case y of (st', sz', r', res) \<Rightarrow> res = Ready (Ok []) \<longrightarrow> st' = CEnd"
      by (fastforce split: res_splits)
  qed
  then show ?thesis by simp
qed

lemma decode_empty_eof:
  assumes "decode rd d r = Some (d', r', Ready (Ok []))"
  shows "decoder_is_eof d'"
proof (cases "dec_kind d")
  case (DChunked st sz)
  with assms obtain st' sz' where "chunked_loop rd st sz r = Some (st', sz', r', Ready (Ok []))"
    and "d' = d\<lparr>dec_kind := DChunked st' sz'\<rparr>"
    by (auto simp: decode_def)
  with chunked_loop_empty show ?thesis by (fastforce simp: decoder_is_eof_def)
qed (use assms in \<open>auto simp: decode_def decoder_is_eof_def Let_def split: res_splits\<close>)

section \<open>Properties\<close>

text \<open>C17: When \<open>decode\<close> returns an empty slice the decoder has reached the end of the body, for
  every kind of decoder and every reader: the branch of \<open>Conn::poll_read_body\<close> that reports an
  unexpectedly ended body is dead code.\<close>

theorem decode_empty_is_eof:
  assumes "decode rd d r = Some (d', r', Ready (Ok []))"
  shows "decoder_is_eof d'"
  using assms by (rule decode_empty_eof)

lemmas decode_eval =
  decode_def chunked_loop.simps decoder_chunked_def decoder_length_def slice_read_mem_def read_size_def
  with_byte_def plain_step_def size_byte_def add_digit_def checked_mul_def checked_add_def CR_def LF_def
  size_lf_byte_def end_cr_byte_def end_lf_byte_def body_cr_byte_def body_lf_byte_def read_body_def
  usize_max_def

theorem decode_empty_is_eof_witness:
  "decoder_is_eof \<lparr>dec_kind = DChunked CEnd 0\<rparr>"
proof (rule decode_empty_is_eof [of slice_read_mem decoder_chunked "[48, 13, 10, 13, 10]" _ "[]"])
  show "decode slice_read_mem decoder_chunked [48, 13, 10, 13, 10] =
      Some (\<lparr>dec_kind = DChunked CEnd 0\<rparr>, [], Ready (Ok []))"
    by (simp add: decode_eval)
qed

end
