(* ===== verification/Buf.thy ===== *)
theory Buf
  imports Prelude
begin

text \<open>
  The buffer abstraction and the queue of buffers (\<^verbatim>\<open>src/src/common/buf.rs\<close>).

  The trait \<open>Buf\<close> of the \<open>bytes\<close> crate is a record of operations. Its documented contract is the
  locale \<open>buf_laws\<close>: \<open>content\<close> are the unread bytes, \<open>ok\<close> the invariant of the representation.
  \<open>BufList\<close> is proved to be such a buffer whenever its elements are, with the invariant that no
  queued buffer is exhausted. The scatter view \<open>chunks_vectored\<close> of an element is the separate
  argument \<open>vec\<close>, a function from a buffer and a number of slots to the slices written there.
\<close>

section \<open>The trait\<close>

record 'b buf_ops =
  b_remaining :: "'b \<Rightarrow> nat"
  b_chunk :: "'b \<Rightarrow> bytes"
  b_advance :: "'b \<Rightarrow> nat \<Rightarrow> 'b option"

locale buf_laws =
  fixes B :: "'b buf_ops"
    and content :: "'b \<Rightarrow> bytes"
    and ok :: "'b \<Rightarrow> bool"
  assumes remaining: "ok b \<Longrightarrow> b_remaining B b = length (content b)"
    and chunk_prefix: "ok b \<Longrightarrow> \<exists>rest. content b = b_chunk B b @ rest"
    and chunk_nonempty: "ok b \<Longrightarrow> content b \<noteq> [] \<Longrightarrow> b_chunk B b \<noteq> []"
    and advance: "ok b \<Longrightarrow> n \<le> length (content b) \<Longrightarrow>
      \<exists>b'. b_advance B b n = Some b' \<and> content b' = drop n (content b) \<and> ok b'"

text \<open>
  What the code needs of a scatter view: at most \<open>n\<close> slices, which are a prefix of the unread
  bytes, and all of the unread bytes unless the slots run out.
\<close>

definition vec_ok :: "('b \<Rightarrow> nat \<Rightarrow> bytes list) \<Rightarrow> ('b \<Rightarrow> bytes) \<Rightarrow> bool" where
  "vec_ok vec content \<longleftrightarrow>
     (\<forall>b n. length (vec b n) \<le> n \<and> [] \<notin> set (vec b n) \<and>
            (\<exists>rest. content b = concat (vec b n) @ rest \<and> (rest = [] \<or> length (vec b n) = n)))"

lemma vec_okD:
  assumes "vec_ok vec content"
  shows "length (vec b n) \<le> n" "[] \<notin> set (vec b n)"
    "\<exists>rest. content b = concat (vec b n) @ rest \<and> (rest = [] \<or> length (vec b n) = n)"
  using assms unfolding vec_ok_def by blast+

section \<open>BufList\<close>

record 'b buf_list = bufs :: "'b list"

definition buf_list_new :: "'b buf_list" where
  "buf_list_new = \<lparr>bufs = []\<rparr>"

definition buf_list_push :: "'b buf_list \<Rightarrow> 'b \<Rightarrow> 'b buf_list" where
  "buf_list_push l b = l\<lparr>bufs := bufs l @ [b]\<rparr>"

definition bufs_cnt :: "'b buf_list \<Rightarrow> nat" where
  "bufs_cnt l = length (bufs l)"

definition buf_list_remaining :: "'b buf_ops \<Rightarrow> 'b buf_list \<Rightarrow> nat" where
  "buf_list_remaining B l = sum_list (map (b_remaining B) (bufs l))"

definition buf_list_chunk :: "'b buf_ops \<Rightarrow> 'b buf_list \<Rightarrow> bytes" where
  "buf_list_chunk B l = (case bufs l of [] \<Rightarrow> [] | front # _ \<Rightarrow> b_chunk B front)"

text \<open>The loop of \<open>advance\<close>; indexing an empty queue panics.\<close>

fun advance_loop :: "'b buf_ops \<Rightarrow> 'b list \<Rightarrow> nat \<Rightarrow> 'b list option" where
  "advance_loop B [] cnt = (if cnt > 0 then None else Some [])"
| "advance_loop B (front # rest) cnt =
     (if cnt > 0 then
        (let rem = b_remaining B front
         in if rem > cnt then do { front \<leftarrow> b_advance B front cnt; Some (front # rest) }
            else do { _ \<leftarrow> b_advance B front rem; advance_loop B rest (cnt - rem) })
      else Some (front # rest))"

definition buf_list_advance :: "'b buf_ops \<Rightarrow> 'b buf_list \<Rightarrow> nat \<Rightarrow> 'b buf_list option" where
  "buf_list_advance B l cnt = map_option (\<lambda>bs. l\<lparr>bufs := bs\<rparr>) (advance_loop B (bufs l) cnt)"

text \<open>The loop of \<open>chunks_vectored\<close> over \<open>n\<close> slots; \<open>dst\<close> are the slices written so far.\<close>

fun vectored_loop :: "('b \<Rightarrow> nat \<Rightarrow> bytes list) \<Rightarrow> nat \<Rightarrow> bytes list \<Rightarrow> 'b list \<Rightarrow> bytes list" where
  "vectored_loop vec n dst [] = dst"
| "vectored_loop vec n dst (b # bs) =
     (let dst' = dst @ vec b (n - length dst)
      in if length dst' = n then dst' else vectored_loop vec n dst' bs)"

definition buf_list_chunks_vectored ::
    "('b \<Rightarrow> nat \<Rightarrow> bytes list) \<Rightarrow> 'b buf_list \<Rightarrow> nat \<Rightarrow> bytes list" where
  "buf_list_chunks_vectored vec l n = (if n = 0 then [] else vectored_loop vec n [] (bufs l))"

text \<open>
  \<open>copy_to_bytes\<close>. The element's own method is \<open>copy\<close>; \<open>put_take l len\<close> stands for
  \<open>bm.put(self.take(len))\<close>, which moves \<open>len\<close> bytes out of the queue.
\<close>

definition buf_list_copy_to_bytes ::
    "'b buf_ops \<Rightarrow> ('b \<Rightarrow> nat \<Rightarrow> bytes \<times> 'b) \<Rightarrow> ('b buf_list \<Rightarrow> nat \<Rightarrow> bytes \<times> 'b buf_list)
     \<Rightarrow> 'b buf_list \<Rightarrow> nat \<Rightarrow> (bytes \<times> 'b buf_list) option" where
  "buf_list_copy_to_bytes B copy put_take l len =
     (case bufs l of
        front # rest \<Rightarrow>
          (if b_remaining B front = len then Some (fst (copy front len), l\<lparr>bufs := rest\<rparr>)
           else if b_remaining B front > len then
             (case copy front len of (b, front') \<Rightarrow> Some (b, l\<lparr>bufs := front' # rest\<rparr>))
           else if len \<le> buf_list_remaining B l then Some (put_take l len) else None)
      | [] \<Rightarrow> (if len \<le> buf_list_remaining B l then Some (put_take l len) else None))"

definition buf_list_ops :: "'b buf_ops \<Rightarrow> 'b buf_list buf_ops" where
  "buf_list_ops B =
     \<lparr>b_remaining = buf_list_remaining B, b_chunk = buf_list_chunk B, b_advance = buf_list_advance B\<rparr>"

section \<open>BufList is a buffer\<close>

definition list_content :: "('b \<Rightarrow> bytes) \<Rightarrow> 'b buf_list \<Rightarrow> bytes" where
  "list_content content l = concat (map content (bufs l))"

text \<open>No queued buffer is exhausted.\<close>

definition list_inv :: "('b \<Rightarrow> bytes) \<Rightarrow> ('b \<Rightarrow> bool) \<Rightarrow> 'b buf_list \<Rightarrow> bool" where
  "list_inv content ok l \<longleftrightarrow> (\<forall>b \<in> set (bufs l). ok b \<and> content b \<noteq> [])"

lemma list_content_push: "list_content content (buf_list_push l b) = list_content content l @ content b"
  by (simp add: list_content_def buf_list_push_def)

lemma list_inv_push:
  "list_inv content ok l \<Longrightarrow> ok b \<Longrightarrow> content b \<noteq> [] \<Longrightarrow> list_inv content ok (buf_list_push l b)"
  by (auto simp: list_inv_def buf_list_push_def)

context buf_laws
begin

lemma remaining_list: "list_inv content ok l \<Longrightarrow> buf_list_remaining B l = length (list_content content l)"
  by (auto simp: buf_list_remaining_def list_content_def list_inv_def length_concat remaining comp_def
      intro!: arg_cong [of _ _ sum_list])

lemma advance_loop_ok:
  assumes "\<forall>b \<in> set bs. ok b \<and> content b \<noteq> []" "n \<le> length (concat (map content bs))"
  shows "\<exists>bs'. advance_loop B bs n = Some bs' \<and>
      concat (map content bs') = drop n (concat (map content bs)) \<and>
      (\<forall>b \<in> set bs'. ok b \<and> content b \<noteq> [])"
  using assms
proof (induction bs arbitrary: n)
  case Nil
  then show ?case by simp
next
  case (Cons f fs)
  then have f: "ok f" "content f \<noteq> []" and rem: "b_remaining B f = length (content f)"
    by (simp_all add: remaining)
  show ?case
  proof (cases "length (content f) > n")
    case True
    with advance [OF f(1), of n] obtain f' where "b_advance B f n = Some f'"
      "content f' = drop n (content f)" "ok f'" by auto
    with True rem Cons.prems show ?thesis by (auto simp: Let_def)
  next
    case False
    with advance [OF f(1), of "length (content f)"] obtain f' where
      "b_advance B f (length (content f)) = Some f'" by auto
    moreover have "0 < n" using False f(2) by (cases "content f") auto
    ultimately show ?thesis using False rem f(2) Cons.IH [of "n - length (content f)"] Cons.prems
      by (auto simp: Let_def)
  qed
qed

lemma buf_list_laws: "buf_laws (buf_list_ops B) (list_content content) (list_inv content ok)"
proof
  fix l n assume l: "list_inv content ok l"
  show "b_remaining (buf_list_ops B) l = length (list_content content l)"
    using l by (simp add: buf_list_ops_def remaining_list)
  show "\<exists>rest. list_content content l = b_chunk (buf_list_ops B) l @ rest"
    using l chunk_prefix
    by (cases "bufs l") (fastforce simp: buf_list_ops_def buf_list_chunk_def list_content_def list_inv_def)+
  show "list_content content l \<noteq> [] \<Longrightarrow> b_chunk (buf_list_ops B) l \<noteq> []"
    using l chunk_nonempty
    by (cases "bufs l") (auto simp: buf_list_ops_def buf_list_chunk_def list_content_def list_inv_def)
  assume "n \<le> length (list_content content l)"
  with l advance_loop_ok [of "bufs l" n]
  show "\<exists>l'. b_advance (buf_list_ops B) l n = Some l' \<and>
      list_content content l' = drop n (list_content content l) \<and> list_inv content ok l'"
    by (auto simp: buf_list_ops_def buf_list_advance_def list_content_def list_inv_def)
qed

text \<open>Advancing past the end of the queue panics.\<close>

lemma advance_loop_overrun:
  assumes "\<forall>b \<in> set bs. ok b \<and> content b \<noteq> []" "length (concat (map content bs)) < n"
  shows "advance_loop B bs n = None"
  using assms
proof (induction bs arbitrary: n)
  case (Cons f fs)
  then have "b_remaining B f = length (content f)" by (simp add: remaining)
  with Cons show ?case by (auto simp: Let_def bind_eq_None_conv)
qed simp

end

lemma vectored_loop_ok:
  assumes "vec_ok vec content" "length dst \<le> n" "[] \<notin> set dst"
  shows "length (vectored_loop vec n dst bs) \<le> n \<and> [] \<notin> set (vectored_loop vec n dst bs) \<and>
    (\<exists>rest. concat dst @ concat (map content bs) = concat (vectored_loop vec n dst bs) @ rest \<and>
            (rest = [] \<or> length (vectored_loop vec n dst bs) = n))"
  using assms(2,3)
proof (induction bs arbitrary: dst)
  case Nil
  then show ?case by simp
next
  case (Cons b bs)
  let ?dst = "dst @ vec b (n - length dst)"
  note v = vec_okD [OF assms(1), of b "n - length dst"]
  from v(3) obtain rest where rest: "content b = concat (vec b (n - length dst)) @ rest"
    and full: "rest = [] \<or> length (vec b (n - length dst)) = n - length dst" by blast
  show ?case
  proof (cases "length ?dst = n")
    case True
    with v(2) rest Cons.prems show ?thesis by (auto simp: Let_def)
  next
    case False
    with full Cons.prems have "rest = []" by auto
    moreover have "length ?dst \<le> n" using v(1) Cons.prems(1) by simp
    ultimately show ?thesis using Cons.IH [of ?dst] False rest v(2) Cons.prems(2) by (simp add: Let_def)
  qed
qed

lemma buf_list_vec_ok:
  assumes "vec_ok vec content"
  shows "vec_ok (buf_list_chunks_vectored vec) (list_content content)"
  using vectored_loop_ok [OF assms, of "[]"]
  by (auto simp: vec_ok_def buf_list_chunks_vectored_def list_content_def)

end
