(* ===== verification/Write_Buf.thy ===== *)
theory Write_Buf
  imports Buf
begin

text \<open>
  The write side of the buffered transport (\<^verbatim>\<open>src/src/proto/h1/io.rs\<close>): the cursor over the
  headers vector and \<open>WriteBuf\<close>, which either flattens every buffer into the headers or queues
  the buffers behind them. \<open>cap\<close> is the capacity that the allocator gave to the headers vector;
  it only decides whether already written bytes are shifted out first.
\<close>

definition INIT_BUFFER_SIZE :: nat where "INIT_BUFFER_SIZE = 8192"
definition MINIMUM_MAX_BUFFER_SIZE :: nat where "MINIMUM_MAX_BUFFER_SIZE = INIT_BUFFER_SIZE"
definition DEFAULT_MAX_BUFFER_SIZE :: nat where "DEFAULT_MAX_BUFFER_SIZE = 8192 + 4096 * 100"
definition MAX_BUF_LIST_BUFFERS :: nat where "MAX_BUF_LIST_BUFFERS = 16"

section \<open>Cursor\<close>

record cursor =
  cur_bytes :: bytes
  cur_pos :: nat

definition cursor_new :: "bytes \<Rightarrow> cursor" where
  "cursor_new bs = \<lparr>cur_bytes = bs, cur_pos = 0\<rparr>"

definition maybe_unshift :: "(bytes \<Rightarrow> nat) \<Rightarrow> cursor \<Rightarrow> nat \<Rightarrow> cursor" where
  "maybe_unshift cap c additional =
     (if cur_pos c = 0 then c
      else if cap (cur_bytes c) - length (cur_bytes c) \<ge> additional then c
      else c\<lparr>cur_bytes := drop (cur_pos c) (cur_bytes c), cur_pos := 0\<rparr>)"

definition cursor_reset :: "cursor \<Rightarrow> cursor" where
  "cursor_reset c = c\<lparr>cur_pos := 0, cur_bytes := []\<rparr>"

definition cursor_remaining :: "cursor \<Rightarrow> nat" where
  "cursor_remaining c = length (cur_bytes c) - cur_pos c"

definition cursor_chunk :: "cursor \<Rightarrow> bytes" where
  "cursor_chunk c = drop (cur_pos c) (cur_bytes c)"

definition cursor_advance :: "cursor \<Rightarrow> nat \<Rightarrow> cursor" where
  "cursor_advance c cnt = c\<lparr>cur_pos := cur_pos c + cnt\<rparr>"

definition cursor_extend :: "cursor \<Rightarrow> bytes \<Rightarrow> cursor" where
  "cursor_extend c bs = c\<lparr>cur_bytes := cur_bytes c @ bs\<rparr>"

definition cursor_ops :: "cursor buf_ops" where
  "cursor_ops =
     \<lparr>b_remaining = cursor_remaining, b_chunk = cursor_chunk,
      b_advance = (\<lambda>c n. Some (cursor_advance c n))\<rparr>"

definition cursor_ok :: "cursor \<Rightarrow> bool" where
  "cursor_ok c \<longleftrightarrow> cur_pos c \<le> length (cur_bytes c)"

lemmas cursor_defs [hyper_defs] =
  cursor_new_def cursor_reset_def cursor_remaining_def cursor_chunk_def cursor_advance_def
  cursor_extend_def cursor_ok_def

interpretation cursor_buf: buf_laws cursor_ops cursor_chunk cursor_ok
  by unfold_locales (auto simp: cursor_ops_def cursor_defs add.commute)

lemma maybe_unshift_chunk [simp]: "cursor_chunk (maybe_unshift cap c n) = cursor_chunk c"
  by (simp add: maybe_unshift_def cursor_chunk_def)

lemma maybe_unshift_ok [simp]: "cursor_ok c \<Longrightarrow> cursor_ok (maybe_unshift cap c n)"
  by (simp add: maybe_unshift_def cursor_ok_def)

lemma cursor_extend_chunk [simp]: "cursor_ok c \<Longrightarrow> cursor_chunk (cursor_extend c bs) = cursor_chunk c @ bs"
  by (simp add: cursor_defs)

lemma cursor_extend_ok [simp]: "cursor_ok c \<Longrightarrow> cursor_ok (cursor_extend c bs)"
  by (simp add: cursor_defs)

section \<open>WriteBuf\<close>

datatype write_strategy = Flatten | Queue

record 'b write_buf =
  wb_headers :: cursor
  wb_max_buf_size :: nat
  wb_queue :: "'b buf_list"
  wb_strategy :: write_strategy

definition write_buf_new :: "write_strategy \<Rightarrow> 'b write_buf" where
  "write_buf_new strategy =
     \<lparr>wb_headers = cursor_new [], wb_max_buf_size = DEFAULT_MAX_BUFFER_SIZE,
      wb_queue = buf_list_new, wb_strategy = strategy\<rparr>"

definition set_strategy :: "'b write_buf \<Rightarrow> write_strategy \<Rightarrow> 'b write_buf" where
  "set_strategy w strategy = w\<lparr>wb_strategy := strategy\<rparr>"

text \<open>The copying loop of the flatten strategy.\<close>

partial_function (option) flatten_loop :: "'bb buf_ops \<Rightarrow> cursor \<Rightarrow> 'bb \<Rightarrow> cursor option" where
  "flatten_loop BB head buf =
     (let chunk = b_chunk BB buf
      in if chunk = [] then Some head
         else do { buf \<leftarrow> b_advance BB buf (length chunk);
                   flatten_loop BB (cursor_extend head chunk) buf })"

declare flatten_loop.simps [code]

text \<open>\<open>WriteBuf::buffer\<close> for a buffer type with operations \<open>BB\<close> and conversion \<open>into\<close>.\<close>

definition write_buf_buffer ::
    "(bytes \<Rightarrow> nat) \<Rightarrow> 'bb buf_ops \<Rightarrow> ('bb \<Rightarrow> 'b) \<Rightarrow> 'b write_buf \<Rightarrow> 'bb \<Rightarrow> 'b write_buf option" where
  "write_buf_buffer cap BB into w buf =
     (case wb_strategy w of
        Flatten \<Rightarrow>
          map_option (\<lambda>head. w\<lparr>wb_headers := head\<rparr>)
            (flatten_loop BB (maybe_unshift cap (wb_headers w) (b_remaining BB buf)) buf)
      | Queue \<Rightarrow> Some (w\<lparr>wb_queue := buf_list_push (wb_queue w) (into buf)\<rparr>))"

definition write_buf_remaining :: "'b buf_ops \<Rightarrow> 'b write_buf \<Rightarrow> nat" where
  "write_buf_remaining B w = cursor_remaining (wb_headers w) + buf_list_remaining B (wb_queue w)"

definition write_buf_can_buffer :: "'b buf_ops \<Rightarrow> 'b write_buf \<Rightarrow> bool" where
  "write_buf_can_buffer B w =
     (case wb_strategy w of
        Flatten \<Rightarrow> write_buf_remaining B w < wb_max_buf_size w
      | Queue \<Rightarrow> bufs_cnt (wb_queue w) < MAX_BUF_LIST_BUFFERS \<and>
                write_buf_remaining B w < wb_max_buf_size w)"

definition write_buf_chunk :: "'b buf_ops \<Rightarrow> 'b write_buf \<Rightarrow> bytes" where
  "write_buf_chunk B w =
     (let hs = cursor_chunk (wb_headers w)
      in if hs \<noteq> [] then hs else buf_list_chunk B (wb_queue w))"

definition write_buf_advance :: "'b buf_ops \<Rightarrow> 'b write_buf \<Rightarrow> nat \<Rightarrow> 'b write_buf option" where
  "write_buf_advance B w cnt =
     (let hrem = cursor_remaining (wb_headers w)
      in if hrem = cnt then Some (w\<lparr>wb_headers := cursor_reset (wb_headers w)\<rparr>)
         else if hrem > cnt then Some (w\<lparr>wb_headers := cursor_advance (wb_headers w) cnt\<rparr>)
         else map_option (\<lambda>q. w\<lparr>wb_headers := cursor_reset (wb_headers w), wb_queue := q\<rparr>)
                (buf_list_advance B (wb_queue w) (cnt - hrem)))"

text \<open>\<open>cvec\<close> is the scatter view of the cursor, which it inherits from the trait.\<close>

definition write_buf_chunks_vectored ::
    "(cursor \<Rightarrow> nat \<Rightarrow> bytes list) \<Rightarrow> ('b \<Rightarrow> nat \<Rightarrow> bytes list) \<Rightarrow> 'b write_buf \<Rightarrow> nat \<Rightarrow> bytes list" where
  "write_buf_chunks_vectored cvec vec w n =
     (let hs = cvec (wb_headers w) n
      in hs @ buf_list_chunks_vectored vec (wb_queue w) (n - length hs))"

definition write_buf_ops :: "'b buf_ops \<Rightarrow> 'b write_buf buf_ops" where
  "write_buf_ops B =
     \<lparr>b_remaining = write_buf_remaining B, b_chunk = write_buf_chunk B, b_advance = write_buf_advance B\<rparr>"

section \<open>WriteBuf is a buffer, and buffering appends\<close>

definition wb_content :: "('b \<Rightarrow> bytes) \<Rightarrow> 'b write_buf \<Rightarrow> bytes" where
  "wb_content content w = cursor_chunk (wb_headers w) @ list_content content (wb_queue w)"

text \<open>A flattening buffer never has anything in its queue.\<close>

definition wb_ok :: "('b \<Rightarrow> bytes) \<Rightarrow> ('b \<Rightarrow> bool) \<Rightarrow> 'b write_buf \<Rightarrow> bool" where
  "wb_ok content ok w \<longleftrightarrow>
     cursor_ok (wb_headers w) \<and> list_inv content ok (wb_queue w) \<and>
     (wb_strategy w = Flatten \<longrightarrow> bufs (wb_queue w) = [])"

lemma wb_new [simp]: "wb_ok content ok (write_buf_new s)" "wb_content content (write_buf_new s) = []"
  by (simp_all add: wb_ok_def wb_content_def write_buf_new_def buf_list_new_def list_inv_def
      list_content_def cursor_defs)

context buf_laws
begin

text \<open>The copying loop ends and appends exactly the unread bytes.\<close>

lemma flatten_loop_ok:
  assumes "ok b" "cursor_ok head"
  shows "\<exists>head'. flatten_loop B head b = Some head' \<and> cursor_ok head' \<and>
      cursor_chunk head' = cursor_chunk head @ content b"
  using assms
proof (induction "length (content b)" arbitrary: b head rule: less_induct)
  case less
  show ?case
  proof (cases "b_chunk B b = []")
    case True
    with chunk_nonempty [OF less.prems(1)] less.prems(2) show ?thesis
      by (subst flatten_loop.simps) auto
  next
    case False
    from chunk_prefix [OF less.prems(1)] obtain rest where rest: "content b = b_chunk B b @ rest" by blast
    with advance [OF less.prems(1), of "length (b_chunk B b)"] obtain b' where
      b': "b_advance B b (length (b_chunk B b)) = Some b'" "content b' = rest" "ok b'" by auto
    have "length (content b') < length (content b)" using False rest b'(2) by simp
    from less.hyps [OF this b'(3), of "cursor_extend head (b_chunk B b)"] less.prems(2) b'
    obtain head' where "flatten_loop B (cursor_extend head (b_chunk B b)) b' = Some head'"
      "cursor_ok head'" "cursor_chunk head' = cursor_chunk head @ b_chunk B b @ rest" by auto
    with False b'(1) rest show ?thesis by (subst flatten_loop.simps) (simp add: Let_def)
  qed
qed

lemmas list_laws =
  buf_laws.remaining [OF buf_list_laws, unfolded buf_list_ops_def, simplified]
  buf_laws.chunk_prefix [OF buf_list_laws, unfolded buf_list_ops_def, simplified]
  buf_laws.chunk_nonempty [OF buf_list_laws, unfolded buf_list_ops_def, simplified]
  buf_laws.advance [OF buf_list_laws, unfolded buf_list_ops_def, simplified]

lemma write_buf_advance_ok:
  assumes "wb_ok content ok w" "n \<le> length (wb_content content w)"
  shows "\<exists>w'. write_buf_advance B w n = Some w' \<and>
      wb_content content w' = drop n (wb_content content w) \<and> wb_ok content ok w'"
proof (cases "n \<le> cursor_remaining (wb_headers w)")
  case True
  with assms show ?thesis
    by (auto simp: write_buf_advance_def Let_def wb_content_def wb_ok_def cursor_defs add.commute)
next
  case False
  let ?h = "cursor_remaining (wb_headers w)"
  have h: "length (cursor_chunk (wb_headers w)) = ?h" by (simp add: cursor_defs)
  from assms False h have "n - ?h \<le> length (list_content content (wb_queue w))"
    by (simp add: wb_content_def)
  with list_laws(4) [of "wb_queue w" "n - ?h"] assms(1) obtain q where
    q: "buf_list_advance B (wb_queue w) (n - ?h) = Some q"
      "list_content content q = drop (n - ?h) (list_content content (wb_queue w))"
      "list_inv content ok q" by (auto simp: wb_ok_def)
  have "wb_strategy w = Flatten \<Longrightarrow> bufs q = []"
    using q(1) assms(1) False by (auto simp: wb_ok_def buf_list_advance_def split: if_splits)
  with q False assms(1) h show ?thesis
    by (auto simp: write_buf_advance_def Let_def wb_content_def wb_ok_def cursor_defs)
qed

lemma write_buf_laws: "buf_laws (write_buf_ops B) (wb_content content) (wb_ok content ok)"
proof
  fix w n assume w: "wb_ok content ok w"
  then have q: "list_inv content ok (wb_queue w)" by (simp add: wb_ok_def)
  show "b_remaining (write_buf_ops B) w = length (wb_content content w)"
    by (simp add: write_buf_ops_def write_buf_remaining_def wb_content_def list_laws(1) [OF q] cursor_defs)
  show "\<exists>rest. wb_content content w = b_chunk (write_buf_ops B) w @ rest"
    using list_laws(2) [OF q] by (auto simp: write_buf_ops_def write_buf_chunk_def wb_content_def Let_def)
  show "wb_content content w \<noteq> [] \<Longrightarrow> b_chunk (write_buf_ops B) w \<noteq> []"
    using list_laws(3) [OF q] by (auto simp: write_buf_ops_def write_buf_chunk_def wb_content_def Let_def)
  show "n \<le> length (wb_content content w) \<Longrightarrow>
      \<exists>w'. b_advance (write_buf_ops B) w n = Some w' \<and>
        wb_content content w' = drop n (wb_content content w) \<and> wb_ok content ok w'"
    using write_buf_advance_ok [OF w] by (simp add: write_buf_ops_def)
qed

lemma write_buf_remaining_eq:
  "wb_ok content ok w \<Longrightarrow> write_buf_remaining B w = length (wb_content content w)"
  using buf_laws.remaining [OF write_buf_laws] by (simp add: write_buf_ops_def)

end

text \<open>
  Buffering appends the unread bytes under either strategy, provided that the converted buffer
  holds the same bytes.
\<close>

lemma write_buf_buffer_ok:
  assumes "buf_laws BB bcontent bok" "wb_ok content ok w" "bok b" "bcontent b \<noteq> []"
    and "content (into b) = bcontent b" "ok (into b)"
  shows "\<exists>w'. write_buf_buffer cap BB into w b = Some w' \<and> wb_ok content ok w' \<and>
      wb_content content w' = wb_content content w @ bcontent b \<and> wb_strategy w' = wb_strategy w"
proof (cases "wb_strategy w")
  case Flatten
  let ?h = "maybe_unshift cap (wb_headers w) (b_remaining BB b)"
  have "cursor_ok ?h" using assms(2) by (simp add: wb_ok_def)
  from buf_laws.flatten_loop_ok [OF assms(1,3) this] obtain h where
    "flatten_loop BB ?h b = Some h" "cursor_ok h" "cursor_chunk h = cursor_chunk (wb_headers w) @ bcontent b"
    by auto
  with Flatten assms(2) show ?thesis
    by (auto simp: write_buf_buffer_def wb_ok_def wb_content_def list_content_def)
next
  case Queue
  with assms show ?thesis
    by (auto simp: write_buf_buffer_def wb_ok_def wb_content_def list_content_push intro!: list_inv_push)
qed

lemma write_buf_vec_ok:
  assumes "vec_ok cvec cursor_chunk" "vec_ok vec content"
  shows "vec_ok (write_buf_chunks_vectored cvec vec) (wb_content content)"
  unfolding vec_ok_def
proof (intro allI)
  fix w :: "'a write_buf" and n
  let ?hs = "cvec (wb_headers w) n"
  let ?qs = "buf_list_chunks_vectored vec (wb_queue w) (n - length ?hs)"
  note c = vec_okD [OF assms(1), of "wb_headers w" n]
  note q = vec_okD [OF buf_list_vec_ok [OF assms(2)], of "wb_queue w" "n - length ?hs"]
  have v: "write_buf_chunks_vectored cvec vec w n = ?hs @ ?qs"
    by (simp add: write_buf_chunks_vectored_def Let_def)
  from c(3) obtain rest where rest: "cursor_chunk (wb_headers w) = concat ?hs @ rest"
    and full: "rest = [] \<or> length ?hs = n" by blast
  show "length (write_buf_chunks_vectored cvec vec w n) \<le> n \<and>
      [] \<notin> set (write_buf_chunks_vectored cvec vec w n) \<and>
      (\<exists>rest. wb_content content w = concat (write_buf_chunks_vectored cvec vec w n) @ rest \<and>
        (rest = [] \<or> length (write_buf_chunks_vectored cvec vec w n) = n))"
  proof (cases "length ?hs = n")
    case True
    with c rest v show ?thesis
      by (auto simp: wb_content_def buf_list_chunks_vectored_def)
  next
    case False
    with full rest have "wb_content content w = concat ?hs @ list_content content (wb_queue w)"
      by (simp add: wb_content_def)
    with q c v show ?thesis by auto
  qed
qed

end
