(* ===== verification/Encode.thy ===== *)
theory Encode
  imports Write_Buf
begin

text \<open>
  The body encoder of HTTP/1 (\<^verbatim>\<open>src/src/proto/h1/encode.rs\<close>). \<open>Take\<close> and \<open>Chain\<close> are buffers of
  the \<open>bytes\<close> crate: their operations and constructors are the fields of the record
  \<open>bytes_crate\<close>, with the operations of the user's buffer type \<open>B\<close>. Their documented behaviour is
  the named hypothesis \<open>bytes_ok\<close>.

  The chunk-size line always fits its fixed array, a length-delimited body is never longer than
  announced, and what each operation puts on the wire is stated for every branch.
\<close>

section \<open>ChunkSize\<close>

definition CHUNK_SIZE_MAX_BYTES :: nat where "CHUNK_SIZE_MAX_BYTES = 8 * 2"

record chunk_size =
  cs_bytes :: bytes
  cs_pos :: u8
  cs_len :: u8

text \<open>\<open>fmt::Write::write_str\<close>: slicing or writing past the array panics.\<close>

definition chunk_size_write_str :: "chunk_size \<Rightarrow> bytes \<Rightarrow> chunk_size option" where
  "chunk_size_write_str cs num =
     (let len = unat (cs_len cs)
      in if len + length num \<le> length (cs_bytes cs)
         then Some (cs\<lparr>cs_bytes := take len (cs_bytes cs) @ num @ drop (len + length num) (cs_bytes cs),
                       cs_len := cs_len cs + word_of_nat (length num)\<rparr>)
         else None)"

text \<open>\<open>write!(size, "{:X}\r\n", len)\<close> writes the digits and then the line end.\<close>

definition chunk_size_new :: "nat \<Rightarrow> chunk_size option" where
  "chunk_size_new len =
     do { cs \<leftarrow> chunk_size_write_str
            \<lparr>cs_bytes = replicate (CHUNK_SIZE_MAX_BYTES + 2) 0, cs_pos = 0, cs_len = 0\<rparr> (upper_hex len);
          chunk_size_write_str cs CRLF }"

definition chunk_size_remaining :: "chunk_size \<Rightarrow> nat" where
  "chunk_size_remaining cs = unat (cs_len cs - cs_pos cs)"

definition chunk_size_chunk :: "chunk_size \<Rightarrow> bytes" where
  "chunk_size_chunk cs =
     drop (unat (cs_pos cs)) (take (unat (cs_len cs)) (cs_bytes cs))"

definition chunk_size_advance :: "chunk_size \<Rightarrow> nat \<Rightarrow> chunk_size option" where
  "chunk_size_advance cs cnt =
     (if cnt \<le> chunk_size_remaining cs then Some (cs\<lparr>cs_pos := cs_pos cs + word_of_nat cnt\<rparr>) else None)"

definition chunk_size_ops :: "chunk_size buf_ops" where
  "chunk_size_ops =
     \<lparr>b_remaining = chunk_size_remaining, b_chunk = chunk_size_chunk, b_advance = chunk_size_advance\<rparr>"

definition chunk_size_ok :: "chunk_size \<Rightarrow> bool" where
  "chunk_size_ok cs \<longleftrightarrow>
     length (cs_bytes cs) = CHUNK_SIZE_MAX_BYTES + 2 \<and>
     unat (cs_pos cs) \<le> unat (cs_len cs) \<and> unat (cs_len cs) \<le> CHUNK_SIZE_MAX_BYTES + 2"

section \<open>EncodedBuf\<close>

record ('b, 'tk, 'ch) bytes_crate =
  buf_b :: "'b buf_ops"
  buf_take :: "'tk buf_ops"
  buf_chain :: "'ch buf_ops"
  mk_take :: "'b \<Rightarrow> nat \<Rightarrow> 'tk"
  mk_chain :: "chunk_size \<Rightarrow> 'b \<Rightarrow> bytes \<Rightarrow> 'ch"
  buf_static :: "bytes buf_ops"
  vec_b :: "'b \<Rightarrow> nat \<Rightarrow> bytes list"
  vec_take :: "'tk \<Rightarrow> nat \<Rightarrow> bytes list"
  vec_chain :: "'ch \<Rightarrow> nat \<Rightarrow> bytes list"
  vec_static :: "bytes \<Rightarrow> nat \<Rightarrow> bytes list"

datatype ('b, 'tk, 'ch) encoded_buf =
    BufExact 'b | BufLimited 'tk | BufChunked 'ch | BufChunkedEnd bytes

fun encoded_buf_remaining ::
    "('b, 'tk, 'ch, 'z) bytes_crate_scheme \<Rightarrow> ('b, 'tk, 'ch) encoded_buf \<Rightarrow> nat" where
  "encoded_buf_remaining X (BufExact b) = b_remaining (buf_b X) b"
| "encoded_buf_remaining X (BufLimited b) = b_remaining (buf_take X) b"
| "encoded_buf_remaining X (BufChunked b) = b_remaining (buf_chain X) b"
| "encoded_buf_remaining X (BufChunkedEnd b) = b_remaining (buf_static X) b"

fun encoded_buf_chunk ::
    "('b, 'tk, 'ch, 'z) bytes_crate_scheme \<Rightarrow> ('b, 'tk, 'ch) encoded_buf \<Rightarrow> bytes" where
  "encoded_buf_chunk X (BufExact b) = b_chunk (buf_b X) b"
| "encoded_buf_chunk X (BufLimited b) = b_chunk (buf_take X) b"
| "encoded_buf_chunk X (BufChunked b) = b_chunk (buf_chain X) b"
| "encoded_buf_chunk X (BufChunkedEnd b) = b_chunk (buf_static X) b"

fun encoded_buf_advance ::
    "('b, 'tk, 'ch, 'z) bytes_crate_scheme \<Rightarrow> ('b, 'tk, 'ch) encoded_buf \<Rightarrow> nat
     \<Rightarrow> ('b, 'tk, 'ch) encoded_buf option" where
  "encoded_buf_advance X (BufExact b) cnt = map_option BufExact (b_advance (buf_b X) b cnt)"
| "encoded_buf_advance X (BufLimited b) cnt = map_option BufLimited (b_advance (buf_take X) b cnt)"
| "encoded_buf_advance X (BufChunked b) cnt = map_option BufChunked (b_advance (buf_chain X) b cnt)"
| "encoded_buf_advance X (BufChunkedEnd b) cnt = map_option BufChunkedEnd (b_advance (buf_static X) b cnt)"

fun encoded_buf_chunks_vectored ::
    "('b, 'tk, 'ch, 'z) bytes_crate_scheme \<Rightarrow> ('b, 'tk, 'ch) encoded_buf \<Rightarrow> nat \<Rightarrow> bytes list" where
  "encoded_buf_chunks_vectored X (BufExact b) n = vec_b X b n"
| "encoded_buf_chunks_vectored X (BufLimited b) n = vec_take X b n"
| "encoded_buf_chunks_vectored X (BufChunked b) n = vec_chain X b n"
| "encoded_buf_chunks_vectored X (BufChunkedEnd b) n = vec_static X b n"

definition encoded_buf_ops ::
    "('b, 'tk, 'ch, 'z) bytes_crate_scheme \<Rightarrow> ('b, 'tk, 'ch) encoded_buf buf_ops" where
  "encoded_buf_ops X =
     \<lparr>b_remaining = encoded_buf_remaining X, b_chunk = encoded_buf_chunk X,
      b_advance = encoded_buf_advance X\<rparr>"

section \<open>Encoder\<close>

datatype encoder_kind = EChunked | ELength u64 | ECloseDelimited

record encoder =
  enc_kind :: encoder_kind
  enc_is_last :: bool

definition encoder_new :: "encoder_kind \<Rightarrow> encoder" where
  "encoder_new k = \<lparr>enc_kind = k, enc_is_last = False\<rparr>"

definition encoder_chunked :: encoder where "encoder_chunked = encoder_new EChunked"
definition encoder_length :: "u64 \<Rightarrow> encoder" where "encoder_length len = encoder_new (ELength len)"
definition encoder_close_delimited :: encoder where
  "encoder_close_delimited = encoder_new ECloseDelimited"

definition encoder_is_eof :: "encoder \<Rightarrow> bool" where
  "encoder_is_eof e \<longleftrightarrow> enc_kind e = ELength 0"

definition set_last :: "encoder \<Rightarrow> bool \<Rightarrow> encoder" where
  "set_last e is_last = e\<lparr>enc_is_last := is_last\<rparr>"

definition encoder_is_last :: "encoder \<Rightarrow> bool" where
  "encoder_is_last e = enc_is_last e"

definition is_close_delimited :: "encoder \<Rightarrow> bool" where
  "is_close_delimited e = (case enc_kind e of ECloseDelimited \<Rightarrow> True | _ \<Rightarrow> False)"

datatype not_eof = NotEof

definition encoder_end :: "encoder \<Rightarrow> not_eof + ('b, 'tk, 'ch) encoded_buf option" where
  "encoder_end e =
     (case enc_kind e of
        ELength n \<Rightarrow> (if n = 0 then Ok None else Err NotEof)
      | EChunked \<Rightarrow> Ok (Some (BufChunkedEnd (ascii ''0'' @ CRLF @ CRLF)))
      | ECloseDelimited \<Rightarrow> Ok None)"

text \<open>\<open>len as u64\<close> of a buffer length.\<close>

definition as_u64 :: "nat \<Rightarrow> u64" where "as_u64 n = word_of_nat n"

definition encode ::
    "('b, 'tk, 'ch, 'z) bytes_crate_scheme \<Rightarrow> encoder \<Rightarrow> 'b
     \<Rightarrow> (encoder \<times> ('b, 'tk, 'ch) encoded_buf) option" where
  "encode X e msg =
     (let len = b_remaining (buf_b X) msg
      in case enc_kind e of
           EChunked \<Rightarrow>
             map_option (\<lambda>cs. (e, BufChunked (mk_chain X cs msg CRLF))) (chunk_size_new len)
         | ELength remaining \<Rightarrow>
             Some (if as_u64 len > remaining
                   then (e\<lparr>enc_kind := ELength 0\<rparr>, BufLimited (mk_take X msg (unat remaining)))
                   else (e\<lparr>enc_kind := ELength (remaining - as_u64 len)\<rparr>, BufExact msg))
         | ECloseDelimited \<Rightarrow> Some (e, BufExact msg))"

text \<open>\<open>WriteBuf::buffer\<close> at the three types that convert into \<open>EncodedBuf\<close>.\<close>

definition buffer_exact where
  "buffer_exact cap X w msg = write_buf_buffer cap (buf_b X) BufExact w msg"

definition buffer_take where
  "buffer_take cap X w t = write_buf_buffer cap (buf_take X) BufLimited w t"

definition buffer_chain where
  "buffer_chain cap X w c = write_buf_buffer cap (buf_chain X) BufChunked w c"

definition encode_and_end ::
    "(bytes \<Rightarrow> nat) \<Rightarrow> ('b, 'tk, 'ch, 'z) bytes_crate_scheme \<Rightarrow> encoder \<Rightarrow> 'b
     \<Rightarrow> ('b, 'tk, 'ch) encoded_buf write_buf
     \<Rightarrow> (('b, 'tk, 'ch) encoded_buf write_buf \<times> bool) option" where
  "encode_and_end cap X e msg dst =
     (let len = b_remaining (buf_b X) msg
      in case enc_kind e of
           EChunked \<Rightarrow>
             do { cs \<leftarrow> chunk_size_new len;
                  dst \<leftarrow> buffer_chain cap X dst (mk_chain X cs msg (CRLF @ ascii ''0'' @ CRLF @ CRLF));
                  Some (dst, \<not> enc_is_last e) }
         | ELength remaining \<Rightarrow>
             (if as_u64 len = remaining then
                do { dst \<leftarrow> buffer_exact cap X dst msg; Some (dst, \<not> enc_is_last e) }
              else if as_u64 len > remaining then
                do { dst \<leftarrow> buffer_take cap X dst (mk_take X msg (unat remaining));
                     Some (dst, \<not> enc_is_last e) }
              else do { dst \<leftarrow> buffer_exact cap X dst msg; Some (dst, False) })
         | ECloseDelimited \<Rightarrow>
             do { dst \<leftarrow> buffer_exact cap X dst msg; Some (dst, False) })"

definition danger_full_buf ::
    "(bytes \<Rightarrow> nat) \<Rightarrow> ('b, 'tk, 'ch, 'z) bytes_crate_scheme \<Rightarrow> encoder \<Rightarrow> 'b
     \<Rightarrow> ('b, 'tk, 'ch) encoded_buf write_buf \<Rightarrow> ('b, 'tk, 'ch) encoded_buf write_buf option" where
  "danger_full_buf cap X e msg dst =
     (case enc_kind e of
        EChunked \<Rightarrow>
          do { cs \<leftarrow> chunk_size_new (b_remaining (buf_b X) msg);
               buffer_chain cap X dst (mk_chain X cs msg (CRLF @ ascii ''0'' @ CRLF @ CRLF)) }
      | _ \<Rightarrow> buffer_exact cap X dst msg)"

section \<open>The chunk-size line\<close>

lemma length_CRLF [simp]: "length CRLF = 2"
  by (simp add: CRLF_def)

lemma chunk_size_write_str_ok:
  assumes "length (cs_bytes cs) = 18" "unat (cs_len cs) + length num \<le> 18"
  shows "\<exists>cs'. chunk_size_write_str cs num = Some cs' \<and> length (cs_bytes cs') = 18 \<and>
      cs_pos cs' = cs_pos cs \<and> unat (cs_len cs') = unat (cs_len cs) + length num \<and>
      take (unat (cs_len cs')) (cs_bytes cs') = take (unat (cs_len cs)) (cs_bytes cs) @ num"
proof -
  have "unat (cs_len cs + word_of_nat (length num)) = unat (cs_len cs) + length num"
    using assms(2) by (simp add: unat_word_ariths unat_of_nat)
  then show ?thesis using assms by (simp add: chunk_size_write_str_def Let_def)
qed

lemma chunk_size_new_ok:
  assumes "n < 2 ^ 64"
  shows "\<exists>cs. chunk_size_new n = Some cs \<and> chunk_size_ok cs \<and>
      chunk_size_chunk cs = upper_hex n @ CRLF"
proof -
  have len: "length (upper_hex n) \<le> 16" using length_upper_hex [of n 15] assms by simp
  let ?cs0 = "\<lparr>cs_bytes = replicate (CHUNK_SIZE_MAX_BYTES + 2) 0, cs_pos = 0, cs_len = 0\<rparr> :: chunk_size"
  from chunk_size_write_str_ok [of ?cs0 "upper_hex n"] len obtain cs1 where
    cs1: "chunk_size_write_str ?cs0 (upper_hex n) = Some cs1" "length (cs_bytes cs1) = 18" "cs_pos cs1 = 0"
      "unat (cs_len cs1) = length (upper_hex n)" "take (unat (cs_len cs1)) (cs_bytes cs1) = upper_hex n"
    by (auto simp: CHUNK_SIZE_MAX_BYTES_def)
  from chunk_size_write_str_ok [of cs1 CRLF] cs1 len obtain cs where
    cs: "chunk_size_write_str cs1 CRLF = Some cs" "length (cs_bytes cs) = 18" "cs_pos cs = 0"
      "unat (cs_len cs) = length (upper_hex n) + 2" "take (unat (cs_len cs)) (cs_bytes cs) = upper_hex n @ CRLF"
    by auto
  with cs1 len show ?thesis
    by (auto simp: chunk_size_new_def chunk_size_ok_def chunk_size_chunk_def CHUNK_SIZE_MAX_BYTES_def)
qed

interpretation chunk_size_buf: buf_laws chunk_size_ops chunk_size_chunk chunk_size_ok
proof
  fix cs n assume ok: "chunk_size_ok cs"
  then have rem: "chunk_size_remaining cs = length (chunk_size_chunk cs)"
    by (simp add: chunk_size_remaining_def chunk_size_chunk_def chunk_size_ok_def unat_sub word_le_nat_alt)
  then show "b_remaining chunk_size_ops cs = length (chunk_size_chunk cs)"
    by (simp add: chunk_size_ops_def)
  show "\<exists>rest. chunk_size_chunk cs = b_chunk chunk_size_ops cs @ rest"
    "chunk_size_chunk cs \<noteq> [] \<Longrightarrow> b_chunk chunk_size_ops cs \<noteq> []"
    by (simp_all add: chunk_size_ops_def)
  assume n: "n \<le> length (chunk_size_chunk cs)"
  with ok have "unat (cs_pos cs) + n \<le> unat (cs_len cs)" "unat (cs_len cs) \<le> 18"
    by (auto simp: chunk_size_chunk_def chunk_size_ok_def CHUNK_SIZE_MAX_BYTES_def)
  moreover then have "unat (cs_pos cs + word_of_nat n) = unat (cs_pos cs) + n"
    by (simp add: unat_word_ariths unat_of_nat)
  ultimately show "\<exists>cs'. b_advance chunk_size_ops cs n = Some cs' \<and>
      chunk_size_chunk cs' = drop n (chunk_size_chunk cs) \<and> chunk_size_ok cs'"
    using ok n rem
    by (auto simp: chunk_size_ops_def chunk_size_advance_def chunk_size_chunk_def chunk_size_ok_def add.commute)
qed

section \<open>What goes on the wire\<close>

text \<open>
  The documented behaviour of the buffers of the \<open>bytes\<close> crate, with the unread bytes \<open>cb\<close>, \<open>ct\<close>
  and \<open>cc\<close> of a user buffer, a \<open>Take\<close> and a \<open>Chain\<close>.
\<close>

definition bytes_ok ::
    "('b, 'tk, 'ch, 'z) bytes_crate_scheme \<Rightarrow> ('b \<Rightarrow> bytes) \<Rightarrow> ('tk \<Rightarrow> bytes) \<Rightarrow> ('ch \<Rightarrow> bytes) \<Rightarrow> bool" where
  "bytes_ok X cb ct cc \<longleftrightarrow>
     buf_laws (buf_b X) cb (\<lambda>_. True) \<and> buf_laws (buf_take X) ct (\<lambda>_. True) \<and>
     buf_laws (buf_chain X) cc (\<lambda>_. True) \<and> buf_laws (buf_static X) (\<lambda>s. s) (\<lambda>_. True) \<and>
     (\<forall>b n. ct (mk_take X b n) = take n (cb b)) \<and>
     (\<forall>cs b s. cc (mk_chain X cs b s) = chunk_size_chunk cs @ cb b @ s)"

fun encoded_content ::
    "('b \<Rightarrow> bytes) \<Rightarrow> ('tk \<Rightarrow> bytes) \<Rightarrow> ('ch \<Rightarrow> bytes) \<Rightarrow> ('b, 'tk, 'ch) encoded_buf \<Rightarrow> bytes" where
  "encoded_content cb ct cc (BufExact b) = cb b"
| "encoded_content cb ct cc (BufLimited b) = ct b"
| "encoded_content cb ct cc (BufChunked b) = cc b"
| "encoded_content cb ct cc (BufChunkedEnd b) = b"

lemma bytes_okD:
  assumes "bytes_ok X cb ct cc"
  shows "buf_laws (buf_b X) cb (\<lambda>_. True)" "buf_laws (buf_take X) ct (\<lambda>_. True)"
    "buf_laws (buf_chain X) cc (\<lambda>_. True)" "buf_laws (buf_static X) (\<lambda>s. s) (\<lambda>_. True)"
    "ct (mk_take X b n) = take n (cb b)" "cc (mk_chain X cs b s) = chunk_size_chunk cs @ cb b @ s"
    "b_remaining (buf_b X) b = length (cb b)"
  using assms buf_laws.remaining [of "buf_b X" cb "\<lambda>_. True" b] by (simp_all add: bytes_ok_def)

lemma encoded_buf_laws:
  assumes "bytes_ok X cb ct cc"
  shows "buf_laws (encoded_buf_ops X) (encoded_content cb ct cc) (\<lambda>_. True)"
proof
  fix e :: "('a, 'b, 'c) encoded_buf" and n
  note l = bytes_okD(1-4) [OF assms]
  show "b_remaining (encoded_buf_ops X) e = length (encoded_content cb ct cc e)"
    using l [THEN buf_laws.remaining] by (cases e) (simp_all add: encoded_buf_ops_def)
  show "\<exists>rest. encoded_content cb ct cc e = b_chunk (encoded_buf_ops X) e @ rest"
    using l [THEN buf_laws.chunk_prefix] by (cases e) (simp_all add: encoded_buf_ops_def)
  show "encoded_content cb ct cc e \<noteq> [] \<Longrightarrow> b_chunk (encoded_buf_ops X) e \<noteq> []"
    using l [THEN buf_laws.chunk_nonempty] by (cases e) (simp_all add: encoded_buf_ops_def)
  show "n \<le> length (encoded_content cb ct cc e) \<Longrightarrow>
      \<exists>e'. b_advance (encoded_buf_ops X) e n = Some e' \<and>
        encoded_content cb ct cc e' = drop n (encoded_content cb ct cc e) \<and> True"
    using l [THEN buf_laws.advance] by (cases e) (fastforce simp: encoded_buf_ops_def)+
qed

text \<open>The scatter views of the four kinds list every unread byte in order.\<close>

definition bytes_vec_ok ::
    "('b, 'tk, 'ch, 'z) bytes_crate_scheme \<Rightarrow> ('b \<Rightarrow> bytes) \<Rightarrow> ('tk \<Rightarrow> bytes) \<Rightarrow> ('ch \<Rightarrow> bytes) \<Rightarrow> bool" where
  "bytes_vec_ok X cb ct cc \<longleftrightarrow>
     vec_ok (vec_b X) cb \<and> vec_ok (vec_take X) ct \<and> vec_ok (vec_chain X) cc \<and> vec_ok (vec_static X) (\<lambda>s. s)"

lemma encoded_vec_ok:
  "bytes_vec_ok X cb ct cc \<Longrightarrow> vec_ok (encoded_buf_chunks_vectored X) (encoded_content cb ct cc)"
  unfolding bytes_vec_ok_def vec_ok_def
  by (intro allI, rename_tac e n, case_tac e) auto

text \<open>The abstract encoder: the bytes of one message body piece, and of the end of the body.\<close>

fun wire_step :: "encoder_kind \<Rightarrow> bytes \<Rightarrow> encoder_kind \<times> bytes" where
  "wire_step EChunked m = (EChunked, upper_hex (length m) @ CRLF @ m @ CRLF)"
| "wire_step (ELength n) m =
     (ELength (n - as_u64 (min (unat n) (length m))), take (unat n) m)"
| "wire_step ECloseDelimited m = (ECloseDelimited, m)"

fun wire_end :: "encoder_kind \<Rightarrow> bytes option" where
  "wire_end EChunked = Some (ascii ''0'' @ CRLF @ CRLF)"
| "wire_end (ELength n) = (if n = 0 then Some [] else None)"
| "wire_end ECloseDelimited = Some []"

fun wire_all :: "encoder_kind \<Rightarrow> bytes list \<Rightarrow> encoder_kind \<times> bytes" where
  "wire_all k [] = (k, [])"
| "wire_all k (m # ms) =
     (let (k', w) = wire_step k m; (k'', ws) = wire_all k' ms in (k'', w @ ws))"

lemma as_u64_unat [simp]: "as_u64 (unat n) = n"
  by (simp add: as_u64_def)

lemma unat_as_u64: "n < 2 ^ 64 \<Longrightarrow> unat (as_u64 n) = n"
  by (simp add: as_u64_def unat_of_nat_u64)

lemma as_u64_less: "n < 2 ^ 64 \<Longrightarrow> w < as_u64 n \<longleftrightarrow> unat w < n"
  by (simp add: word_less_nat_alt unat_as_u64)

lemma encode_refines:
  assumes "bytes_ok X cb ct cc" "length (cb msg) < 2 ^ 64"
  shows "\<exists>buf. encode X e msg = Some (e\<lparr>enc_kind := fst (wire_step (enc_kind e) (cb msg))\<rparr>, buf) \<and>
      encoded_content cb ct cc buf = snd (wire_step (enc_kind e) (cb msg))"
proof (cases "enc_kind e")
  case EChunked
  with chunk_size_new_ok [OF assms(2)] show ?thesis
    by (auto simp: encode_def bytes_okD [OF assms(1)])
next
  case (ELength n)
  show ?thesis
  proof (cases "unat n < length (cb msg)")
    case True
    with ELength assms show ?thesis
      by (auto simp: encode_def bytes_okD [OF assms(1)] as_u64_less Let_def)
  next
    case False
    with ELength assms show ?thesis
      by (auto simp: encode_def bytes_okD [OF assms(1)] as_u64_less Let_def min_def)
  qed
next
  case ECloseDelimited
  then show ?thesis by (simp add: encode_def)
qed

lemma encoder_end_refines:
  "(\<exists>e'. encoder_end e = Err e') \<longleftrightarrow> wire_end (enc_kind e) = None"
  "encoder_end e = Ok None \<Longrightarrow> wire_end (enc_kind e) = Some []"
  "encoder_end e = Ok (Some buf) \<Longrightarrow> wire_end (enc_kind e) = Some (encoded_content cb ct cc buf)"
  by (auto simp: encoder_end_def split: encoder_kind.splits if_splits)

text \<open>A length-delimited body is cut at the announced length, and ends only when it is reached.\<close>

lemma wire_all_length:
  "snd (wire_all (ELength n) ms) = take (unat n) (concat ms) \<and>
   fst (wire_all (ELength n) ms) = ELength (n - as_u64 (min (unat n) (length (concat ms))))"
proof (induction ms arbitrary: n)
  case Nil
  show ?case by (simp add: as_u64_def)
next
  case (Cons m ms)
  let ?k = "min (unat n) (length m)"
  have k: "?k < 2 ^ 64" using unat_less_u64 [of n] by simp
  have "unat (n - as_u64 ?k) = unat n - ?k"
    using unat_sub_u64 [of "as_u64 ?k" n] unat_as_u64 [OF k] by simp
  moreover have "as_u64 ?k + as_u64 (min (unat n - ?k) (length (concat ms))) =
      as_u64 (min (unat n) (length m + length (concat ms)))"
    by (auto simp: as_u64_def min_def simp flip: of_nat_add)
  moreover have "unat n - ?k = unat n - length m" by simp
  ultimately show ?case
    using Cons.IH [of "n - as_u64 ?k"] by (auto simp: diff_diff_eq split: prod.splits)
qed

lemma wire_end_length: "wire_end (ELength n) = Some w \<longleftrightarrow> n = 0 \<and> w = []"
  by auto

section \<open>Finishing in one call\<close>

text \<open>The pieces that \<open>encode_and_end\<close> and \<open>danger_full_buf\<close> hand to the write buffer.\<close>

lemma buffer_pieces:
  fixes cb ct cc X
  defines "cnt \<equiv> encoded_content cb ct cc"
  assumes X: "bytes_ok X cb ct cc" and w: "wb_ok cnt (\<lambda>_. True) w"
  shows "cb m \<noteq> [] \<Longrightarrow> \<exists>w'. buffer_exact cap X w m = Some w' \<and> wb_ok cnt (\<lambda>_. True) w' \<and>
      wb_content cnt w' = wb_content cnt w @ cb m"
    and "ct t \<noteq> [] \<Longrightarrow> \<exists>w'. buffer_take cap X w t = Some w' \<and> wb_ok cnt (\<lambda>_. True) w' \<and>
      wb_content cnt w' = wb_content cnt w @ ct t"
    and "cc c \<noteq> [] \<Longrightarrow> \<exists>w'. buffer_chain cap X w c = Some w' \<and> wb_ok cnt (\<lambda>_. True) w' \<and>
      wb_content cnt w' = wb_content cnt w @ cc c"
  using write_buf_buffer_ok [OF bytes_okD(1) [OF X] w, of m BufExact cap]
    write_buf_buffer_ok [OF bytes_okD(2) [OF X] w, of t BufLimited cap]
    write_buf_buffer_ok [OF bytes_okD(3) [OF X] w, of c BufChunked cap]
  by (auto simp: cnt_def buffer_exact_def buffer_take_def buffer_chain_def)

lemma encode_and_end_content:
  fixes cb ct cc X
  defines "cnt \<equiv> encoded_content cb ct cc"
  assumes X: "bytes_ok X cb ct cc" and w: "wb_ok cnt (\<lambda>_. True) w"
    and m: "cb m \<noteq> []" "length (cb m) < 2 ^ 64" and n0: "enc_kind e \<noteq> ELength 0"
  shows "\<exists>w' ka. encode_and_end cap X e m w = Some (w', ka) \<and> wb_ok cnt (\<lambda>_. True) w' \<and>
      wb_content cnt w' = wb_content cnt w @ snd (wire_step (enc_kind e) (cb m)) @
        (case wire_end (fst (wire_step (enc_kind e) (cb m))) of None \<Rightarrow> [] | Some t \<Rightarrow> t) \<and>
      (ka \<longleftrightarrow> \<not> enc_is_last e \<and> \<not> is_close_delimited e \<and>
         wire_end (fst (wire_step (enc_kind e) (cb m))) \<noteq> None)"
proof (cases "enc_kind e")
  case EChunked
  from chunk_size_new_ok [OF m(2)] obtain cs where
    cs: "chunk_size_new (length (cb m)) = Some cs" "chunk_size_chunk cs = upper_hex (length (cb m)) @ CRLF" by blast
  with buffer_pieces(3) [OF X w [unfolded cnt_def], of "mk_chain X cs m (CRLF @ ascii ''0'' @ CRLF @ CRLF)" cap]
    EChunked bytes_okD [OF X] show ?thesis
    by (auto simp: encode_and_end_def cnt_def is_close_delimited_def)
next
  case (ELength n)
  with n0 have n: "n \<noteq> 0" by simp
  consider "unat n = length (cb m)" | "unat n < length (cb m)" | "length (cb m) < unat n" by linarith
  then show ?thesis
  proof cases
    case 1
    then have "as_u64 (length (cb m)) = n" by (metis as_u64_unat)
    with 1 buffer_pieces(1) [OF X w [unfolded cnt_def] m(1), of cap] ELength bytes_okD [OF X] show ?thesis
      by (auto simp: encode_and_end_def cnt_def is_close_delimited_def)
  next
    case 2
    then have "as_u64 (length (cb m)) > n" using m(2) by (simp add: as_u64_less)
    moreover then have "as_u64 (length (cb m)) \<noteq> n" by simp
    moreover have "take (unat n) (cb m) \<noteq> []" using n m(1) by (simp add: unat_eq_0)
    ultimately show ?thesis
      using 2 buffer_pieces(2) [OF X w [unfolded cnt_def], of "mk_take X m (unat n)" cap] ELength bytes_okD [OF X]
      by (auto simp: encode_and_end_def cnt_def is_close_delimited_def)
  next
    case 3
    then have "as_u64 (length (cb m)) \<noteq> n" "\<not> n < as_u64 (length (cb m))"
      using m(2) unat_as_u64 [OF m(2)] by (auto simp: as_u64_less)
    with 3 buffer_pieces(1) [OF X w [unfolded cnt_def] m(1), of cap] ELength bytes_okD [OF X] show ?thesis
      by (auto simp: encode_and_end_def cnt_def is_close_delimited_def min_def)
  qed
next
  case ECloseDelimited
  with buffer_pieces(1) [OF X w [unfolded cnt_def] m(1), of cap] bytes_okD [OF X] show ?thesis
    by (auto simp: encode_and_end_def cnt_def is_close_delimited_def)
qed

end
