(* ===== verification/Http_Types.thy ===== *)
theory Http_Types
  imports Body_Length
begin

text \<open>
  The message types that the HTTP/1 code passes around (\<^verbatim>\<open>src/src/proto/mod.rs\<close>,
  \<^verbatim>\<open>src/src/proto/h1/mod.rs\<close>, \<^verbatim>\<open>src/src/ext.rs\<close>) and the interface of the \<open>http\<close> crate.

  The \<open>http\<close> crate is not part of the repository. Its operations are the fields of the record
  \<open>http\<close>, which every definition that calls them takes as its argument \<open>H\<close>; its header map is
  the type parameter \<open>'hm\<close> and its URI the type parameter \<open>'uri\<close>. What the code relies on are the
  named hypotheses \<open>header_map_ok\<close>, \<open>to_str_ok\<close>, \<open>from_u64_ok\<close> and \<open>status_ok\<close>. A header name is
  the lower-case string that \<open>HeaderName::as_str\<close> returns, a header value the bytes that
  \<open>HeaderValue::as_bytes\<close> returns, a method the string that \<open>Method::as_str\<close> returns and a status
  the number that \<open>StatusCode::as_u16\<close> returns.
\<close>

unbundle bit_operations_syntax

section \<open>The interface of the http crate\<close>

datatype version = HTTP_09 | HTTP_10 | HTTP_11 | HTTP_2 | HTTP_3

record ('hm, 'uri) http =
  hv_to_str :: "bytes \<Rightarrow> bytes option"
  hv_from_u64 :: "u64 \<Rightarrow> bytes"
  hn_from_bytes :: "bytes \<Rightarrow> string option"
  method_from_bytes :: "bytes \<Rightarrow> string option"
  uri_parse :: "bytes \<Rightarrow> 'uri option"
  uri_display :: "'uri \<Rightarrow> bytes"
  status_from_u16 :: "nat \<Rightarrow> nat option"
  status_is_informational :: "nat \<Rightarrow> bool"
  status_is_success :: "nat \<Rightarrow> bool"
  status_as_str :: "nat \<Rightarrow> bytes"
  status_canonical_reason :: "nat \<Rightarrow> bytes option"
  hm_new :: 'hm
  hm_append :: "'hm \<Rightarrow> string \<Rightarrow> bytes \<Rightarrow> 'hm"
  hm_insert :: "'hm \<Rightarrow> string \<Rightarrow> bytes \<Rightarrow> 'hm"
  hm_remove :: "'hm \<Rightarrow> string \<Rightarrow> 'hm"
  hm_update_last :: "'hm \<Rightarrow> string \<Rightarrow> (bytes \<Rightarrow> bytes) \<Rightarrow> 'hm"
  hm_get_all :: "'hm \<Rightarrow> string \<Rightarrow> bytes list"
  hm_contains_key :: "'hm \<Rightarrow> string \<Rightarrow> bool"
  hm_keys :: "'hm \<Rightarrow> string list"
  hm_iter :: "'hm \<Rightarrow> (string \<times> bytes) list"
  hm_drain :: "'hm \<Rightarrow> (string option \<times> bytes) list"

text \<open>
  \<open>hm_update_last h n f\<close> is the assignment through \<open>entry.iter_mut().next_back()\<close>; \<open>hm_drain\<close> is
  the sequence the \<open>drain\<close> iterator yields, in which a name is present only for the first value
  of each name.
\<close>

definition header_map_ok :: "('hm, 'uri, 'z) http_scheme \<Rightarrow> bool" where
  "header_map_ok H \<longleftrightarrow>
     (\<forall>n. hm_get_all H (hm_new H) n = []) \<and>
     (\<forall>h n v m. hm_get_all H (hm_append H h n v) m =
        (if m = n then hm_get_all H h n @ [v] else hm_get_all H h m)) \<and>
     (\<forall>h n v m. hm_get_all H (hm_insert H h n v) m = (if m = n then [v] else hm_get_all H h m)) \<and>
     (\<forall>h n m. hm_get_all H (hm_remove H h n) m = (if m = n then [] else hm_get_all H h m)) \<and>
     (\<forall>h n f m. hm_get_all H (hm_update_last H h n f) m =
        (if m = n \<and> hm_get_all H h n \<noteq> []
         then butlast (hm_get_all H h n) @ [f (last (hm_get_all H h n))]
         else hm_get_all H h m)) \<and>
     (\<forall>h n. hm_contains_key H h n \<longleftrightarrow> hm_get_all H h n \<noteq> [])"

definition to_str_ok :: "('hm, 'uri, 'z) http_scheme \<Rightarrow> bool" where
  "to_str_ok H \<longleftrightarrow>
     (\<exists>vis. (\<forall>b. 32 \<le> b \<and> b < 127 \<longrightarrow> vis b) \<and>
            (\<forall>v. hv_to_str H v = (if list_all vis v then Some v else None)))"

definition from_u64_ok :: "('hm, 'uri, 'z) http_scheme \<Rightarrow> bool" where
  "from_u64_ok H \<longleftrightarrow> (\<forall>n. hv_from_u64 H n = decimal (unat n))"

definition status_ok :: "('hm, 'uri, 'z) http_scheme \<Rightarrow> bool" where
  "status_ok H \<longleftrightarrow>
     (\<forall>s. status_is_informational H s \<longleftrightarrow> 100 \<le> s \<and> s < 200) \<and>
     (\<forall>s. status_is_success H s \<longleftrightarrow> 200 \<le> s \<and> s < 300)"

lemma header_map_okD:
  assumes "header_map_ok H"
  shows "hm_get_all H (hm_new H) n = []"
    and "hm_get_all H (hm_append H h n v) m =
        (if m = n then hm_get_all H h n @ [v] else hm_get_all H h m)"
    and "hm_get_all H (hm_insert H h n v) m = (if m = n then [v] else hm_get_all H h m)"
    and "hm_get_all H (hm_remove H h n) m = (if m = n then [] else hm_get_all H h m)"
    and "hm_get_all H (hm_update_last H h n f) m =
        (if m = n \<and> hm_get_all H h n \<noteq> []
         then butlast (hm_get_all H h n) @ [f (last (hm_get_all H h n))]
         else hm_get_all H h m)"
    and "hm_contains_key H h n \<longleftrightarrow> hm_get_all H h n \<noteq> []"
  using assms unfolding header_map_ok_def by blast+

lemma to_str_okE:
  assumes "to_str_ok H"
  obtains vis where "\<And>b. 32 \<le> b \<Longrightarrow> b < 127 \<Longrightarrow> vis b"
    and "\<And>v. hv_to_str H v = (if list_all vis v then Some v else None)"
  using assms unfolding to_str_ok_def by blast

section \<open>Message heads\<close>

text \<open>
  \<open>http::Extensions\<close> is modelled by the two entries that the HTTP/1 code itself stores there:
  the original spelling of the header names and the \<open>OnUpgrade\<close> handle, which is the number of its channel.
\<close>

record 'hm extensions =
  ext_case_map :: "'hm option"
  ext_on_upgrade :: "nat option"

definition extensions_default :: "'hm extensions" where
  "extensions_default = \<lparr>ext_case_map = None, ext_on_upgrade = None\<rparr>"

record ('s, 'hm) message_head =
  version :: version
  subject :: 's
  headers :: 'hm
  extensions :: "'hm extensions"

datatype 'uri request_line = RequestLine string 'uri

type_synonym ('hm, 'uri) request_head = "('uri request_line, 'hm) message_head"
type_synonym 'hm response_head = "(nat, 'hm) message_head"

text \<open>\<open>MessageHead::default()\<close> for a response: \<open>HTTP/1.1\<close>, \<open>200 OK\<close>, no headers.\<close>

definition response_head_default :: "('hm, 'uri, 'z) http_scheme \<Rightarrow> 'hm response_head" where
  "response_head_default H =
     \<lparr>version = HTTP_11, subject = 200, headers = hm_new H, extensions = extensions_default\<rparr>"

datatype body_length = Known u64 | Unknown

record ('s, 'hm) parsed_message =
  pm_head :: "('s, 'hm) message_head"
  pm_decode :: decoded_length
  pm_expect_continue :: bool
  pm_keep_alive :: bool
  pm_wants_upgrade :: bool

text \<open>
  The context of \<open>Http1Transaction::parse\<close>. The references into the connection state are passed as
  values and returned updated. \<open>'cfg\<close> is the configuration type of the \<open>httparse\<close> crate; durations
  and deadlines are numbers of seconds.
\<close>

record ('hm, 'cfg) parse_ctx =
  cached_headers :: "'hm option"
  req_method :: "string option"
  h1_parser_config :: 'cfg
  h1_header_read_timeout :: "nat option"
  h1_header_read_timeout_fut :: "nat option"
  h1_header_read_timeout_running :: bool
  preserve_header_case :: bool
  h09_responses :: bool

text \<open>The arguments of \<open>Http1Transaction::encode\<close> other than the destination buffer.\<close>

record ('s, 'hm) encode_msg =
  enc_head :: "('s, 'hm) message_head"
  enc_body :: "body_length option"
  enc_keep_alive :: bool
  enc_req_method :: "string option"
  enc_title_case_headers :: bool

section \<open>Wants\<close>

datatype wants = Wants u8

definition WANTS_EMPTY :: wants where "WANTS_EMPTY = Wants 0"
definition WANTS_EXPECT :: wants where "WANTS_EXPECT = Wants 1"
definition WANTS_UPGRADE :: wants where "WANTS_UPGRADE = Wants 2"

fun wants_add :: "wants \<Rightarrow> wants \<Rightarrow> wants" where
  "wants_add (Wants a) (Wants b) = Wants (a OR b)"

fun wants_contains :: "wants \<Rightarrow> wants \<Rightarrow> bool" where
  "wants_contains (Wants a) (Wants b) \<longleftrightarrow> (a AND b) = b"

lemma wants_contains_add: "wants_contains (wants_add w v) v" "wants_contains (wants_add w v) w"
  by (cases w; cases v; simp add: bit_eq_iff bit_simps; blast)+

lemma wants_flags [simp]:
  "wants_contains WANTS_EMPTY WANTS_EXPECT = False"
  "wants_contains WANTS_EMPTY WANTS_UPGRADE = False"
  "wants_contains WANTS_UPGRADE WANTS_UPGRADE = True"
  "wants_contains WANTS_UPGRADE WANTS_EXPECT = False"
  by (simp_all add: WANTS_EMPTY_def WANTS_EXPECT_def WANTS_UPGRADE_def)

section \<open>Original header spelling\<close>

text \<open>\<open>HeaderCaseMap\<close> wraps a header map whose values are the spellings.\<close>

definition case_map_get_all :: "('hm, 'uri, 'z) http_scheme \<Rightarrow> 'hm \<Rightarrow> string \<Rightarrow> bytes list" where
  "case_map_get_all H m name = hm_get_all H m name"

definition case_map_default :: "('hm, 'uri, 'z) http_scheme \<Rightarrow> 'hm" where
  "case_map_default H = hm_new H"

definition case_map_append :: "('hm, 'uri, 'z) http_scheme \<Rightarrow> 'hm \<Rightarrow> string \<Rightarrow> bytes \<Rightarrow> 'hm" where
  "case_map_append H m name orig = hm_append H m name orig"

end
