(* ===== verification/Headers.thy ===== *)
theory Headers
  imports Http_Types
begin

text \<open>
  Reading and repairing header values (\<^verbatim>\<open>src/src/headers.rs\<close>): the decimal parser of
  \<open>Content-Length\<close>, the merging of several length headers, the \<open>Connection\<close> and
  \<open>Transfer-Encoding\<close> tokens. The parser is proved equal to positional notation bounded by
  \<open>2 ^ 64\<close>, and the merge to agreement of all comma-separated values.
\<close>

section \<open>Definitions\<close>

definition CONTENT_LENGTH :: string where "CONTENT_LENGTH = ''content-length''"
definition TRANSFER_ENCODING :: string where "TRANSFER_ENCODING = ''transfer-encoding''"
definition CONNECTION :: string where "CONNECTION = ''connection''"
definition EXPECT :: string where "EXPECT = ''expect''"
definition UPGRADE :: string where "UPGRADE = ''upgrade''"
definition DATE :: string where "DATE = ''date''"

lemmas header_name_defs =
  CONTENT_LENGTH_def TRANSFER_ENCODING_def CONNECTION_def EXPECT_def UPGRADE_def DATE_def

lemma header_names_distinct [simp]:
  "CONTENT_LENGTH \<noteq> TRANSFER_ENCODING" "CONTENT_LENGTH \<noteq> CONNECTION" "CONTENT_LENGTH \<noteq> EXPECT"
  "CONTENT_LENGTH \<noteq> UPGRADE" "CONTENT_LENGTH \<noteq> DATE"
  "TRANSFER_ENCODING \<noteq> CONTENT_LENGTH" "TRANSFER_ENCODING \<noteq> CONNECTION" "TRANSFER_ENCODING \<noteq> EXPECT"
  "TRANSFER_ENCODING \<noteq> UPGRADE" "TRANSFER_ENCODING \<noteq> DATE"
  "CONNECTION \<noteq> CONTENT_LENGTH" "CONNECTION \<noteq> TRANSFER_ENCODING" "CONNECTION \<noteq> EXPECT"
  "CONNECTION \<noteq> UPGRADE" "CONNECTION \<noteq> DATE"
  "EXPECT \<noteq> CONTENT_LENGTH" "EXPECT \<noteq> TRANSFER_ENCODING" "EXPECT \<noteq> CONNECTION"
  "EXPECT \<noteq> UPGRADE" "EXPECT \<noteq> DATE"
  "UPGRADE \<noteq> CONTENT_LENGTH" "UPGRADE \<noteq> TRANSFER_ENCODING" "UPGRADE \<noteq> CONNECTION"
  "UPGRADE \<noteq> EXPECT" "UPGRADE \<noteq> DATE"
  "DATE \<noteq> CONTENT_LENGTH" "DATE \<noteq> TRANSFER_ENCODING" "DATE \<noteq> CONNECTION"
  "DATE \<noteq> EXPECT" "DATE \<noteq> UPGRADE"
  by (simp_all add: header_name_defs)

definition COMMA :: u8 where "COMMA = 44"

definition connection_has :: "('hm, 'uri, 'z) http_scheme \<Rightarrow> bytes \<Rightarrow> bytes \<Rightarrow> bool" where
  "connection_has H value needle =
     (case hv_to_str H value of
        Some s \<Rightarrow> list_ex (\<lambda>val. eq_ignore_ascii_case (trim val) needle) (split_on COMMA s)
      | None \<Rightarrow> False)"

definition connection_keep_alive :: "('hm, 'uri, 'z) http_scheme \<Rightarrow> bytes \<Rightarrow> bool" where
  "connection_keep_alive H value = connection_has H value (ascii ''keep-alive'')"

definition connection_close :: "('hm, 'uri, 'z) http_scheme \<Rightarrow> bytes \<Rightarrow> bool" where
  "connection_close H value = connection_has H value (ascii ''close'')"

text \<open>The loop of \<open>from_digits\<close>, with the running result.\<close>

fun from_digits_loop :: "u64 \<Rightarrow> bytes \<Rightarrow> u64 option" where
  "from_digits_loop result [] = Some result"
| "from_digits_loop result (b # bs) =
     (if 48 \<le> b \<and> b \<le> 57 then
        do { result \<leftarrow> checked_mul result 10;
             result \<leftarrow> checked_add result (ucast (b - 48));
             from_digits_loop result bs }
      else None)"

definition from_digits :: "bytes \<Rightarrow> u64 option" where
  "from_digits bs = (if bs = [] then None else from_digits_loop 0 bs)"

definition content_length_parse :: "bytes \<Rightarrow> u64 option" where
  "content_length_parse value = from_digits value"

text \<open>
  The two nested loops of \<open>content_length_parse_all_values\<close>. The outer \<open>None\<close> is the early
  \<open>return None\<close>; \<open>Some acc\<close> continues with the current \<open>content_length\<close>.
\<close>

fun parse_line :: "u64 option \<Rightarrow> bytes list \<Rightarrow> u64 option option" where
  "parse_line content_length [] = Some content_length"
| "parse_line content_length (v # vs) =
     (case from_digits (trim v) of
        Some n \<Rightarrow>
          (if content_length = None then parse_line (Some n) vs
           else if content_length \<noteq> Some n then None
           else parse_line content_length vs)
      | None \<Rightarrow> None)"

fun parse_lines :: "('hm, 'uri, 'z) http_scheme \<Rightarrow> u64 option \<Rightarrow> bytes list \<Rightarrow> u64 option option" where
  "parse_lines H content_length [] = Some content_length"
| "parse_lines H content_length (h # hs) =
     (case hv_to_str H h of
        Some line \<Rightarrow>
          (case parse_line content_length (split_on COMMA line) of
             None \<Rightarrow> None
           | Some content_length \<Rightarrow> parse_lines H content_length hs)
      | None \<Rightarrow> None)"

definition content_length_parse_all_values ::
    "('hm, 'uri, 'z) http_scheme \<Rightarrow> bytes list \<Rightarrow> u64 option" where
  "content_length_parse_all_values H values =
     (case parse_lines H None values of None \<Rightarrow> None | Some content_length \<Rightarrow> content_length)"

definition content_length_parse_all :: "('hm, 'uri, 'z) http_scheme \<Rightarrow> 'hm \<Rightarrow> u64 option" where
  "content_length_parse_all H hs = content_length_parse_all_values H (hm_get_all H hs CONTENT_LENGTH)"

definition method_has_defined_payload_semantics :: "string \<Rightarrow> bool" where
  "method_has_defined_payload_semantics m \<longleftrightarrow> m \<notin> {''GET'', ''HEAD'', ''DELETE'', ''CONNECT''}"

definition set_content_length_if_missing ::
    "('hm, 'uri, 'z) http_scheme \<Rightarrow> 'hm \<Rightarrow> u64 \<Rightarrow> 'hm" where
  "set_content_length_if_missing H hs len =
     (if hm_contains_key H hs CONTENT_LENGTH then hs
      else hm_insert H hs CONTENT_LENGTH (hv_from_u64 H len))"

text \<open>\<open>is_chunked_\<close>: the last comma-separated coding of one value.\<close>

definition is_chunked_value :: "('hm, 'uri, 'z) http_scheme \<Rightarrow> bytes \<Rightarrow> bool" where
  "is_chunked_value H value =
     (case hv_to_str H value of
        Some s \<Rightarrow> eq_ignore_ascii_case (trim (last (split_on COMMA s))) (ascii ''chunked'')
      | None \<Rightarrow> False)"

definition is_chunked :: "('hm, 'uri, 'z) http_scheme \<Rightarrow> bytes list \<Rightarrow> bool" where
  "is_chunked H encodings = (if encodings = [] then False else is_chunked_value H (last encodings))"

definition transfer_encoding_is_chunked :: "('hm, 'uri, 'z) http_scheme \<Rightarrow> 'hm \<Rightarrow> bool" where
  "transfer_encoding_is_chunked H hs = is_chunked H (hm_get_all H hs TRANSFER_ENCODING)"

text \<open>
  \<open>add_chunked\<close> on the occupied entry of \<open>Transfer-Encoding\<close>: extend the last value, or insert
  one when the entry has none.
\<close>

definition add_chunked :: "('hm, 'uri, 'z) http_scheme \<Rightarrow> 'hm \<Rightarrow> 'hm" where
  "add_chunked H hs =
     (if hm_get_all H hs TRANSFER_ENCODING \<noteq> []
      then hm_update_last H hs TRANSFER_ENCODING (\<lambda>line. line @ ascii '', '' @ ascii ''chunked'')
      else hm_insert H hs TRANSFER_ENCODING (ascii ''chunked''))"

section \<open>The decimal parser\<close>

definition digits_value :: "bytes \<Rightarrow> nat" where
  "digits_value bs = foldl (\<lambda>acc b. 10 * acc + (unat b - 48)) 0 bs"

lemma digits_value_ge: "a \<le> foldl (\<lambda>acc b. 10 * acc + (unat (b::u8) - 48)) a bs"
proof (induction bs arbitrary: a)
  case (Cons b bs)
  have "a \<le> 10 * a + (unat b - 48)" by simp
  also have "\<dots> \<le> foldl (\<lambda>acc b. 10 * acc + (unat b - 48)) (10 * a + (unat b - 48)) bs"
    by (rule Cons.IH)
  finally show ?case by simp
qed simp

lemma unat_digit: "48 \<le> b \<Longrightarrow> b \<le> 57 \<Longrightarrow> unat (ucast (b - 48) :: u64) = unat b - 48" for b :: u8
  by (simp add: unat_sub word_le_nat_alt)

lemma from_digits_loop_eq:
  "from_digits_loop r bs =
     (let v = foldl (\<lambda>acc b. 10 * acc + (unat b - 48)) (unat r) bs in
      if list_all is_digit bs \<and> v < 2 ^ 64 then Some (word_of_nat v) else None)"
proof (induction bs arbitrary: r)
  case Nil
  show ?case using unat_less_u64 [of r] by simp
next
  case (Cons b bs)
  let ?v = "10 * unat r + (unat b - 48)"
  show ?case
  proof (cases "is_digit b")
    case False
    then show ?thesis by (auto simp: is_digit_def)
  next
    case True
    then have d: "48 \<le> b" "b \<le> 57" by (simp_all add: is_digit_def)
    have step: "from_digits_loop r (b # bs) =
        (if ?v < 2 ^ 64 then from_digits_loop (word_of_nat ?v) bs else None)"
      using checked_mul_add [of r 10 "ucast (b - 48)"] unat_digit [OF d] d
      by (auto simp: bind_assoc [symmetric] mult.commute split: if_splits)
    show ?thesis
    proof (cases "?v < 2 ^ 64")
      case True
      then have "unat (word_of_nat ?v :: u64) = ?v" by (rule unat_of_nat_u64)
      with True step Cons.IH [of "word_of_nat ?v"] \<open>is_digit b\<close> show ?thesis by (simp add: Let_def)
    next
      case False
      with digits_value_ge [of ?v bs] have "\<not> foldl (\<lambda>acc b. 10 * acc + (unat b - 48)) ?v bs < 2 ^ 64"
        by linarith
      with False step show ?thesis by (simp add: Let_def)
    qed
  qed
qed

lemma from_digits_eq:
  "from_digits bs =
     (if bs \<noteq> [] \<and> list_all is_digit bs \<and> digits_value bs < 2 ^ 64
      then Some (word_of_nat (digits_value bs)) else None)"
  by (simp add: from_digits_def from_digits_loop_eq digits_value_def Let_def)

lemma from_digits_Some_iff:
  "from_digits bs = Some n \<longleftrightarrow> bs \<noteq> [] \<and> list_all is_digit bs \<and> digits_value bs = unat n"
  using unat_less_u64 [of n] by (auto simp: from_digits_eq unat_of_nat_u64)

lemma digits_value_snoc: "digits_value (bs @ [b]) = 10 * digits_value bs + (unat b - 48)"
  by (simp add: digits_value_def)

lemma digits_value_decimal [simp]: "digits_value (decimal n) = n"
proof (induction n rule: decimal.induct)
  case (1 n)
  show ?case
  proof (cases "n < 10")
    case True
    then show ?thesis
      by (subst decimal.simps) (simp add: digits_value_def unat_decimal_digit)
  next
    case False
    with 1 show ?thesis
      by (subst decimal.simps) (simp add: digits_value_snoc unat_decimal_digit)
  qed
qed

lemma from_digits_decimal: "from_digits (decimal (unat n)) = Some n"
  by (simp add: from_digits_Some_iff list_all_iff decimal_digits)

section \<open>Merging length headers\<close>

text \<open>The comma-separated pieces of a list of values, when every value is text.\<close>

fun value_pieces :: "('hm, 'uri, 'z) http_scheme \<Rightarrow> bytes list \<Rightarrow> bytes list option" where
  "value_pieces H [] = Some []"
| "value_pieces H (h # hs) =
     do { line \<leftarrow> hv_to_str H h; rest \<leftarrow> value_pieces H hs; Some (split_on COMMA line @ rest) }"

lemma parse_line_append:
  "parse_line acc (xs @ ys) = do { acc' \<leftarrow> parse_line acc xs; parse_line acc' ys }"
  by (induction acc xs rule: parse_line.induct) (auto split: option.splits)

lemma parse_lines_eq:
  "value_pieces H hs = Some ps \<Longrightarrow> parse_lines H acc hs = parse_line acc ps"
  by (induction hs arbitrary: acc ps)
    (auto simp: bind_eq_Some_conv parse_line_append split: option.splits)

lemma parse_line_Some:
  "parse_line acc ps = Some (Some n) \<longleftrightarrow>
     (acc = None \<and> ps \<noteq> [] \<or> acc = Some n) \<and> (\<forall>p \<in> set ps. from_digits (trim p) = Some n)"
  by (induction acc ps rule: parse_line.induct) (auto split: option.splits)

lemma value_pieces_nonempty: "value_pieces H hs = Some ps \<Longrightarrow> ps = [] \<longleftrightarrow> hs = []"
  by (cases hs) (auto simp: bind_eq_Some_conv)

lemma parse_lines_None: "value_pieces H hs = None \<Longrightarrow> parse_lines H acc hs = None"
  by (induction hs arbitrary: acc) (auto simp: bind_eq_None_conv split: option.splits)

lemma content_length_parse_all_values_iff:
  "content_length_parse_all_values H vs = Some n \<longleftrightarrow>
     (\<exists>ps. value_pieces H vs = Some ps \<and> ps \<noteq> [] \<and>
           (\<forall>p \<in> set ps. from_digits (trim p) = Some n))"
proof (cases "value_pieces H vs")
  case None
  then show ?thesis by (simp add: content_length_parse_all_values_def parse_lines_None)
next
  case (Some ps)
  then have "content_length_parse_all_values H vs = Some n \<longleftrightarrow> parse_line None ps = Some (Some n)"
    by (auto simp: content_length_parse_all_values_def parse_lines_eq split: option.splits)
  with Some show ?thesis by (simp add: parse_line_Some)
qed

section \<open>Repairing Transfer-Encoding\<close>

lemma COMMA_not_chunked: "COMMA \<notin> set (ascii '' chunked'')"
  by (simp add: COMMA_def ascii_def)

lemma trim_chunked: "trim (ascii '' chunked'') = ascii ''chunked''"
  by (simp add: ascii_def trim_def is_ws_def)

lemma is_chunked_value_append:
  assumes "to_str_ok H" and "hv_to_str H v = Some s"
  shows "is_chunked_value H (v @ ascii '', '' @ ascii ''chunked'')"
proof -
  from assms(1) obtain vis where vis: "\<And>b. 32 \<le> b \<Longrightarrow> b < 127 \<Longrightarrow> vis b"
    and ts: "\<And>v. hv_to_str H v = (if list_all vis v then Some v else None)"
    by (rule to_str_okE) blast
  let ?w = "v @ ascii '', '' @ ascii ''chunked''"
  have w: "?w = v @ COMMA # ascii '' chunked''" by (simp add: COMMA_def ascii_def)
  have "list_all vis (ascii '', chunked'')" using vis by (simp add: ascii_def)
  then have "hv_to_str H ?w = Some ?w"
    using assms(2) by (auto simp: ts ascii_def split: if_splits)
  moreover have "last (split_on COMMA ?w) = ascii '' chunked''"
    unfolding w by (simp add: split_on_append_sep [OF COMMA_not_chunked])
  ultimately show ?thesis by (simp add: is_chunked_value_def trim_chunked)
qed

lemma add_chunked_is_chunked:
  assumes "header_map_ok H" "to_str_ok H"
    and "\<And>v. v \<in> set (hm_get_all H hs TRANSFER_ENCODING) \<Longrightarrow> hv_to_str H v \<noteq> None"
  shows "transfer_encoding_is_chunked H (add_chunked H hs)"
proof (cases "hm_get_all H hs TRANSFER_ENCODING = []")
  case True
  have "hv_to_str H (ascii ''chunked'') = Some (ascii ''chunked'')"
    using assms(2) by (rule to_str_okE) (simp add: ascii_def)
  moreover have "last (split_on COMMA (ascii ''chunked'')) = ascii ''chunked''"
    by (simp add: COMMA_def ascii_def)
  moreover have "trim (ascii ''chunked'') = ascii ''chunked''"
    by (simp add: ascii_def trim_def is_ws_def)
  ultimately show ?thesis using True
    by (simp add: transfer_encoding_is_chunked_def add_chunked_def is_chunked_def
        header_map_okD [OF assms(1)] is_chunked_value_def)
next
  case False
  let ?v = "last (hm_get_all H hs TRANSFER_ENCODING)"
  from False have "hv_to_str H ?v \<noteq> None" by (intro assms(3)) simp
  then have "is_chunked_value H (?v @ ascii '', '' @ ascii ''chunked'')"
    using is_chunked_value_append [OF assms(2)] by blast
  with False show ?thesis
    by (simp add: transfer_encoding_is_chunked_def add_chunked_def is_chunked_def
        header_map_okD [OF assms(1)])
qed

lemma add_chunked_other:
  assumes "header_map_ok H" "n \<noteq> TRANSFER_ENCODING"
  shows "hm_get_all H (add_chunked H hs) n = hm_get_all H hs n"
  using assms(2) by (simp add: add_chunked_def header_map_okD [OF assms(1)])

section \<open>Properties\<close>

text \<open>C25: \<open>from_digits\<close> accepts exactly the non-empty strings of ASCII digits whose value is below
  \<open>2 ^ 64\<close>, and returns that value; a sign, a space, an empty string or an overflow is refused.\<close>

theorem from_digits_correct:
  "from_digits bs =
     (if bs \<noteq> [] \<and> list_all is_digit bs \<and> digits_value bs < 2 ^ 64
      then Some (word_of_nat (digits_value bs)) else None)"
  by (rule from_digits_eq)

text \<open>C24: Several \<open>Content-Length\<close> values give a length exactly when each of them is text, there is
  at least one, and every comma-separated piece is the same number.\<close>

theorem content_length_values_agree:
  "content_length_parse_all_values H vs = Some n \<longleftrightarrow>
     (\<exists>ps. value_pieces H vs = Some ps \<and> ps \<noteq> [] \<and>
           (\<forall>p \<in> set ps. from_digits (trim p) = Some n))"
  by (rule content_length_parse_all_values_iff)

theorem content_length_values_agree_witness:
  "content_length_parse_all_values
     \<lparr>hv_to_str = Some, hv_from_u64 = (\<lambda>_. []), hn_from_bytes = (\<lambda>_. None), method_from_bytes = (\<lambda>_. None),
      uri_parse = (\<lambda>_. None :: unit option), uri_display = (\<lambda>_. []), status_from_u16 = Some,
      status_is_informational = (\<lambda>_. False), status_is_success = (\<lambda>_. False), status_as_str = (\<lambda>_. []),
      status_canonical_reason = (\<lambda>_. None), hm_new = (), hm_append = (\<lambda>h _ _. h), hm_insert = (\<lambda>h _ _. h),
      hm_remove = (\<lambda>h _. h), hm_update_last = (\<lambda>h _ _. h), hm_get_all = (\<lambda>_ _. []),
      hm_contains_key = (\<lambda>_ _. False), hm_keys = (\<lambda>_. []), hm_iter = (\<lambda>_. []), hm_drain = (\<lambda>_. [])\<rparr>
     [[49, 48, 44, 32, 49, 48], [49, 48]] = Some 10"
  by (subst content_length_values_agree)
    (simp add: COMMA_def trim_def is_ws_def from_digits_def checked_mul_def checked_add_def)

end
