(* ===== verification/Read_Strategy.thy ===== *)
theory Read_Strategy
  imports Write_Buf
begin

text \<open>
  The adaptive size of the read buffer (\<open>ReadStrategy\<close> of \<^verbatim>\<open>src/src/proto/h1/io.rs\<close>). Sizes
  are 64-bit words because the strategy doubles with saturation and halves by shifting.
\<close>

unbundle bit_operations_syntax

section \<open>Powers of two\<close>

text \<open>The number of significant bits, from which \<open>usize::leading_zeros\<close> is defined.\<close>

fun bit_width :: "nat \<Rightarrow> nat" where
  "bit_width n = (if n = 0 then 0 else Suc (bit_width (n div 2)))"

declare bit_width.simps [simp del]

definition leading_zeros :: "u64 \<Rightarrow> nat" where
  "leading_zeros w = 64 - bit_width (unat w)"

definition incr_power_of_two :: "u64 \<Rightarrow> u64" where
  "incr_power_of_two n = saturating_mul n 2"

text \<open>A shift by the width or more wraps its distance in a release build.\<close>

definition prev_power_of_two :: "u64 \<Rightarrow> u64" where
  "prev_power_of_two n = drop_bit ((leading_zeros n + 2) mod 64) (- 1) + 1"

section \<open>ReadStrategy\<close>

datatype read_strategy =
    Adaptive (decrease_now: bool) (adaptive_next: u64) (adaptive_max: u64)
  | Exact u64

definition with_max :: "u64 \<Rightarrow> read_strategy" where
  "with_max mx = Adaptive False (word_of_nat INIT_BUFFER_SIZE) mx"

fun strategy_next :: "read_strategy \<Rightarrow> u64" where
  "strategy_next (Adaptive _ nxt _) = nxt"
| "strategy_next (Exact exact) = exact"

fun strategy_max :: "read_strategy \<Rightarrow> u64" where
  "strategy_max (Adaptive _ _ mx) = mx"
| "strategy_max (Exact exact) = exact"

fun strategy_record :: "read_strategy \<Rightarrow> u64 \<Rightarrow> read_strategy" where
  "strategy_record (Adaptive decrease next mx) bytes_read =
     (if bytes_read \<ge> next then Adaptive False (min (incr_power_of_two next) mx) mx
      else let decr_to = prev_power_of_two next
           in if bytes_read < decr_to
              then if decrease then Adaptive False (max decr_to (word_of_nat INIT_BUFFER_SIZE)) mx
                   else Adaptive True next mx
              else Adaptive False next mx)"
| "strategy_record (Exact n) bytes_read = Exact n"

definition strategy_default :: read_strategy where
  "strategy_default = with_max (word_of_nat DEFAULT_MAX_BUFFER_SIZE)"

section \<open>Powers of two, in numbers\<close>

lemma bit_width_eq: "0 < n \<Longrightarrow> bit_width n = Suc k \<longleftrightarrow> 2 ^ k \<le> n \<and> n < 2 ^ Suc k"
proof (induction n arbitrary: k rule: bit_width.induct)
  case (1 n)
  show ?case
  proof (cases k)
    case 0
    with 1 show ?thesis by (subst bit_width.simps, subst bit_width.simps) auto
  next
    case (Suc j)
    show ?thesis
    proof (cases "n div 2 = 0")
      case True
      then have n: "n = 1" using 1(2) by simp
      have "2 \<le> (2::nat) ^ k" using Suc self_le_power [of "2::nat" k] by simp
      then have "\<not> 2 ^ k \<le> n" using n by linarith
      moreover have "bit_width n \<noteq> Suc k"
        using n Suc by (subst bit_width.simps, subst bit_width.simps) simp
      ultimately show ?thesis by blast
    next
      case False
      have "bit_width n = Suc k \<longleftrightarrow> bit_width (n div 2) = Suc j"
        using 1(2) Suc by (subst bit_width.simps) simp
      also have "\<dots> \<longleftrightarrow> 2 ^ j \<le> n div 2 \<and> n div 2 < 2 ^ Suc j"
        using 1(1) [of j] 1(2) False by simp
      also have "\<dots> \<longleftrightarrow> 2 ^ k \<le> n \<and> n < 2 ^ Suc k" using Suc by auto
      finally show ?thesis .
    qed
  qed
qed

lemma ex_power_bounds: "0 < n \<Longrightarrow> \<exists>k. 2 ^ k \<le> n \<and> n < 2 ^ Suc k" for n :: nat
  using ex_power_ivl1 [of 2 n] by simp

lemma drop_minus_one_u64: "m \<le> 64 \<Longrightarrow> unat (drop_bit m (- 1 :: u64)) = 2 ^ (64 - m) - 1"
  by (simp only: unsigned_drop_bit_eq unsigned_minus_1_eq_mask)
    (simp add: drop_bit_mask_eq, simp add: mask_eq_exp_minus_1)

text \<open>For a size of at least four the result is half of the largest power of two not above it.\<close>

lemma unat_prev_power_of_two:
  assumes "0 < k" "2 ^ Suc k \<le> unat n" "unat n < 2 ^ Suc (Suc k)"
  shows "unat (prev_power_of_two n) = 2 ^ k"
proof -
  have pos: "0 < unat n" using assms(2) by (metis gr0I not_less zero_less_numeral zero_less_power)
  have "2 ^ Suc k < (2 ^ 64 :: nat)" using assms(2) unat_less_u64 [of n] by simp
  then have k: "Suc k < 64" by (simp only: power_strict_increasing_iff)
  have "bit_width (unat n) = Suc (Suc k)" using bit_width_eq [OF pos] assms by blast
  then have "(leading_zeros n + 2) mod 64 = 64 - k" using k assms(1) by (simp add: leading_zeros_def)
  then have d: "unat (drop_bit ((leading_zeros n + 2) mod 64) (- 1 :: u64)) = 2 ^ k - 1"
    using drop_minus_one_u64 [of "64 - k"] k by simp
  moreover have "(2 ^ k :: nat) < 2 ^ 64" using k by (intro power_strict_increasing) simp_all
  ultimately show ?thesis by (simp add: prev_power_of_two_def unat_word_ariths)
qed

lemma prev_power_of_two_bounds:
  assumes "4 \<le> unat n"
  shows "unat (prev_power_of_two n) < unat n" "unat n < 4 * unat (prev_power_of_two n)"
proof -
  from ex_power_bounds [of "unat n"] assms obtain k where k: "2 ^ k \<le> unat n" "unat n < 2 ^ Suc k" by auto
  then have "(2::nat) ^ 2 < 2 ^ Suc k" using assms by simp
  then have "2 < Suc k" by (simp only: power_strict_increasing_iff)
  then obtain j where j: "k = Suc j" "0 < j" by (cases k) auto
  with unat_prev_power_of_two [of j n] k have "unat (prev_power_of_two n) = 2 ^ j" by simp
  with k j show "unat (prev_power_of_two n) < unat n" "unat n < 4 * unat (prev_power_of_two n)"
    by simp_all
qed

section \<open>The strategy stays within its bounds\<close>

text \<open>
  An adaptive strategy always asks for at least the initial size and at most the maximum, which
  \<open>set_max_buf_size\<close> keeps at or above the minimum; an exact one for a positive size.
\<close>

fun strategy_ok :: "read_strategy \<Rightarrow> bool" where
  "strategy_ok (Adaptive _ nxt mx) \<longleftrightarrow>
     INIT_BUFFER_SIZE \<le> unat nxt \<and> unat nxt \<le> unat mx \<and> MINIMUM_MAX_BUFFER_SIZE \<le> unat mx"
| "strategy_ok (Exact n) \<longleftrightarrow> 0 < n"

lemmas size_defs = INIT_BUFFER_SIZE_def MINIMUM_MAX_BUFFER_SIZE_def DEFAULT_MAX_BUFFER_SIZE_def

lemma strategy_ok_with_max: "MINIMUM_MAX_BUFFER_SIZE \<le> unat mx \<Longrightarrow> strategy_ok (with_max mx)"
  by (simp add: with_max_def size_defs)

lemma strategy_ok_default: "strategy_ok strategy_default"
  by (simp add: strategy_default_def strategy_ok_with_max size_defs)

lemma strategy_ok_next: "strategy_ok s \<Longrightarrow> 0 < unat (strategy_next s)"
  by (cases s) (auto simp: size_defs unat_gt_0)

lemma incr_power_of_two_ge: "unat n \<le> unat (incr_power_of_two n)"
  using unat_less_u64 [of n]
  by (auto simp: incr_power_of_two_def saturating_mul_def unat_word_ariths
      unsigned_minus_1_eq_mask mask_eq_exp_minus_1)

lemma strategy_record_ok:
  assumes "strategy_ok s"
  shows "strategy_ok (strategy_record s n) \<and> strategy_max (strategy_record s n) = strategy_max s"
proof (cases s)
  case (Adaptive d nxt mx)
  have "4 \<le> unat nxt" using assms Adaptive by (simp add: size_defs)
  note prev = prev_power_of_two_bounds [OF this]
  show ?thesis
    using assms Adaptive prev incr_power_of_two_ge [of nxt]
    by (auto simp: Let_def min_def max_def size_defs word_le_nat_alt word_less_nat_alt)
qed (use assms in simp)

end
