(* ===== verification/Transport.thy ===== *)
theory Transport
  imports Prelude
begin

text \<open>
  The transport under a connection. The traits \<open>AsyncRead\<close> and \<open>AsyncWrite\<close> of \<open>tokio\<close> are a
  record of operations; their documented contract is the locale \<open>transport_laws\<close>, in which
  \<open>input io\<close> are the bytes that the peer will have sent when it closes its side and \<open>output io\<close>
  the bytes that the transport has accepted so far. \<open>Rewind\<close>
  (\<^verbatim>\<open>src/src/common/io/rewind.rs\<close>) is a transport that first replays a prefix.
\<close>

section \<open>The traits\<close>

record 'io transport =
  io_read :: "'io \<Rightarrow> nat \<Rightarrow> 'io \<times> (io_error + bytes) poll"
  io_write :: "'io \<Rightarrow> bytes \<Rightarrow> 'io \<times> (io_error + nat) poll"
  io_writev :: "'io \<Rightarrow> bytes list \<Rightarrow> 'io \<times> (io_error + nat) poll"
  io_flush :: "'io \<Rightarrow> 'io \<times> (io_error + unit) poll"
  io_shutdown :: "'io \<Rightarrow> 'io \<times> (io_error + unit) poll"
  io_vectored :: "'io \<Rightarrow> bool"

text \<open>
  \<open>io_read IO io n\<close> polls a read into a buffer with room for \<open>n\<close> bytes and returns the bytes
  that were filled in.
\<close>

locale transport_laws =
  fixes IO :: "'io transport"
    and input :: "'io \<Rightarrow> bytes"
    and sent :: "'io \<Rightarrow> bytes"
  assumes read_ok: "io_read IO io n = (io', Ready (Ok bs)) \<Longrightarrow>
      length bs \<le> n \<and> input io = bs @ input io' \<and> sent io' = sent io"
    and read_eof: "io_read IO io n = (io', Ready (Ok [])) \<Longrightarrow> 0 < n \<Longrightarrow> input io = []"
    and read_pending: "io_read IO io n = (io', Pending) \<Longrightarrow> input io' = input io \<and> sent io' = sent io"
    and read_fail: "io_read IO io n = (io', Ready (Err e)) \<Longrightarrow> sent io' = sent io"
    and write_ok: "io_write IO io bs = (io', Ready (Ok n)) \<Longrightarrow>
      n \<le> length bs \<and> sent io' = sent io @ take n bs \<and> input io' = input io"
    and write_stuck: "io_write IO io bs = (io', p) \<Longrightarrow> p = Pending \<or> (\<exists>e. p = Ready (Err e)) \<Longrightarrow>
      sent io' = sent io \<and> input io' = input io"
    and writev_ok: "io_writev IO io bss = (io', Ready (Ok n)) \<Longrightarrow>
      n \<le> length (concat bss) \<and> sent io' = sent io @ take n (concat bss) \<and> input io' = input io"
    and writev_stuck: "io_writev IO io bss = (io', p) \<Longrightarrow> p = Pending \<or> (\<exists>e. p = Ready (Err e)) \<Longrightarrow>
      sent io' = sent io \<and> input io' = input io"
    and flush_keeps: "io_flush IO io = (io', q) \<Longrightarrow> sent io' = sent io \<and> input io' = input io"
    and shutdown_keeps: "io_shutdown IO io = (io', q) \<Longrightarrow> sent io' = sent io"

section \<open>Rewind\<close>

record 'io rewind =
  rw_pre :: "bytes option"
  rw_inner :: 'io

definition rewind_new :: "'io \<Rightarrow> 'io rewind" where
  "rewind_new io = \<lparr>rw_pre = None, rw_inner = io\<rparr>"

definition rewind_new_buffered :: "'io \<Rightarrow> bytes \<Rightarrow> 'io rewind" where
  "rewind_new_buffered io buf = \<lparr>rw_pre = Some buf, rw_inner = io\<rparr>"

definition rewind_rewind :: "'io rewind \<Rightarrow> bytes \<Rightarrow> 'io rewind" where
  "rewind_rewind r bs = r\<lparr>rw_pre := Some bs\<rparr>"

definition rewind_into_inner :: "'io rewind \<Rightarrow> 'io \<times> bytes" where
  "rewind_into_inner r = (rw_inner r, case rw_pre r of Some bs \<Rightarrow> bs | None \<Rightarrow> [])"

text \<open>A call that only reaches the inner transport.\<close>

definition rewind_inner :: "('io \<Rightarrow> 'io \<times> 'p) \<Rightarrow> 'io rewind \<Rightarrow> 'io rewind \<times> 'p" where
  "rewind_inner f r = (case f (rw_inner r) of (io, p) \<Rightarrow> (r\<lparr>rw_inner := io\<rparr>, p))"

definition rewind_poll_read ::
    "'io transport \<Rightarrow> 'io rewind \<Rightarrow> nat \<Rightarrow> 'io rewind \<times> (io_error + bytes) poll" where
  "rewind_poll_read IO r n =
     (case rw_pre r of
        Some prefix \<Rightarrow>
          (if prefix \<noteq> [] then
             (let copy_len = min (length prefix) n;
                  rest = drop copy_len prefix
              in (r\<lparr>rw_pre := if rest \<noteq> [] then Some rest else None\<rparr>, Ready (Ok (take copy_len prefix))))
           else rewind_inner (\<lambda>io. io_read IO io n) (r\<lparr>rw_pre := None\<rparr>))
      | None \<Rightarrow> rewind_inner (\<lambda>io. io_read IO io n) r)"

definition rewind_transport :: "'io transport \<Rightarrow> 'io rewind transport" where
  "rewind_transport IO =
     \<lparr>io_read = rewind_poll_read IO,
      io_write = (\<lambda>r bs. rewind_inner (\<lambda>io. io_write IO io bs) r),
      io_writev = (\<lambda>r bss. rewind_inner (\<lambda>io. io_writev IO io bss) r),
      io_flush = rewind_inner (io_flush IO),
      io_shutdown = rewind_inner (io_shutdown IO),
      io_vectored = (\<lambda>r. io_vectored IO (rw_inner r))\<rparr>"

definition rewind_input :: "('io \<Rightarrow> bytes) \<Rightarrow> 'io rewind \<Rightarrow> bytes" where
  "rewind_input input r = (case rw_pre r of Some bs \<Rightarrow> bs | None \<Rightarrow> []) @ input (rw_inner r)"

text \<open>Rewinding a lawful transport gives a lawful transport: the prefix comes first, then the rest.\<close>

context transport_laws
begin

lemma rewind_laws:
  "transport_laws (rewind_transport IO) (rewind_input input) (\<lambda>r. sent (rw_inner r))"
proof
  fix r n r' bs
  show "io_read (rewind_transport IO) r n = (r', Ready (Ok bs)) \<Longrightarrow>
      length bs \<le> n \<and> rewind_input input r = bs @ rewind_input input r' \<and>
      sent (rw_inner r') = sent (rw_inner r)"
    using read_ok
    by (fastforce simp: rewind_transport_def rewind_poll_read_def rewind_inner_def rewind_input_def
        Let_def split: res_splits)
  show "io_read (rewind_transport IO) r n = (r', Ready (Ok [])) \<Longrightarrow> 0 < n \<Longrightarrow> rewind_input input r = []"
    using read_eof
    by (fastforce simp: rewind_transport_def rewind_poll_read_def rewind_inner_def rewind_input_def
        Let_def split: res_splits)
  show "io_read (rewind_transport IO) r n = (r', Pending) \<Longrightarrow>
      rewind_input input r' = rewind_input input r \<and> sent (rw_inner r') = sent (rw_inner r)"
    using read_pending
    by (fastforce simp: rewind_transport_def rewind_poll_read_def rewind_inner_def rewind_input_def
        Let_def split: res_splits)
next
  fix r :: "'io rewind" and n r' e
  show "io_read (rewind_transport IO) r n = (r', Ready (Err e)) \<Longrightarrow> sent (rw_inner r') = sent (rw_inner r)"
    using read_fail
    by (fastforce simp: rewind_transport_def rewind_poll_read_def rewind_inner_def Let_def split: res_splits)
next
  fix r :: "'io rewind" and bs r' n
  assume "io_write (rewind_transport IO) r bs = (r', Ready (Ok n))"
  with write_ok [of "rw_inner r" bs "rw_inner r'" n]
  show "n \<le> length bs \<and> sent (rw_inner r') = sent (rw_inner r) @ take n bs \<and>
      rewind_input input r' = rewind_input input r"
    by (auto simp: rewind_transport_def rewind_inner_def rewind_input_def split: prod.splits)
next
  fix r :: "'io rewind" and bss r' n
  assume "io_writev (rewind_transport IO) r bss = (r', Ready (Ok n))"
  with writev_ok [of "rw_inner r" bss "rw_inner r'" n]
  show "n \<le> length (concat bss) \<and> sent (rw_inner r') = sent (rw_inner r) @ take n (concat bss) \<and>
      rewind_input input r' = rewind_input input r"
    by (auto simp: rewind_transport_def rewind_inner_def rewind_input_def split: prod.splits)
next
  fix r :: "'io rewind" and bs r' p
  assume "io_write (rewind_transport IO) r bs = (r', p)" "p = Pending \<or> (\<exists>e. p = Ready (Err e))"
  with write_stuck [of "rw_inner r" bs "rw_inner r'" p]
  show "sent (rw_inner r') = sent (rw_inner r) \<and> rewind_input input r' = rewind_input input r"
    by (auto simp: rewind_transport_def rewind_inner_def rewind_input_def split: prod.splits)
next
  fix r :: "'io rewind" and bss r' p
  assume "io_writev (rewind_transport IO) r bss = (r', p)" "p = Pending \<or> (\<exists>e. p = Ready (Err e))"
  with writev_stuck [of "rw_inner r" bss "rw_inner r'" p]
  show "sent (rw_inner r') = sent (rw_inner r) \<and> rewind_input input r' = rewind_input input r"
    by (auto simp: rewind_transport_def rewind_inner_def rewind_input_def split: prod.splits)
next
  fix r :: "'io rewind" and r' p
  show "io_flush (rewind_transport IO) r = (r', p) \<Longrightarrow>
      sent (rw_inner r') = sent (rw_inner r) \<and> rewind_input input r' = rewind_input input r"
    using flush_keeps [of "rw_inner r" "rw_inner r'" p]
    by (auto simp: rewind_transport_def rewind_inner_def rewind_input_def split: prod.splits)
  show "io_shutdown (rewind_transport IO) r = (r', p) \<Longrightarrow> sent (rw_inner r') = sent (rw_inner r)"
    using shutdown_keeps [of "rw_inner r" "rw_inner r'" p]
    by (auto simp: rewind_transport_def rewind_inner_def split: prod.splits)
qed

end

section \<open>A scripted transport\<close>

text \<open>
  A transport that plays a script: every read event is a packet or a wait, and every write accepts
  at most \<open>sc_window\<close> bytes, or waits when that is none. It shows that the contract can be met.
\<close>

record script =
  sc_in :: "bytes option list"
  sc_out :: bytes
  sc_window :: nat

fun script_read :: "script \<Rightarrow> nat \<Rightarrow> script \<times> (io_error + bytes) poll" where
  "script_read io n =
     (case sc_in io of
        [] \<Rightarrow> (io, Ready (Ok []))
      | None # rest \<Rightarrow> (io\<lparr>sc_in := rest\<rparr>, Pending)
      | Some bs # rest \<Rightarrow>
          (if bs = [] then (io\<lparr>sc_in := rest\<rparr>, Pending)
           else if length bs \<le> n then (io\<lparr>sc_in := rest\<rparr>, Ready (Ok bs))
           else (io\<lparr>sc_in := Some (drop n bs) # rest\<rparr>, Ready (Ok (take n bs)))))"

definition script_write :: "script \<Rightarrow> bytes \<Rightarrow> script \<times> (io_error + nat) poll" where
  "script_write io bs =
     (if sc_window io = 0 then (io, Pending)
      else let n = min (sc_window io) (length bs)
           in (io\<lparr>sc_out := sc_out io @ take n bs\<rparr>, Ready (Ok n)))"

definition script_transport :: "script transport" where
  "script_transport =
     \<lparr>io_read = script_read, io_write = script_write,
      io_writev = (\<lambda>io bss. script_write io (concat bss)),
      io_flush = (\<lambda>io. (io, Ready (Ok ()))), io_shutdown = (\<lambda>io. (io, Ready (Ok ()))),
      io_vectored = (\<lambda>_. True)\<rparr>"

definition script_input :: "script \<Rightarrow> bytes" where
  "script_input io = concat (map (\<lambda>p. case p of Some bs \<Rightarrow> bs | None \<Rightarrow> []) (sc_in io))"

interpretation script: transport_laws script_transport script_input sc_out
  by unfold_locales
    (auto simp: script_transport_def script_write_def script_input_def Let_def
      split: list.splits option.splits if_splits)

interpretation rewound: transport_laws "rewind_transport script_transport"
    "rewind_input script_input" "\<lambda>r. sc_out (rw_inner r)"
  by (rule script.rewind_laws)

end
