(* ===== verification/Buffered.thy ===== *)
theory Buffered
  imports Read_Strategy Transport Errors Http_Types Decode
begin

text \<open>
  The buffered transport of an HTTP/1 connection (\<open>Buffered\<close> of \<^verbatim>\<open>src/src/proto/h1/io.rs\<close>): the
  read buffer with its adaptive strategy, the loop that reads a message head, the reader that the
  body decoder uses, and flushing. \<open>spare io buf n\<close> is the room that the read buffer has after it
  reserved \<open>n\<close> bytes, which is up to the allocator. The clock of the runtime is the record
  \<open>runtime\<close>.
\<close>

section \<open>State and construction\<close>

record ('io, 'b) buffered =
  flush_pipeline :: bool
  b_io :: 'io
  read_blocked :: bool
  read_buf :: bytes
  read_buf_strategy :: read_strategy
  write_buf :: "'b write_buf"

definition buffered_new :: "'io transport \<Rightarrow> 'io \<Rightarrow> ('io, 'b) buffered" where
  "buffered_new IO io =
     \<lparr>flush_pipeline = False, b_io = io, read_blocked = False, read_buf = [],
      read_buf_strategy = strategy_default,
      write_buf = write_buf_new (if io_vectored IO io then Queue else Flatten)\<rparr>"

definition set_write_strategy_flatten :: "('io, 'b) buffered \<Rightarrow> ('io, 'b) buffered" where
  "set_write_strategy_flatten b = b\<lparr>write_buf := set_strategy (write_buf b) Flatten\<rparr>"

definition set_write_strategy_queue :: "('io, 'b) buffered \<Rightarrow> ('io, 'b) buffered" where
  "set_write_strategy_queue b = b\<lparr>write_buf := set_strategy (write_buf b) Queue\<rparr>"

definition set_flush_pipeline :: "('io, 'b) buffered \<Rightarrow> bool \<Rightarrow> ('io, 'b) buffered" where
  "set_flush_pipeline b enabled =
     (let b = b\<lparr>flush_pipeline := enabled\<rparr>
      in if enabled then set_write_strategy_flatten b else b)"

definition set_max_buf_size :: "('io, 'b) buffered \<Rightarrow> u64 \<Rightarrow> ('io, 'b) buffered option" where
  "set_max_buf_size b mx =
     (if unat mx \<ge> MINIMUM_MAX_BUFFER_SIZE
      then Some (b\<lparr>read_buf_strategy := with_max mx,
                   write_buf := (write_buf b)\<lparr>wb_max_buf_size := unat mx\<rparr>\<rparr>)
      else None)"

definition set_read_buf_exact_size :: "('io, 'b) buffered \<Rightarrow> u64 \<Rightarrow> ('io, 'b) buffered" where
  "set_read_buf_exact_size b sz = b\<lparr>read_buf_strategy := Exact sz\<rparr>"

definition can_headers_buf :: "'b buf_ops \<Rightarrow> ('io, 'b) buffered \<Rightarrow> bool" where
  "can_headers_buf B b \<longleftrightarrow> \<not> 0 < buf_list_remaining B (wb_queue (write_buf b))"

text \<open>\<open>headers_buf\<close> hands out the vector behind the headers cursor.\<close>

definition headers_buf :: "('io, 'b) buffered \<Rightarrow> bytes" where
  "headers_buf b = cur_bytes (wb_headers (write_buf b))"

definition set_headers_buf :: "('io, 'b) buffered \<Rightarrow> bytes \<Rightarrow> ('io, 'b) buffered" where
  "set_headers_buf b bs =
     b\<lparr>write_buf := (write_buf b)\<lparr>wb_headers := (wb_headers (write_buf b))\<lparr>cur_bytes := bs\<rparr>\<rparr>\<rparr>"

definition buffered_buffer ::
    "(bytes \<Rightarrow> nat) \<Rightarrow> 'bb buf_ops \<Rightarrow> ('bb \<Rightarrow> 'b) \<Rightarrow> ('io, 'b) buffered \<Rightarrow> 'bb \<Rightarrow> ('io, 'b) buffered option" where
  "buffered_buffer cap BB into b buf =
     map_option (\<lambda>w. b\<lparr>write_buf := w\<rparr>) (write_buf_buffer cap BB into (write_buf b) buf)"

definition can_buffer :: "'b buf_ops \<Rightarrow> ('io, 'b) buffered \<Rightarrow> bool" where
  "can_buffer B b \<longleftrightarrow> flush_pipeline b \<or> write_buf_can_buffer B (write_buf b)"

fun leading_lines :: "bytes \<Rightarrow> nat" where
  "leading_lines [] = 0"
| "leading_lines (c # cs) = (if c = CR \<or> c = LF then Suc (leading_lines cs) else 0)"

definition consume_leading_lines :: "('io, 'b) buffered \<Rightarrow> ('io, 'b) buffered" where
  "consume_leading_lines b =
     (if read_buf b \<noteq> [] then b\<lparr>read_buf := drop (leading_lines (read_buf b)) (read_buf b)\<rparr> else b)"

definition buffered_into_inner :: "('io, 'b) buffered \<Rightarrow> 'io \<times> bytes" where
  "buffered_into_inner b = (b_io b, read_buf b)"

section \<open>Reading\<close>

definition poll_read_from_io ::
    "'io transport \<Rightarrow> ('io \<Rightarrow> bytes \<Rightarrow> nat \<Rightarrow> nat) \<Rightarrow> ('io, 'b) buffered
     \<Rightarrow> ('io, 'b) buffered \<times> (io_error + nat) poll" where
  "poll_read_from_io IO spare b =
     (let b = b\<lparr>read_blocked := False\<rparr>;
          room = spare (b_io b) (read_buf b) (unat (strategy_next (read_buf_strategy b)))
      in case io_read IO (b_io b) room of
           (io', Ready (Ok bs)) \<Rightarrow>
             (b\<lparr>b_io := io', read_buf := read_buf b @ bs,
                read_buf_strategy := strategy_record (read_buf_strategy b) (word_of_nat (length bs))\<rparr>,
              Ready (Ok (length bs)))
         | (io', Pending) \<Rightarrow> (b\<lparr>b_io := io', read_blocked := True\<rparr>, Pending)
         | (io', Ready (Err e)) \<Rightarrow> (b\<lparr>b_io := io'\<rparr>, Ready (Err e)))"

text \<open>\<open>MemRead for Buffered\<close>, the reader of the body decoder.\<close>

definition buffered_read_mem ::
    "'io transport \<Rightarrow> ('io \<Rightarrow> bytes \<Rightarrow> nat \<Rightarrow> nat) \<Rightarrow> ('io, 'b) buffered mem_reader" where
  "buffered_read_mem IO spare b len =
     (if read_buf b \<noteq> [] then
        (let n = min len (length (read_buf b))
         in (b\<lparr>read_buf := drop n (read_buf b)\<rparr>, Ready (Ok (take n (read_buf b)))))
      else case poll_read_from_io IO spare b of
             (b', Pending) \<Rightarrow> (b', Pending)
           | (b', Ready (Err e)) \<Rightarrow> (b', Ready (Err e))
           | (b', Ready (Ok n)) \<Rightarrow>
               (let k = min len n
                in (b'\<lparr>read_buf := drop k (read_buf b')\<rparr>, Ready (Ok (take k (read_buf b'))))))"

section \<open>Reading a message head\<close>

text \<open>The clock: the current instant, and whether a \<open>Sleep\<close> with the given deadline is ready.\<close>

record runtime =
  rt_now :: nat
  rt_elapsed :: "nat \<Rightarrow> bool"

text \<open>
  \<open>Buffered::parse\<close>. \<open>parse_headers\<close> is \<open>role::parse_headers::<S>\<close> of the role at hand, from the
  context and the read buffer to both updated and its result.
\<close>

partial_function (option) buffered_parse ::
    "'io transport \<Rightarrow> ('io \<Rightarrow> bytes \<Rightarrow> nat \<Rightarrow> nat) \<Rightarrow> runtime
     \<Rightarrow> (('hm, 'cfg) parse_ctx \<Rightarrow> bytes \<Rightarrow> (('hm, 'cfg) parse_ctx \<times> bytes \<times> (parse + 'm option)) option)
     \<Rightarrow> ('io, 'b) buffered \<Rightarrow> ('hm, 'cfg) parse_ctx
     \<Rightarrow> (('io, 'b) buffered \<times> ('hm, 'cfg) parse_ctx \<times> (error + 'm) poll) option" where
  "buffered_parse IO spare rt parse_headers b ctx =
     (case parse_headers ctx (read_buf b) of
        None \<Rightarrow> None
      | Some (ctx, buf, res) \<Rightarrow>
          let b = b\<lparr>read_buf := buf\<rparr>
          in case res of
               Err e \<Rightarrow> Some (b, ctx, Ready (Err (error_of_parse e)))
             | Ok (Some msg) \<Rightarrow>
                 Some (b, ctx\<lparr>h1_header_read_timeout_running := False,
                              h1_header_read_timeout_fut :=
                                map_option (\<lambda>_. rt_now rt + 30 * 24 * 60 * 60)
                                  (h1_header_read_timeout_fut ctx)\<rparr>,
                       Ready (Ok msg))
             | Ok None \<Rightarrow>
                 if length (read_buf b) \<ge> unat (strategy_max (read_buf_strategy b))
                 then Some (b, ctx, Ready (Err new_too_large))
                 else if h1_header_read_timeout_running ctx \<and>
                   (case h1_header_read_timeout_fut ctx of Some d \<Rightarrow> rt_elapsed rt d | None \<Rightarrow> False)
                 then Some (b, ctx\<lparr>h1_header_read_timeout_running := False\<rparr>, Ready (Err new_header_timeout))
                 else case poll_read_from_io IO spare b of
                        (b, Pending) \<Rightarrow> Some (b, ctx, Pending)
                      | (b, Ready (Err e)) \<Rightarrow> Some (b, ctx, Ready (Err (new_io e)))
                      | (b, Ready (Ok n)) \<Rightarrow>
                          if n = 0 then Some (b, ctx, Ready (Err new_incomplete))
                          else buffered_parse IO spare rt parse_headers b ctx)"

section \<open>Flushing\<close>

definition write_zero :: io_error where
  "write_zero = IoError WriteZero ''write zero''"

definition MAX_WRITEV_BUFS :: nat where "MAX_WRITEV_BUFS = 64"

text \<open>The loop of \<open>poll_flush\<close> for queued buffers.\<close>

partial_function (option) flush_queue_loop ::
    "'io transport \<Rightarrow> 'b buf_ops \<Rightarrow> (cursor \<Rightarrow> nat \<Rightarrow> bytes list) \<Rightarrow> ('b \<Rightarrow> nat \<Rightarrow> bytes list)
     \<Rightarrow> ('io, 'b) buffered \<Rightarrow> (('io, 'b) buffered \<times> (io_error + unit) poll) option" where
  "flush_queue_loop IO B cvec vec b =
     (case io_writev IO (b_io b) (write_buf_chunks_vectored cvec vec (write_buf b) MAX_WRITEV_BUFS) of
        (io', Pending) \<Rightarrow> Some (b\<lparr>b_io := io'\<rparr>, Pending)
      | (io', Ready (Err e)) \<Rightarrow> Some (b\<lparr>b_io := io'\<rparr>, Ready (Err e))
      | (io', Ready (Ok n)) \<Rightarrow> do {
          w \<leftarrow> write_buf_advance B (write_buf b) n;
          let b = b\<lparr>b_io := io', write_buf := w\<rparr>;
          if write_buf_remaining B w = 0 then Some (b, Ready (Ok ()))
          else if n = 0 then Some (b, Ready (Err write_zero))
          else flush_queue_loop IO B cvec vec b })"

text \<open>The loop of \<open>poll_flush_flattened\<close>.\<close>

partial_function (option) flush_flat_loop ::
    "'io transport \<Rightarrow> ('io, 'b) buffered \<Rightarrow> (('io, 'b) buffered \<times> (io_error + unit) poll) option" where
  "flush_flat_loop IO b =
     (case io_write IO (b_io b) (cursor_chunk (wb_headers (write_buf b))) of
        (io', Pending) \<Rightarrow> Some (b\<lparr>b_io := io'\<rparr>, Pending)
      | (io', Ready (Err e)) \<Rightarrow> Some (b\<lparr>b_io := io'\<rparr>, Ready (Err e))
      | (io', Ready (Ok n)) \<Rightarrow>
          let hs = cursor_advance (wb_headers (write_buf b)) n;
              b = b\<lparr>b_io := io', write_buf := (write_buf b)\<lparr>wb_headers := hs\<rparr>\<rparr>
          in if cursor_remaining hs = 0
             then Some (b\<lparr>write_buf := (write_buf b)\<lparr>wb_headers := cursor_reset hs\<rparr>\<rparr>, Ready (Ok ()))
             else if n = 0 then Some (b, Ready (Err write_zero))
             else flush_flat_loop IO b)"

declare buffered_parse.simps [code] flush_queue_loop.simps [code] flush_flat_loop.simps [code]

definition flush_io :: "'io transport \<Rightarrow> ('io, 'b) buffered \<Rightarrow> ('io, 'b) buffered \<times> (io_error + unit) poll" where
  "flush_io IO b = (case io_flush IO (b_io b) of (io', p) \<Rightarrow> (b\<lparr>b_io := io'\<rparr>, p))"

definition poll_flush_flattened ::
    "'io transport \<Rightarrow> ('io, 'b) buffered \<Rightarrow> (('io, 'b) buffered \<times> (io_error + unit) poll) option" where
  "poll_flush_flattened IO b =
     (case flush_flat_loop IO b of
        Some (b, Ready (Ok _)) \<Rightarrow> Some (flush_io IO b)
      | other \<Rightarrow> other)"

definition buffered_poll_flush ::
    "'io transport \<Rightarrow> 'b buf_ops \<Rightarrow> (cursor \<Rightarrow> nat \<Rightarrow> bytes list) \<Rightarrow> ('b \<Rightarrow> nat \<Rightarrow> bytes list)
     \<Rightarrow> ('io, 'b) buffered \<Rightarrow> (('io, 'b) buffered \<times> (io_error + unit) poll) option" where
  "buffered_poll_flush IO B cvec vec b =
     (if flush_pipeline b \<and> read_buf b \<noteq> [] then Some (b, Ready (Ok ()))
      else if write_buf_remaining B (write_buf b) = 0 then Some (flush_io IO b)
      else case wb_strategy (write_buf b) of
             Flatten \<Rightarrow> poll_flush_flattened IO b
           | Queue \<Rightarrow>
               (case flush_queue_loop IO B cvec vec b of
                  Some (b, Ready (Ok _)) \<Rightarrow> Some (flush_io IO b)
                | other \<Rightarrow> other))"

section \<open>The reader delivers the stream\<close>

definition buffered_stream :: "('io \<Rightarrow> bytes) \<Rightarrow> ('io, 'b) buffered \<Rightarrow> bytes" where
  "buffered_stream input b = read_buf b @ input (b_io b)"

definition buffered_ok :: "('io, 'b) buffered \<Rightarrow> bool" where
  "buffered_ok b \<longleftrightarrow> strategy_ok (read_buf_strategy b)"

text \<open>\<open>BytesMut::reserve\<close> leaves room for at least the requested number of bytes.\<close>

definition spare_ok :: "('io \<Rightarrow> bytes \<Rightarrow> nat \<Rightarrow> nat) \<Rightarrow> bool" where
  "spare_ok spare \<longleftrightarrow> (\<forall>io buf n. n \<le> spare io buf n)"

lemma strategy_max_record [simp]: "strategy_max (strategy_record s n) = strategy_max s"
  by (cases s) (simp_all add: Let_def)

lemma poll_read_from_io_frame:
  assumes "poll_read_from_io IO spare b = (b', p)"
  shows "write_buf b' = write_buf b \<and> flush_pipeline b' = flush_pipeline b \<and>
    read_blocked b' = (p = Pending) \<and>
    strategy_max (read_buf_strategy b') = strategy_max (read_buf_strategy b)"
  using assms by (auto simp: poll_read_from_io_def Let_def split: res_splits)

context transport_laws
begin

lemma poll_read_from_io_spec:
  assumes "spare_ok spare" "buffered_ok b" "poll_read_from_io IO spare b = (b', p)"
  shows "buffered_ok b'"
    and "p = Pending \<Longrightarrow> read_buf b' = read_buf b \<and> input (b_io b') = input (b_io b)"
    and "p = Ready (Ok n) \<Longrightarrow> \<exists>bs. length bs = n \<and> read_buf b' = read_buf b @ bs \<and>
           input (b_io b) = bs @ input (b_io b') \<and> (n = 0 \<longrightarrow> input (b_io b) = [])"
    and "p = Ready (Err e) \<Longrightarrow> read_buf b' = read_buf b"
proof -
  let ?room = "spare (b_io b) (read_buf b) (unat (strategy_next (read_buf_strategy b)))"
  have room: "0 < ?room"
    using assms(1,2) strategy_ok_next [of "read_buf_strategy b"]
    by (auto simp: spare_ok_def buffered_ok_def intro: less_le_trans)
  show "buffered_ok b'"
    using assms(2,3) strategy_record_ok
    by (auto simp: poll_read_from_io_def buffered_ok_def Let_def split: res_splits)
  show "p = Pending \<Longrightarrow> read_buf b' = read_buf b \<and> input (b_io b') = input (b_io b)"
    using assms(3) read_pending
    by (auto simp: poll_read_from_io_def Let_def split: res_splits)
  show "p = Ready (Ok n) \<Longrightarrow> \<exists>bs. length bs = n \<and> read_buf b' = read_buf b @ bs \<and>
           input (b_io b) = bs @ input (b_io b') \<and> (n = 0 \<longrightarrow> input (b_io b) = [])"
    using assms(3) read_ok [of "b_io b" ?room "b_io b'"] read_eof [of "b_io b" ?room "b_io b'"] room
    by (auto simp: poll_read_from_io_def Let_def split: res_splits)
  show "p = Ready (Err e) \<Longrightarrow> read_buf b' = read_buf b"
    using assms(3) by (auto simp: poll_read_from_io_def Let_def split: res_splits)
qed

lemma buffered_mem_stream:
  assumes "spare_ok spare"
  shows "mem_stream (buffered_read_mem IO spare) (buffered_stream input) buffered_ok"
proof
  fix b b' n bs
  note spec = poll_read_from_io_spec [OF assms]
  show "buffered_read_mem IO spare b n = (b', Ready (Ok bs)) \<Longrightarrow> length bs \<le> n"
    by (auto simp: buffered_read_mem_def Let_def split: res_splits)
  assume ok: "buffered_ok b"
  show "buffered_stream input b = bs @ buffered_stream input b' \<and> buffered_ok b'"
    if "buffered_read_mem IO spare b n = (b', Ready (Ok bs))"
    using that ok spec(1) [OF ok] spec(3) [OF ok]
    by (fastforce simp: buffered_read_mem_def buffered_stream_def buffered_ok_def Let_def
        split: res_splits)
  show "buffered_stream input b = []" if "buffered_read_mem IO spare b n = (b', Ready (Ok []))" "0 < n"
  proof (cases "read_buf b")
    case Nil
    with that obtain b1 m where "poll_read_from_io IO spare b = (b1, Ready (Ok m))"
      "take (min n m) (read_buf b1) = []"
      by (auto simp: buffered_read_mem_def Let_def split: res_splits)
    with spec(3) [OF ok this(1) refl] Nil that(2) show ?thesis by (auto simp: buffered_stream_def min_def split: if_splits)
  qed (use that in \<open>auto simp: buffered_read_mem_def Let_def\<close>)
  show "buffered_stream input b' = buffered_stream input b \<and> buffered_ok b'"
    if "buffered_read_mem IO spare b n = (b', Pending)"
    using that spec(1) [OF ok] spec(2) [OF ok]
    by (fastforce simp: buffered_read_mem_def buffered_stream_def Let_def split: res_splits)
qed

end

section \<open>Flushing loses nothing and keeps the order\<close>

text \<open>
  What the peer has been given and what is still buffered, in this order; and the relation between
  the states before and after a flush, in which this sequence, the read side and the strategies
  are unchanged.
\<close>

definition pipe :: "('io \<Rightarrow> bytes) \<Rightarrow> ('b \<Rightarrow> bytes) \<Rightarrow> ('io, 'b) buffered \<Rightarrow> bytes" where
  "pipe sent content b = sent (b_io b) @ wb_content content (write_buf b)"

definition same_read :: "('io \<Rightarrow> bytes) \<Rightarrow> ('io, 'b) buffered \<Rightarrow> ('io, 'b) buffered \<Rightarrow> bool" where
  "same_read input b b' \<longleftrightarrow> read_buf b' = read_buf b \<and> input (b_io b') = input (b_io b) \<and>
     read_buf_strategy b' = read_buf_strategy b \<and> flush_pipeline b' = flush_pipeline b \<and>
     read_blocked b' = read_blocked b"

lemma write_buf_advance_strategy: "write_buf_advance B w n = Some w' \<Longrightarrow> wb_strategy w' = wb_strategy w"
  by (auto simp: write_buf_advance_def Let_def split: if_splits)

text \<open>
  The environment of a flush: a lawful transport, lawful queued buffers, and scatter views that
  list every unread byte.
\<close>

locale flush_env = transport_laws IO input sent + buf_laws B content ok
  for IO :: "'io transport" and input sent and B :: "'b buf_ops" and content ok +
  fixes cvec :: "cursor \<Rightarrow> nat \<Rightarrow> bytes list"
    and vec :: "'b \<Rightarrow> nat \<Rightarrow> bytes list"
  assumes cvec: "vec_ok cvec cursor_chunk"
    and vec: "vec_ok vec content"
begin

definition flushed_from :: "('io, 'b) buffered \<Rightarrow> ('io, 'b) buffered \<Rightarrow> bool" where
  "flushed_from b b' \<longleftrightarrow> pipe sent content b' = pipe sent content b \<and>
     wb_ok content ok (write_buf b') \<and> same_read input b b' \<and>
     wb_strategy (write_buf b') = wb_strategy (write_buf b)"

lemma flushed_from_trans: "flushed_from b c \<Longrightarrow> flushed_from c d \<Longrightarrow> flushed_from b d"
  by (simp add: flushed_from_def same_read_def)

lemma flushed_from_io:
  "wb_ok content ok (write_buf b) \<Longrightarrow> sent io' = sent (b_io b) \<Longrightarrow> input io' = input (b_io b) \<Longrightarrow>
   flushed_from b (b\<lparr>b_io := io'\<rparr>)"
  by (simp add: flushed_from_def pipe_def same_read_def)

lemma flush_queue_loop_ok:
  assumes "wb_ok content ok (write_buf b)"
  shows "\<exists>b' p. flush_queue_loop IO B cvec vec b = Some (b', p) \<and> flushed_from b b' \<and>
      (p = Ready (Ok ()) \<longrightarrow> wb_content content (write_buf b') = [])"
  using assms
proof (induction "length (wb_content content (write_buf b))" arbitrary: b rule: less_induct)
  case less
  let ?bss = "write_buf_chunks_vectored cvec vec (write_buf b) MAX_WRITEV_BUFS"
  obtain io' p where w: "io_writev IO (b_io b) ?bss = (io', p)" by fastforce
  show ?case
  proof (cases "\<exists>n. p = Ready (Ok n)")
    case False
    with writev_stuck [OF w] have "sent io' = sent (b_io b)" "input io' = input (b_io b)"
      by (metis poll.exhaust sum.exhaust)+
    from flushed_from_io [OF less.prems this] False w show ?thesis
      by (subst flush_queue_loop.simps) (auto split: poll.splits sum.splits)
  next
    case True
    then obtain n where n: "p = Ready (Ok n)" by blast
    obtain rest where rest: "wb_content content (write_buf b) = concat ?bss @ rest"
      using vec_okD(3) [OF write_buf_vec_ok [OF cvec vec]] by blast
    from writev_ok w n have io': "n \<le> length (concat ?bss)"
      "sent io' = sent (b_io b) @ take n (concat ?bss)" "input io' = input (b_io b)" by blast+
    with rest write_buf_advance_ok [OF less.prems, of n] obtain w' where
      w': "write_buf_advance B (write_buf b) n = Some w'" "wb_ok content ok w'"
        "wb_content content w' = drop n (wb_content content (write_buf b))" by auto
    let ?b = "b\<lparr>b_io := io', write_buf := w'\<rparr>"
    have fl: "flushed_from b ?b"
      using io' w' rest write_buf_advance_strategy [OF w'(1)]
      by (simp add: flushed_from_def pipe_def same_read_def)
    have rem: "write_buf_remaining B w' = length (wb_content content w')"
      by (rule write_buf_remaining_eq [OF w'(2)])
    show ?thesis
    proof (cases "write_buf_remaining B w' = 0 \<or> n = 0")
      case True
      with w n w'(1) fl rem show ?thesis by (subst flush_queue_loop.simps) (auto simp: Let_def)
    next
      case False
      then have "length (wb_content content (write_buf ?b)) < length (wb_content content (write_buf b))"
        using w'(3) rem by auto
      from less.hyps [OF this] w'(2) obtain b' q where
        "flush_queue_loop IO B cvec vec ?b = Some (b', q)" "flushed_from ?b b'"
        "q = Ready (Ok ()) \<longrightarrow> wb_content content (write_buf b') = []" by auto
      with False w n w'(1) flushed_from_trans [OF fl] show ?thesis
        by (subst flush_queue_loop.simps) (auto simp: Let_def)
    qed
  qed
qed

lemma flush_flat_loop_ok:
  assumes "wb_ok content ok (write_buf b)" "wb_strategy (write_buf b) = Flatten"
  shows "\<exists>b' p. flush_flat_loop IO b = Some (b', p) \<and> flushed_from b b' \<and>
      (p = Ready (Ok ()) \<longrightarrow> wb_content content (write_buf b') = [])"
  using assms
proof (induction "cursor_remaining (wb_headers (write_buf b))" arbitrary: b rule: less_induct)
  case less
  let ?hs = "wb_headers (write_buf b)"
  have c: "cursor_ok ?hs" and q: "bufs (wb_queue (write_buf b)) = []"
    using less.prems by (simp_all add: wb_ok_def)
  obtain io' p where w: "io_write IO (b_io b) (cursor_chunk ?hs) = (io', p)" by fastforce
  show ?case
  proof (cases "\<exists>n. p = Ready (Ok n)")
    case False
    with write_stuck [OF w] have "sent io' = sent (b_io b)" "input io' = input (b_io b)"
      by (metis poll.exhaust sum.exhaust)+
    from flushed_from_io [OF less.prems(1) this] False w show ?thesis
      by (subst flush_flat_loop.simps) (auto split: poll.splits sum.splits)
  next
    case True
    then obtain n where n: "p = Ready (Ok n)" by blast
    from write_ok w n have io': "n \<le> length (cursor_chunk ?hs)"
      "sent io' = sent (b_io b) @ take n (cursor_chunk ?hs)" "input io' = input (b_io b)" by blast+
    let ?b = "b\<lparr>b_io := io', write_buf := (write_buf b)\<lparr>wb_headers := cursor_advance ?hs n\<rparr>\<rparr>"
    have ok': "cursor_ok (cursor_advance ?hs n)" and dr: "cursor_chunk (cursor_advance ?hs n) = drop n (cursor_chunk ?hs)"
      using io'(1) c by (auto simp: cursor_defs add.commute)
    have fl: "flushed_from b ?b"
      using io' ok' dr less.prems(1) by (simp add: flushed_from_def pipe_def same_read_def wb_content_def wb_ok_def)
    show ?thesis
    proof (cases "cursor_remaining (cursor_advance ?hs n) = 0")
      case True
      then have "cursor_chunk (cursor_advance ?hs n) = []" by (simp add: cursor_defs)
      with True w n fl q ok' show ?thesis
        by (subst flush_flat_loop.simps)
          (auto simp: flushed_from_def pipe_def same_read_def wb_content_def wb_ok_def list_content_def
            cursor_defs)
    next
      case rem: False
      show ?thesis
      proof (cases "n = 0")
        case True
        with rem w n fl show ?thesis by (subst flush_flat_loop.simps) (auto simp: Let_def)
      next
        case False
        with rem have "cursor_remaining (wb_headers (write_buf ?b)) < cursor_remaining ?hs"
          by (simp add: cursor_defs)
        from less.hyps [OF this] fl less.prems(2) obtain b' q where
          "flush_flat_loop IO ?b = Some (b', q)" "flushed_from ?b b'"
          "q = Ready (Ok ()) \<longrightarrow> wb_content content (write_buf b') = []"
          by (auto simp: flushed_from_def)
        with False rem w n flushed_from_trans [OF fl] show ?thesis
          by (subst flush_flat_loop.simps) (auto simp: Let_def)
      qed
    qed
  qed
qed

lemma flush_io_ok:
  assumes "wb_ok content ok (write_buf b)" "flush_io IO b = (b', p)"
  shows "flushed_from b b' \<and> write_buf b' = write_buf b"
proof -
  obtain io' where "io_flush IO (b_io b) = (io', p)" "b' = b\<lparr>b_io := io'\<rparr>"
    using assms(2) by (auto simp: flush_io_def split: prod.splits)
  with flush_keeps flushed_from_io [OF assms(1)] show ?thesis by auto
qed

text \<open>
  \<open>poll_flush\<close> always returns. It neither loses, repeats nor reorders a byte, whatever the transport
  accepts, and when it reports success nothing is left, unless the flush was put off because a
  pipelined request is already buffered.
\<close>

lemma poll_flush_ok:
  assumes "wb_ok content ok (write_buf b)"
  shows "\<exists>b' p. buffered_poll_flush IO B cvec vec b = Some (b', p) \<and> flushed_from b b' \<and>
      (p = Ready (Ok ()) \<longrightarrow> wb_content content (write_buf b') = [] \<or>
         flush_pipeline b \<and> read_buf b \<noteq> [] \<and> b' = b)"
proof -
  consider "flush_pipeline b \<and> read_buf b \<noteq> []"
    | "\<not> (flush_pipeline b \<and> read_buf b \<noteq> [])" "write_buf_remaining B (write_buf b) = 0"
    | "\<not> (flush_pipeline b \<and> read_buf b \<noteq> [])" "write_buf_remaining B (write_buf b) \<noteq> 0"
    by blast
  then show ?thesis
  proof cases
    case 1
    with assms show ?thesis
      by (auto simp: buffered_poll_flush_def flushed_from_def same_read_def)
  next
    case 2
    obtain b' p where f: "flush_io IO b = (b', p)" by fastforce
    with 2 flush_io_ok [OF assms f] write_buf_remaining_eq [OF assms] show ?thesis
      by (auto simp: buffered_poll_flush_def)
  next
    case 3
    let ?loop = "case wb_strategy (write_buf b) of
        Flatten \<Rightarrow> flush_flat_loop IO b | Queue \<Rightarrow> flush_queue_loop IO B cvec vec b"
    from assms flush_queue_loop_ok flush_flat_loop_ok obtain b1 p1 where
      l: "?loop = Some (b1, p1)" "flushed_from b b1"
        "p1 = Ready (Ok ()) \<longrightarrow> wb_content content (write_buf b1) = []"
      by (cases "wb_strategy (write_buf b)"; fastforce)
    obtain b' p where f: "flush_io IO b1 = (b', p)" by fastforce
    from l(2) have "wb_ok content ok (write_buf b1)" by (simp add: flushed_from_def)
    from flush_io_ok [OF this f] l flushed_from_trans [OF l(2)] 3 f show ?thesis
      by (cases "wb_strategy (write_buf b)")
        (auto simp: buffered_poll_flush_def poll_flush_flattened_def
          split: poll.splits sum.splits)
  qed
qed

end

end
