(* ===== verification/Role_Common.thy ===== *)
theory Role_Common
  imports Headers Encode Buffered
begin

text \<open>
  What the two roles of \<^verbatim>\<open>src/src/proto/h1/role.rs\<close> share: the interface of the \<open>httparse\<close> crate,
  \<open>parse_headers\<close> with its header-read timer, the byte ranges of the parsed headers, and the
  functions that write header names and header blocks.
\<close>

section \<open>The interface of httparse\<close>

text \<open>
  \<open>httparse\<close> is not part of the repository: its two entry points are the record \<open>httparse\<close>, passed
  as the argument \<open>P\<close>. A parsed header refers to its name and its value by offset and length in
  the parsed bytes. The contract \<open>httparse_ok\<close> is that a complete parse has consumed a non-empty
  part of the input, has all its fields and at most as many headers as there is room for, and
  that every header lies within the consumed part.
\<close>

datatype hp_header = HpHeader (hp_name: "nat \<times> nat") (hp_value: "nat \<times> nat")

datatype hp_status = Complete nat | Partial

record hp_request =
  hq_method :: "bytes option"
  hq_path :: "bytes option"
  hq_version :: "nat option"
  hq_headers :: "hp_header list"

record hp_response =
  hr_version :: "nat option"
  hr_code :: "nat option"
  hr_headers :: "hp_header list"

record 'cfg httparse =
  parse_request :: "bytes \<Rightarrow> nat \<Rightarrow> hp_request \<times> (httparse_error + hp_status)"
  parse_response :: "'cfg \<Rightarrow> bytes \<Rightarrow> nat \<Rightarrow> hp_response \<times> (httparse_error + hp_status)"

definition hp_headers_ok :: "nat \<Rightarrow> nat \<Rightarrow> hp_header list \<Rightarrow> bool" where
  "hp_headers_ok len mx hs \<longleftrightarrow> length hs \<le> mx \<and>
     list_all (\<lambda>h. fst (hp_name h) + snd (hp_name h) \<le> len \<and> fst (hp_value h) + snd (hp_value h) \<le> len) hs"

definition httparse_ok :: "'cfg httparse \<Rightarrow> bool" where
  "httparse_ok P \<longleftrightarrow>
     (\<forall>bs mx q len. parse_request P bs mx = (q, Ok (Complete len)) \<longrightarrow>
        0 < len \<and> len \<le> length bs \<and> hq_method q \<noteq> None \<and> hq_path q \<noteq> None \<and> hq_version q \<noteq> None \<and>
        hp_headers_ok len mx (hq_headers q)) \<and>
     (\<forall>cfg bs mx r len. parse_response P cfg bs mx = (r, Ok (Complete len)) \<longrightarrow>
        0 < len \<and> len \<le> length bs \<and> hr_version r \<noteq> None \<and> hr_code r \<noteq> None \<and>
        hp_headers_ok len mx (hr_headers r))"

definition MAX_HEADERS :: nat where "MAX_HEADERS = 100"
definition AVERAGE_HEADER_SIZE :: nat where "AVERAGE_HEADER_SIZE = 30"
definition MAX_URI_LEN :: nat where "MAX_URI_LEN = 65534"

section \<open>Parsing\<close>

text \<open>
  \<open>parse_headers\<close>: nothing to do for an empty buffer; otherwise the header-read timer is set or
  reset and the role parses. \<open>T\<close> is \<open>T::parse\<close>.
\<close>

definition parse_headers ::
    "runtime \<Rightarrow> (('hm, 'cfg) parse_ctx \<Rightarrow> bytes \<Rightarrow> (('hm, 'cfg) parse_ctx \<times> bytes \<times> (parse + 'm option)) option)
     \<Rightarrow> ('hm, 'cfg) parse_ctx \<Rightarrow> bytes \<Rightarrow> (('hm, 'cfg) parse_ctx \<times> bytes \<times> (parse + 'm option)) option" where
  "parse_headers rt T ctx bs =
     (if bs = [] then Some (ctx, bs, Ok None)
      else let ctx =
             (if \<not> h1_header_read_timeout_running ctx then
                (case h1_header_read_timeout ctx of
                   Some timeout \<Rightarrow>
                     (let deadline = rt_now rt + timeout
                      in case h1_header_read_timeout_fut ctx of
                           Some fut \<Rightarrow> ctx\<lparr>h1_header_read_timeout_fut := Some deadline\<rparr>
                         | None \<Rightarrow> ctx\<lparr>h1_header_read_timeout_fut := Some deadline\<rparr>)
                 | None \<Rightarrow> ctx)
              else ctx)
           in T ctx bs)"

record header_indices =
  hi_name :: "nat \<times> nat"
  hi_value :: "nat \<times> nat"

text \<open>\<open>record_header_indices\<close>; the array of indices has \<open>MAX_HEADERS\<close> places.\<close>

fun record_header_indices :: "hp_header list \<Rightarrow> nat \<Rightarrow> parse + header_indices list" where
  "record_header_indices [] room = Ok []"
| "record_header_indices (header # hs) room =
     (case room of
        0 \<Rightarrow> Ok []
      | Suc room \<Rightarrow>
          (if snd (hp_name header) \<ge> 2 ^ 16 then Err ParseTooLarge
           else let name_start = fst (hp_name header);
                    name_end = name_start + snd (hp_name header);
                    value_start = fst (hp_value header);
                    value_end = value_start + snd (hp_value header)
                in case record_header_indices hs room of
                     Err e \<Rightarrow> Err e
                   | Ok is \<Rightarrow> Ok (\<lparr>hi_name = (name_start, name_end), hi_value = (value_start, value_end)\<rparr> # is)))"

text \<open>Indexing a slice by a range panics when the range is not within the slice.\<close>

definition slice_range :: "bytes \<Rightarrow> nat \<times> nat \<Rightarrow> bytes option" where
  "slice_range bs r =
     (if fst r \<le> snd r \<and> snd r \<le> length bs then Some (take (snd r - fst r) (drop (fst r) bs)) else None)"

definition indices_ok :: "nat \<Rightarrow> header_indices \<Rightarrow> bool" where
  "indices_ok len i \<longleftrightarrow> fst (hi_name i) \<le> snd (hi_name i) \<and> snd (hi_name i) \<le> len \<and>
     fst (hi_value i) \<le> snd (hi_value i) \<and> snd (hi_value i) \<le> len"

lemma slice_range_Some:
  "indices_ok (length bs) i \<Longrightarrow> \<exists>n v. slice_range bs (hi_name i) = Some n \<and> slice_range bs (hi_value i) = Some v"
  by (simp add: indices_ok_def slice_range_def)

lemma record_header_indices_ok:
  assumes "hp_headers_ok len room hs" "record_header_indices hs room = Ok is"
  shows "length is = length hs \<and> list_all (indices_ok len) is"
  using assms
  by (induction hs room arbitrary: "is" rule: record_header_indices.induct)
    (fastforce simp: hp_headers_ok_def indices_ok_def Let_def split: nat.splits sum.splits if_splits)+

section \<open>Writing names and values\<close>

definition DASH :: u8 where "DASH = 45"

fun title_case_loop :: "u8 \<Rightarrow> bytes \<Rightarrow> bytes \<Rightarrow> bytes" where
  "title_case_loop prev dst [] = dst"
| "title_case_loop prev dst (c # cs) =
     (let c = (if prev = DASH then to_ascii_uppercase c else c)
      in title_case_loop c (dst @ [c]) cs)"

definition title_case :: "bytes \<Rightarrow> bytes \<Rightarrow> bytes" where
  "title_case dst name = title_case_loop DASH dst name"

definition header_sep :: bytes where "header_sep = ascii '': ''"

fun write_headers_title_case_loop :: "(string \<times> bytes) list \<Rightarrow> bytes \<Rightarrow> bytes" where
  "write_headers_title_case_loop [] dst = dst"
| "write_headers_title_case_loop ((name, value) # hs) dst =
     write_headers_title_case_loop hs (title_case dst (ascii name) @ header_sep @ value @ CRLF)"

definition write_headers_title_case :: "('hm, 'uri, 'z) http_scheme \<Rightarrow> 'hm \<Rightarrow> bytes \<Rightarrow> bytes" where
  "write_headers_title_case H hs dst = write_headers_title_case_loop (hm_iter H hs) dst"

fun write_headers_loop :: "(string \<times> bytes) list \<Rightarrow> bytes \<Rightarrow> bytes" where
  "write_headers_loop [] dst = dst"
| "write_headers_loop ((name, value) # hs) dst =
     write_headers_loop hs (dst @ ascii name @ header_sep @ value @ CRLF)"

definition write_headers :: "('hm, 'uri, 'z) http_scheme \<Rightarrow> 'hm \<Rightarrow> bytes \<Rightarrow> bytes" where
  "write_headers H hs dst = write_headers_loop (hm_iter H hs) dst"

text \<open>The inner loop of \<open>write_headers_original_case\<close>, over the values of one name.\<close>

fun original_case_values :: "bytes \<Rightarrow> bool \<Rightarrow> bytes list \<Rightarrow> bytes list \<Rightarrow> bytes \<Rightarrow> bytes" where
  "original_case_values name title names [] dst = dst"
| "original_case_values name title names (value # vs) dst =
     (let dst = (case names of
                   orig_name # _ \<Rightarrow> dst @ orig_name
                 | [] \<Rightarrow> if title then title_case dst name else dst @ name);
          dst = (if value = [] then dst @ ascii '':'' @ CRLF else dst @ header_sep @ value @ CRLF)
      in original_case_values name title (tl names) vs dst)"

definition write_headers_original_case ::
    "('hm, 'uri, 'z) http_scheme \<Rightarrow> 'hm \<Rightarrow> 'hm \<Rightarrow> bytes \<Rightarrow> bool \<Rightarrow> bytes" where
  "write_headers_original_case H hs orig_case dst title_case_headers =
     foldl (\<lambda>dst name. original_case_values (ascii name) title_case_headers
              (case_map_get_all H orig_case name) (hm_get_all H hs name) dst)
       dst (hm_keys H hs)"

text \<open>\<open>set_content_length\<close>: the release build always replaces the header.\<close>

definition set_content_length :: "('hm, 'uri, 'z) http_scheme \<Rightarrow> 'hm \<Rightarrow> u64 \<Rightarrow> 'hm \<times> encoder" where
  "set_content_length H hs len =
     (hm_insert H hs CONTENT_LENGTH (hv_from_u64 H len), encoder_length len)"

end
