(* ===== verification/Server_Parse.thy ===== *)
theory Server_Parse
  imports Role_Common
begin

text \<open>
  \<open>Server::parse\<close> of \<^verbatim>\<open>src/src/proto/h1/role.rs\<close>: from the bytes of a request head to the request
  line, the header map, the framing of the body and the connection flags. The loop over the
  headers is proved to compute the framing of RFC 7230, section 3.3.3, given here as a reference
  function over all header fields.
\<close>

section \<open>The loop over the headers\<close>

record 'hm req_acc =
  ra_decoder :: decoded_length
  ra_expect_continue :: bool
  ra_con_len :: "u64 option"
  ra_is_te :: bool
  ra_is_te_chunked :: bool
  ra_wants_upgrade :: bool
  ra_keep_alive :: bool
  ra_case_map :: "'hm option"
  ra_headers :: 'hm

text \<open>The end of the loop body, which a \<open>continue\<close> skips.\<close>

definition req_append ::
    "('hm, 'uri, 'z) http_scheme \<Rightarrow> string \<Rightarrow> bytes \<Rightarrow> bytes \<Rightarrow> 'hm req_acc \<Rightarrow> 'hm req_acc" where
  "req_append H name orig value acc =
     acc\<lparr>ra_case_map := map_option (\<lambda>m. case_map_append H m name orig) (ra_case_map acc),
         ra_headers := hm_append H (ra_headers acc) name value\<rparr>"

definition keep_alive_after :: "('hm, 'uri, 'z) http_scheme \<Rightarrow> bytes \<Rightarrow> bool \<Rightarrow> bool" where
  "keep_alive_after H value ka = (if ka then \<not> connection_close H value else connection_keep_alive H value)"

definition server_header ::
    "('hm, 'uri, 'z) http_scheme \<Rightarrow> bool \<Rightarrow> string \<Rightarrow> bytes \<Rightarrow> bytes \<Rightarrow> 'hm req_acc \<Rightarrow> parse + 'hm req_acc" where
  "server_header H is_http_11 name orig value acc =
     (if name = TRANSFER_ENCODING then
        (if \<not> is_http_11 then Err transfer_encoding_unexpected
         else let acc = acc\<lparr>ra_is_te := True\<rparr>;
                  acc = (if is_chunked_value H value
                         then acc\<lparr>ra_is_te_chunked := True, ra_decoder := CHUNKED\<rparr>
                         else acc\<lparr>ra_is_te_chunked := False\<rparr>)
              in Ok (req_append H name orig value acc))
      else if name = CONTENT_LENGTH then
        (if ra_is_te acc then Ok acc
         else case content_length_parse value of
                None \<Rightarrow> Err content_length_invalid
              | Some len \<Rightarrow>
                  (case ra_con_len acc of
                     Some prev \<Rightarrow> (if prev \<noteq> len then Err content_length_invalid else Ok acc)
                   | None \<Rightarrow>
                       (case checked_new len of
                          Err e \<Rightarrow> Err e
                        | Ok d \<Rightarrow>
                            Ok (req_append H name orig value (acc\<lparr>ra_decoder := d, ra_con_len := Some len\<rparr>)))))
      else if name = CONNECTION then
        Ok (req_append H name orig value
             (acc\<lparr>ra_keep_alive := keep_alive_after H value (ra_keep_alive acc)\<rparr>))
      else if name = EXPECT then
        Ok (req_append H name orig value
             (acc\<lparr>ra_expect_continue := eq_ignore_ascii_case value (ascii ''100-continue'')\<rparr>))
      else if name = UPGRADE then
        Ok (req_append H name orig value (acc\<lparr>ra_wants_upgrade := is_http_11\<rparr>))
      else Ok (req_append H name orig value acc))"

fun server_headers ::
    "('hm, 'uri, 'z) http_scheme \<Rightarrow> bool \<Rightarrow> bytes \<Rightarrow> header_indices list \<Rightarrow> 'hm req_acc
     \<Rightarrow> (parse + 'hm req_acc) option" where
  "server_headers H is_http_11 slc [] acc = Some (Ok acc)"
| "server_headers H is_http_11 slc (header # rest) acc =
     (case slice_range slc (hi_name header) of
        None \<Rightarrow> None
      | Some orig \<Rightarrow>
          (case hn_from_bytes H orig of
             None \<Rightarrow> Some (Err ParseInternal)
           | Some name \<Rightarrow>
               (case slice_range slc (hi_value header) of
                  None \<Rightarrow> None
                | Some value \<Rightarrow>
                    (case server_header H is_http_11 name orig value acc of
                       Err e \<Rightarrow> Some (Err e)
                     | Ok acc \<Rightarrow> server_headers H is_http_11 slc rest acc))))"

section \<open>Server::parse\<close>

text \<open>The part of the function after the head has been split off the buffer.\<close>

definition server_parse_head ::
    "('hm, 'uri, 'z) http_scheme \<Rightarrow> ('hm, 'cfg) parse_ctx \<Rightarrow> bytes \<Rightarrow> string \<Rightarrow> 'uri \<Rightarrow> bool
     \<Rightarrow> header_indices list
     \<Rightarrow> (('hm, 'cfg) parse_ctx \<times> (parse + ('uri request_line, 'hm) parsed_message option)) option" where
  "server_parse_head H ctx slc method uri is_http_11 indices =
     (let acc0 = \<lparr>ra_decoder = ZERO, ra_expect_continue = False, ra_con_len = None, ra_is_te = False,
                  ra_is_te_chunked = False, ra_wants_upgrade = (method = ''CONNECT''),
                  ra_keep_alive = is_http_11,
                  ra_case_map = (if preserve_header_case ctx then Some (case_map_default H) else None),
                  ra_headers = (case cached_headers ctx of Some hs \<Rightarrow> hs | None \<Rightarrow> hm_new H)\<rparr>;
          ctx = ctx\<lparr>cached_headers := None\<rparr>
      in map_option
           (\<lambda>res. case res of
              Err e \<Rightarrow> (ctx, Err e)
            | Ok acc \<Rightarrow>
                if ra_is_te acc \<and> \<not> ra_is_te_chunked acc then (ctx, Err transfer_encoding_invalid)
                else (ctx\<lparr>req_method := Some method\<rparr>,
                      Ok (Some
                        \<lparr>pm_head = \<lparr>version = (if is_http_11 then HTTP_11 else HTTP_10),
                                    subject = RequestLine method uri, headers = ra_headers acc,
                                    extensions = extensions_default\<lparr>ext_case_map := ra_case_map acc\<rparr>\<rparr>,
                         pm_decode = ra_decoder acc, pm_expect_continue = ra_expect_continue acc,
                         pm_keep_alive = ra_keep_alive acc, pm_wants_upgrade = ra_wants_upgrade acc\<rparr>)))
           (server_headers H is_http_11 slc indices acc0))"

definition server_parse ::
    "('hm, 'uri, 'z) http_scheme \<Rightarrow> 'cfg httparse \<Rightarrow> ('hm, 'cfg) parse_ctx \<Rightarrow> bytes
     \<Rightarrow> (('hm, 'cfg) parse_ctx \<times> bytes \<times> (parse + ('uri request_line, 'hm) parsed_message option)) option" where
  "server_parse H P ctx buf =
     (case parse_request P buf MAX_HEADERS of
        (q, Ok (Complete len)) \<Rightarrow> do {
          uri \<leftarrow> hq_path q;
          if length uri > MAX_URI_LEN then Some (ctx, buf, Err ParseUriTooLong)
          else do {
            m \<leftarrow> hq_method q;
            case method_from_bytes H m of
              None \<Rightarrow> Some (ctx, buf, Err ParseMethod)
            | Some method \<Rightarrow>
                (case uri_parse H uri of
                   None \<Rightarrow> Some (ctx, buf, Err ParseUri)
                 | Some uri \<Rightarrow> do {
                     v \<leftarrow> hq_version q;
                     case record_header_indices (hq_headers q) MAX_HEADERS of
                       Err e \<Rightarrow> Some (ctx, buf, Err e)
                     | Ok indices \<Rightarrow>
                         (if len > length buf \<or> length (hq_headers q) > MAX_HEADERS then None
                          else map_option (\<lambda>(ctx, res). (ctx, drop len buf, res))
                                 (server_parse_head H ctx (take len buf) method uri (v = 1) indices)) })}}
      | (q, Ok Partial) \<Rightarrow> Some (ctx, buf, Ok None)
      | (q, Err err) \<Rightarrow>
          Some (ctx, buf,
                Err (case err of
                       HpToken \<Rightarrow> (if hq_method q = None then ParseMethod else ParseUri)
                     | other \<Rightarrow> parse_of_httparse other)))"

section \<open>The framing of a request, over all its header fields\<close>

type_synonym field = "string \<times> bytes \<times> bytes"

definition values_of :: "string \<Rightarrow> field list \<Rightarrow> bytes list" where
  "values_of name fs = map (\<lambda>(n, orig, v). v) (filter (\<lambda>(n, orig, v). n = name) fs)"

lemma values_of_simps [simp]:
  "values_of name [] = []"
  "values_of name ((n, orig, v) # fs) = (if n = name then v # values_of name fs else values_of name fs)"
  by (simp_all add: values_of_def)

text \<open>The fields that the indices denote, when they are all within the head and have legal names.\<close>

fun header_fields :: "('hm, 'uri, 'z) http_scheme \<Rightarrow> bytes \<Rightarrow> header_indices list \<Rightarrow> field list option" where
  "header_fields H slc [] = Some []"
| "header_fields H slc (header # rest) =
     do { orig \<leftarrow> slice_range slc (hi_name header);
          name \<leftarrow> hn_from_bytes H orig;
          value \<leftarrow> slice_range slc (hi_value header);
          fs \<leftarrow> header_fields H slc rest;
          Some ((name, orig, value) # fs) }"

fun server_fields ::
    "('hm, 'uri, 'z) http_scheme \<Rightarrow> bool \<Rightarrow> field list \<Rightarrow> 'hm req_acc \<Rightarrow> parse + 'hm req_acc" where
  "server_fields H is_http_11 [] acc = Ok acc"
| "server_fields H is_http_11 ((name, orig, value) # fs) acc =
     (case server_header H is_http_11 name orig value acc of
        Err e \<Rightarrow> Err e
      | Ok acc \<Rightarrow> server_fields H is_http_11 fs acc)"

lemma server_headers_fields:
  "header_fields H slc is = Some fs \<Longrightarrow>
   server_headers H is_http_11 slc is acc = Some (server_fields H is_http_11 fs acc)"
  by (induction "is" arbitrary: fs acc) (auto simp: bind_eq_Some_conv split: sum.splits)

lemma server_headers_OkD:
  "server_headers H is_http_11 slc is acc = Some (Ok acc') \<Longrightarrow> \<exists>fs. header_fields H slc is = Some fs"
  by (induction "is" arbitrary: acc) (fastforce split: option.splits sum.splits)+

lemma server_headers_returns:
  "list_all (indices_ok (length slc)) is \<Longrightarrow> \<exists>res. server_headers H is_http_11 slc is acc = Some res"
proof (induction "is" arbitrary: acc)
  case (Cons i "is")
  with slice_range_Some [of slc i] obtain n v where
    "slice_range slc (hi_name i) = Some n" "slice_range slc (hi_value i) = Some v" by auto
  with Cons show ?case by (auto split: option.splits sum.splits)
qed simp

text \<open>
  The reference: the length headers before the first \<open>Transfer-Encoding\<close> must agree on one legal
  length; a \<open>Transfer-Encoding\<close> decides the framing when there is one, is refused below HTTP/1.1 and
  must end in \<open>chunked\<close>; otherwise the length does, and without one there is no body.
\<close>

definition agreed_length :: "bytes list \<Rightarrow> parse + decoded_length option" where
  "agreed_length cls =
     (case cls of
        [] \<Rightarrow> Ok None
      | v # vs \<Rightarrow>
          (case content_length_parse v of
             None \<Rightarrow> Err content_length_invalid
           | Some n \<Rightarrow>
               (case checked_new n of
                  Err e \<Rightarrow> Err e
                | Ok d \<Rightarrow> if list_all (\<lambda>v. content_length_parse v = Some n) vs then Ok (Some d)
                          else Err content_length_invalid)))"

definition before_te :: "field list \<Rightarrow> field list" where
  "before_te fs = takeWhile (\<lambda>(n, orig, v). n \<noteq> TRANSFER_ENCODING) fs"

definition framing_of ::
    "('hm, 'uri, 'z) http_scheme \<Rightarrow> bool \<Rightarrow> bytes list \<Rightarrow> parse + decoded_length option \<Rightarrow> parse + decoded_length" where
  "framing_of H is_http_11 tes lens =
     (case lens of
        Err e \<Rightarrow> Err e
      | Ok cl \<Rightarrow>
          if tes = [] then Ok (case cl of None \<Rightarrow> ZERO | Some d \<Rightarrow> d)
          else if \<not> is_http_11 then Err transfer_encoding_unexpected
          else if is_chunked_value H (last tes) then Ok CHUNKED
          else Err transfer_encoding_invalid)"

definition request_framing ::
    "('hm, 'uri, 'z) http_scheme \<Rightarrow> bool \<Rightarrow> field list \<Rightarrow> parse + decoded_length" where
  "request_framing H is_http_11 fs =
     framing_of H is_http_11 (values_of TRANSFER_ENCODING fs)
       (agreed_length (values_of CONTENT_LENGTH (before_te fs)))"

definition acc_framing :: "parse + 'hm req_acc \<Rightarrow> parse + decoded_length" where
  "acc_framing res =
     (case res of
        Err e \<Rightarrow> Err e
      | Ok acc \<Rightarrow> if ra_is_te acc \<and> \<not> ra_is_te_chunked acc then Err transfer_encoding_invalid
                  else Ok (ra_decoder acc))"

lemma server_header_other:
  "name \<noteq> TRANSFER_ENCODING \<Longrightarrow> name \<noteq> CONTENT_LENGTH \<Longrightarrow>
   \<exists>acc'. server_header H is_http_11 name orig val acc = Ok acc' \<and> ra_is_te acc' = ra_is_te acc \<and>
     ra_is_te_chunked acc' = ra_is_te_chunked acc \<and> ra_con_len acc' = ra_con_len acc \<and>
     ra_decoder acc' = ra_decoder acc"
  by (cases "name = CONNECTION"; cases "name = EXPECT"; cases "name = UPGRADE")
    (simp_all add: server_header_def req_append_def)

lemma server_header_te:
  "\<exists>acc'. server_header H True TRANSFER_ENCODING orig val acc = Ok acc' \<and> ra_is_te acc' \<and>
     ra_is_te_chunked acc' = is_chunked_value H val \<and> (ra_is_te_chunked acc' \<longrightarrow> ra_decoder acc' = CHUNKED)"
  by (simp add: server_header_def req_append_def Let_def)

text \<open>Once a \<open>Transfer-Encoding\<close> has been seen, only further ones matter.\<close>

lemma server_fields_te:
  assumes "ra_is_te acc" "ra_is_te_chunked acc \<longrightarrow> ra_decoder acc = CHUNKED"
  shows "acc_framing (server_fields H True fs acc) =
    (if (if values_of TRANSFER_ENCODING fs = [] then ra_is_te_chunked acc
         else is_chunked_value H (last (values_of TRANSFER_ENCODING fs)))
     then Ok CHUNKED else Err transfer_encoding_invalid)"
  using assms
proof (induction fs arbitrary: acc)
  case Nil
  then show ?case by (simp add: acc_framing_def)
next
  case (Cons f fs)
  obtain name orig val where f: "f = (name, orig, val)" by (metis surj_pair)
  have "\<exists>acc'. server_header H True name orig val acc = Ok acc' \<and> ra_is_te acc' \<and>
      (ra_is_te_chunked acc' \<longrightarrow> ra_decoder acc' = CHUNKED) \<and>
      ra_is_te_chunked acc' = (if name = TRANSFER_ENCODING then is_chunked_value H val
         else ra_is_te_chunked acc)"
  proof -
    consider "name = TRANSFER_ENCODING" | "name = CONTENT_LENGTH"
      | "name \<noteq> TRANSFER_ENCODING" "name \<noteq> CONTENT_LENGTH" by blast
    then show ?thesis
    proof cases
      case 1
      with server_header_te [of H orig val acc] show ?thesis by auto
    next
      case 2
      with Cons.prems show ?thesis by (simp add: server_header_def)
    next
      case 3
      with server_header_other [OF 3, of H True orig val acc] Cons.prems show ?thesis by auto
    qed
  qed
  then obtain acc' where
    h: "server_header H True name orig val acc = Ok acc'" "ra_is_te acc'"
      "ra_is_te_chunked acc' \<longrightarrow> ra_decoder acc' = CHUNKED"
      "ra_is_te_chunked acc' = (if name = TRANSFER_ENCODING then is_chunked_value H val
         else ra_is_te_chunked acc)" by blast
  from Cons.IH [OF h(2,3)] show ?case by (simp add: f h(1,4))
qed

text \<open>Before it, the lengths are compared with the first one.\<close>

fun lengths_from :: "u64 option \<Rightarrow> decoded_length \<Rightarrow> bytes list \<Rightarrow> parse + decoded_length option" where
  "lengths_from None d cls = agreed_length cls"
| "lengths_from (Some n) d cls =
     (if list_all (\<lambda>v. content_length_parse v = Some n) cls then Ok (Some d) else Err content_length_invalid)"

lemma before_te_simps [simp]:
  "before_te [] = []"
  "before_te ((n, orig, v) # fs) = (if n = TRANSFER_ENCODING then [] else (n, orig, v) # before_te fs)"
  by (simp_all add: before_te_def)

lemma server_header_length:
  assumes "\<not> ra_is_te acc"
  shows "(\<exists>e. server_header H is_http_11 CONTENT_LENGTH orig val acc = Err e \<and>
            lengths_from (ra_con_len acc) (ra_decoder acc) (val # vs) = Err e) \<or>
         (\<exists>acc'. server_header H is_http_11 CONTENT_LENGTH orig val acc = Ok acc' \<and> \<not> ra_is_te acc' \<and>
            ra_con_len acc' \<noteq> None \<and>
            lengths_from (ra_con_len acc) (ra_decoder acc) (val # vs) =
              lengths_from (ra_con_len acc') (ra_decoder acc') vs)"
  using assms
  by (cases "ra_con_len acc"; cases "content_length_parse val"; cases "checked_new (the (content_length_parse val))")
    (simp_all add: server_header_def agreed_length_def req_append_def)

lemma server_fields_lengths:
  assumes "\<not> ra_is_te acc" "ra_con_len acc = None \<longrightarrow> ra_decoder acc = ZERO"
  shows "acc_framing (server_fields H is_http_11 fs acc) =
    framing_of H is_http_11 (values_of TRANSFER_ENCODING fs)
      (lengths_from (ra_con_len acc) (ra_decoder acc) (values_of CONTENT_LENGTH (before_te fs)))"
  using assms
proof (induction fs arbitrary: acc)
  case Nil
  then show ?case
    by (cases "ra_con_len acc") (simp_all add: acc_framing_def framing_of_def agreed_length_def)
next
  case (Cons f fs)
  obtain name orig val where f: "f = (name, orig, val)" by (metis surj_pair)
  consider "name = TRANSFER_ENCODING" "is_http_11" | "name = TRANSFER_ENCODING" "\<not> is_http_11"
    | "name = CONTENT_LENGTH" | "name \<noteq> TRANSFER_ENCODING" "name \<noteq> CONTENT_LENGTH" by blast
  then show ?case
  proof cases
    case 1
    with server_header_te [of H orig val acc] obtain acc' where
      acc': "server_header H is_http_11 name orig val acc = Ok acc'" "ra_is_te acc'"
        "ra_is_te_chunked acc' \<longrightarrow> ra_decoder acc' = CHUNKED"
        "ra_is_te_chunked acc' = is_chunked_value H val" by auto
    from 1 acc' server_fields_te [OF acc'(2,3), of H fs] show ?thesis
      by (cases "ra_con_len acc") (simp_all add: f framing_of_def agreed_length_def)
  next
    case 2
    then show ?thesis
      by (cases "ra_con_len acc")
        (simp_all add: f server_header_def acc_framing_def framing_of_def agreed_length_def)
  next
    case 3
    from server_header_length [OF Cons.prems(1), of H is_http_11 orig val
        "values_of CONTENT_LENGTH (before_te fs)"]
    show ?thesis
    proof (elim disjE exE conjE)
      fix e
      assume "server_header H is_http_11 CONTENT_LENGTH orig val acc = Err e"
        "lengths_from (ra_con_len acc) (ra_decoder acc)
           (val # values_of CONTENT_LENGTH (before_te fs)) = Err e"
      with 3 show ?thesis by (simp add: f acc_framing_def framing_of_def)
    next
      fix acc'
      assume "server_header H is_http_11 CONTENT_LENGTH orig val acc = Ok acc'" "\<not> ra_is_te acc'"
        "ra_con_len acc' \<noteq> None"
        "lengths_from (ra_con_len acc) (ra_decoder acc)
           (val # values_of CONTENT_LENGTH (before_te fs)) =
         lengths_from (ra_con_len acc') (ra_decoder acc') (values_of CONTENT_LENGTH (before_te fs))"
      with 3 Cons.IH [of acc'] show ?thesis by (simp add: f)
    qed
  next
    case 4
    from server_header_other [OF this] obtain acc' where
      "server_header H is_http_11 name orig val acc = Ok acc'" "ra_is_te acc' = ra_is_te acc"
      "ra_con_len acc' = ra_con_len acc" "ra_decoder acc' = ra_decoder acc" by blast
    with Cons.IH [of acc'] Cons.prems 4 show ?thesis by (simp add: f)
  qed
qed

section \<open>What a parsed request is\<close>

definition req_acc0 :: "('hm, 'uri, 'z) http_scheme \<Rightarrow> ('hm, 'cfg) parse_ctx \<Rightarrow> string \<Rightarrow> bool \<Rightarrow> 'hm req_acc" where
  "req_acc0 H ctx meth is_http_11 =
     \<lparr>ra_decoder = ZERO, ra_expect_continue = False, ra_con_len = None, ra_is_te = False,
      ra_is_te_chunked = False, ra_wants_upgrade = (meth = ''CONNECT''), ra_keep_alive = is_http_11,
      ra_case_map = (if preserve_header_case ctx then Some (case_map_default H) else None),
      ra_headers = (case cached_headers ctx of Some hs \<Rightarrow> hs | None \<Rightarrow> hm_new H)\<rparr>"

lemma acc0_framing:
  "acc_framing (server_fields H is_http_11 fs (req_acc0 H ctx meth is_http_11)) = request_framing H is_http_11 fs"
  using server_fields_lengths [of "req_acc0 H ctx meth is_http_11" H is_http_11 fs]
  by (simp add: req_acc0_def request_framing_def)

text \<open>The shape of a successful parse.\<close>

lemma server_parse_OkE:
  assumes "server_parse H P ctx buf = Some (ctx', buf', Ok (Some msg))"
  obtains q len uri m v meth u indices fs acc
  where "parse_request P buf MAX_HEADERS = (q, Ok (Complete len))"
    "hq_path q = Some uri" "length uri \<le> MAX_URI_LEN" "hq_method q = Some m" "hq_version q = Some v"
    "method_from_bytes H m = Some meth" "uri_parse H uri = Some u"
    "record_header_indices (hq_headers q) MAX_HEADERS = Ok indices"
    "len \<le> length buf" "buf' = drop len buf"
    "header_fields H (take len buf) indices = Some fs"
    "server_fields H (v = 1) fs (req_acc0 H ctx meth (v = 1)) = Ok acc"
    "\<not> (ra_is_te acc \<and> \<not> ra_is_te_chunked acc)"
    "ctx' = ctx\<lparr>cached_headers := None, req_method := Some meth\<rparr>"
    "msg = \<lparr>pm_head = \<lparr>version = (if v = 1 then HTTP_11 else HTTP_10), subject = RequestLine meth u,
                       headers = ra_headers acc,
                       extensions = extensions_default\<lparr>ext_case_map := ra_case_map acc\<rparr>\<rparr>,
            pm_decode = ra_decoder acc, pm_expect_continue = ra_expect_continue acc,
            pm_keep_alive = ra_keep_alive acc, pm_wants_upgrade = ra_wants_upgrade acc\<rparr>"
proof -
  from assms obtain q len uri m v meth u indices where
    q: "parse_request P buf MAX_HEADERS = (q, Ok (Complete len))"
      "hq_path q = Some uri" "length uri \<le> MAX_URI_LEN" "hq_method q = Some m" "hq_version q = Some v"
      "method_from_bytes H m = Some meth" "uri_parse H uri = Some u"
      "record_header_indices (hq_headers q) MAX_HEADERS = Ok indices"
      "len \<le> length buf" "buf' = drop len buf"
      "server_parse_head H ctx (take len buf) meth u (v = 1) indices = Some (ctx', Ok (Some msg))"
    by (auto simp: server_parse_def split: Option.bind_split_asm prod.split_asm sum.split_asm
        hp_status.split_asm option.split_asm if_split_asm)
  from q(11) obtain res where
    res: "server_headers H (v = 1) (take len buf) indices (req_acc0 H ctx meth (v = 1)) = Some res"
    by (auto simp: server_parse_head_def req_acc0_def [symmetric] Let_def)
  with q(11) obtain acc where
    acc: "server_headers H (v = 1) (take len buf) indices (req_acc0 H ctx meth (v = 1)) = Some (Ok acc)"
      "\<not> (ra_is_te acc \<and> \<not> ra_is_te_chunked acc)"
      "ctx' = ctx\<lparr>cached_headers := None, req_method := Some meth\<rparr>"
      "msg = \<lparr>pm_head = \<lparr>version = (if v = 1 then HTTP_11 else HTTP_10), subject = RequestLine meth u,
                         headers = ra_headers acc,
                         extensions = extensions_default\<lparr>ext_case_map := ra_case_map acc\<rparr>\<rparr>,
              pm_decode = ra_decoder acc, pm_expect_continue = ra_expect_continue acc,
              pm_keep_alive = ra_keep_alive acc, pm_wants_upgrade = ra_wants_upgrade acc\<rparr>"
    by (cases res) (auto simp: server_parse_head_def req_acc0_def [symmetric] Let_def split: if_split_asm)
  from server_headers_OkD [OF acc(1)] obtain fs where fs: "header_fields H (take len buf) indices = Some fs" ..
  with server_headers_fields [OF fs] acc(1)
  have "server_fields H (v = 1) fs (req_acc0 H ctx meth (v = 1)) = Ok acc" by simp
  from that [OF q(1-10) fs this acc(2-4)] show thesis .
qed

text \<open>\<open>Server::parse\<close> does not panic, given the contract of \<open>httparse\<close>.\<close>

lemma server_parse_returns:
  assumes "httparse_ok P"
  shows "\<exists>res. server_parse H P ctx buf = Some res"
proof -
  obtain q r where qr: "parse_request P buf MAX_HEADERS = (q, r)" by fastforce
  show ?thesis
  proof (cases "\<exists>len. r = Ok (Complete len)")
    case False
    with qr show ?thesis by (auto simp: server_parse_def split: sum.splits hp_status.splits)
  next
    case True
    then obtain len where r: "r = Ok (Complete len)" ..
    with assms qr have ok: "len \<le> length buf" "hq_method q \<noteq> None" "hq_path q \<noteq> None"
      "hq_version q \<noteq> None" "hp_headers_ok len MAX_HEADERS (hq_headers q)"
      by (auto simp: httparse_ok_def)
    then obtain uri m v where some: "hq_path q = Some uri" "hq_method q = Some m" "hq_version q = Some v" by auto
    have "\<exists>res. server_parse_head H ctx (take len buf) meth u is_http_11 indices = Some res"
      if "record_header_indices (hq_headers q) MAX_HEADERS = Ok indices" for meth u is_http_11 indices
    proof -
      have "list_all (indices_ok (length (take len buf))) indices"
        using record_header_indices_ok [OF ok(5) that] ok(1) by (simp add: min_def)
      from server_headers_returns [OF this, of H is_http_11 "req_acc0 H ctx meth is_http_11"]
      show ?thesis by (auto simp: server_parse_head_def req_acc0_def [symmetric] Let_def)
    qed
    with qr r some ok(1,5) show ?thesis
      by (fastforce simp: server_parse_def hp_headers_ok_def split: option.splits sum.splits)
  qed
qed

text \<open>Every field but a repeated or superseded \<open>Content-Length\<close> is in the header map, in order.\<close>

lemma server_header_map:
  assumes "header_map_ok H" "server_header H is_http_11 name orig val acc = Ok acc'" "n \<noteq> CONTENT_LENGTH"
  shows "hm_get_all H (ra_headers acc') n =
    hm_get_all H (ra_headers acc) n @ (if name = n then [val] else [])"
  using assms(2,3) header_map_okD(2) [OF assms(1)]
  by (auto simp: server_header_def req_append_def Let_def split: if_splits option.splits sum.splits)

lemma server_fields_map:
  assumes "header_map_ok H" "server_fields H is_http_11 fs acc = Ok acc'" "n \<noteq> CONTENT_LENGTH"
  shows "hm_get_all H (ra_headers acc') n = hm_get_all H (ra_headers acc) n @ values_of n fs"
  using assms(2)
proof (induction fs arbitrary: acc)
  case (Cons f fs)
  obtain name orig val where f: "f = (name, orig, val)" by (metis surj_pair)
  with Cons.prems obtain acc1 where "server_header H is_http_11 name orig val acc = Ok acc1"
    "server_fields H is_http_11 fs acc1 = Ok acc'" by (auto split: sum.splits)
  with Cons.IH server_header_map [OF assms(1) _ assms(3)] show ?case by (fastforce simp: f)
qed simp

text \<open>The connection flags are those of the last field that speaks about them.\<close>

lemma server_header_flags:
  assumes "server_header H is_http_11 name orig val acc = Ok acc'"
  shows "ra_keep_alive acc' = (if name = CONNECTION then keep_alive_after H val (ra_keep_alive acc)
           else ra_keep_alive acc)"
    and "ra_expect_continue acc' = (if name = EXPECT then eq_ignore_ascii_case val (ascii ''100-continue'')
           else ra_expect_continue acc)"
    and "ra_wants_upgrade acc' = (if name = UPGRADE then is_http_11 else ra_wants_upgrade acc)"
  using assms
  by (auto simp: server_header_def req_append_def Let_def split: if_splits option.splits sum.splits)

lemma server_fields_flags:
  assumes "server_fields H is_http_11 fs acc = Ok acc'"
  shows "ra_keep_alive acc' = fold (keep_alive_after H) (values_of CONNECTION fs) (ra_keep_alive acc) \<and>
    ra_expect_continue acc' = (if values_of EXPECT fs = [] then ra_expect_continue acc
       else eq_ignore_ascii_case (last (values_of EXPECT fs)) (ascii ''100-continue'')) \<and>
    ra_wants_upgrade acc' = (if values_of UPGRADE fs = [] then ra_wants_upgrade acc else is_http_11)"
  using assms
proof (induction fs arbitrary: acc)
  case (Cons f fs)
  obtain name orig val where f: "f = (name, orig, val)" by (metis surj_pair)
  with Cons.prems obtain acc1 where h: "server_header H is_http_11 name orig val acc = Ok acc1"
    and "server_fields H is_http_11 fs acc1 = Ok acc'" by (auto split: sum.splits)
  from Cons.IH [OF this(2)] server_header_flags [OF h] show ?case by (simp add: f)
qed simp

end
