(* ===== verification/Server_Encode.thy ===== *)
theory Server_Encode
  imports Server_Parse
begin

text \<open>
  \<open>Server::encode\<close> of \<^verbatim>\<open>src/src/proto/h1/role.rs\<close>: the status line, the header block written
  through a \<open>HeaderNameWriter\<close>, the choice of the body framing, and the responses that a server
  sends to requests it cannot parse. \<open>date\<close> is the cached value of the \<open>Date\<close> header.
\<close>

section \<open>Writers of header names\<close>

record 'w name_writer =
  write_full_header_line :: "'w \<Rightarrow> bytes \<Rightarrow> bytes \<Rightarrow> string \<times> bytes \<Rightarrow> 'w \<times> bytes"
  write_header_name_with_colon :: "'w \<Rightarrow> bytes \<Rightarrow> bytes \<Rightarrow> string \<Rightarrow> 'w \<times> bytes"
  write_header_name :: "'w \<Rightarrow> bytes \<Rightarrow> string \<Rightarrow> 'w \<times> bytes"

definition lowercase_writer :: "unit name_writer" where
  "lowercase_writer =
     \<lparr>write_full_header_line = (\<lambda>w dst line _. (w, dst @ line)),
      write_header_name_with_colon = (\<lambda>w dst name_with_colon _. (w, dst @ name_with_colon)),
      write_header_name = (\<lambda>w dst name. (w, dst @ ascii name))\<rparr>"

record 'hm orig_case =
  oc_map :: 'hm
  oc_current :: "(string \<times> bytes list) option"
  oc_title_case_headers :: bool

definition orig_case_write_name ::
    "('hm, 'uri, 'z) http_scheme \<Rightarrow> 'hm orig_case \<Rightarrow> bytes \<Rightarrow> string \<Rightarrow> 'hm orig_case \<times> bytes" where
  "orig_case_write_name H w dst name =
     (let current = (case oc_current w of
                       Some (last_name, vals) \<Rightarrow> if last_name \<noteq> name then None else Some (last_name, vals)
                     | None \<Rightarrow> None);
          (cur_name, vals) = (case current of
                       Some c \<Rightarrow> c
                     | None \<Rightarrow> (name, case_map_get_all H (oc_map w) name))
      in case vals of
           orig_name # vals \<Rightarrow> (w\<lparr>oc_current := Some (cur_name, vals)\<rparr>, dst @ orig_name)
         | [] \<Rightarrow> (w\<lparr>oc_current := Some (cur_name, [])\<rparr>,
                  if oc_title_case_headers w then title_case dst (ascii name) else dst @ ascii name))"

definition orig_case_writer :: "('hm, 'uri, 'z) http_scheme \<Rightarrow> 'hm orig_case name_writer" where
  "orig_case_writer H =
     \<lparr>write_full_header_line = (\<lambda>w dst _ (name, rest).
        (case orig_case_write_name H w dst name of (w, dst) \<Rightarrow> (w, dst @ rest))),
      write_header_name_with_colon = (\<lambda>w dst _ name.
        (case orig_case_write_name H w dst name of (w, dst) \<Rightarrow> (w, dst @ header_sep))),
      write_header_name = orig_case_write_name H\<rparr>"

section \<open>Which responses may have a body\<close>

definition can_chunked :: "('hm, 'uri, 'z) http_scheme \<Rightarrow> string option \<Rightarrow> nat \<Rightarrow> bool" where
  "can_chunked H method status =
     (if method = Some ''HEAD'' \<or> method = Some ''CONNECT'' \<and> status_is_success H status then False
      else if status_is_informational H status then False
      else if status = 204 \<or> status = 304 then False
      else True)"

definition can_have_body :: "('hm, 'uri, 'z) http_scheme \<Rightarrow> string option \<Rightarrow> nat \<Rightarrow> bool" where
  "can_have_body H method status = can_chunked H method status"

definition can_have_content_length :: "('hm, 'uri, 'z) http_scheme \<Rightarrow> string option \<Rightarrow> nat \<Rightarrow> bool" where
  "can_have_content_length H method status =
     (if status_is_informational H status \<or> method = Some ''CONNECT'' \<and> status_is_success H status then False
      else if status = 204 \<or> status = 304 then False
      else True)"

section \<open>The header block\<close>

record 'w enc_acc =
  ea_dst :: bytes
  ea_encoder :: encoder
  ea_wrote_date :: bool
  ea_wrote_len :: bool
  ea_cur_name :: "string option"
  ea_is_name_written :: bool
  ea_must_write_chunked :: bool
  ea_prev_con_len :: "u64 option"
  ea_is_last :: bool
  ea_writer :: 'w

text \<open>The parts of the message that the header loop reads.\<close>

record enc_env =
  ee_version :: version
  ee_status :: nat
  ee_method :: "string option"
  ee_body :: "body_length option"
  ee_orig_len :: nat

definition handle_is_name_written :: "'w enc_acc \<Rightarrow> 'w enc_acc" where
  "handle_is_name_written a =
     (if ea_is_name_written a then
        a\<lparr>ea_dst := ea_dst a @ (if ea_must_write_chunked a then ascii '', chunked'' @ CRLF else CRLF)\<rparr>
      else a)"

text \<open>Start a header whose values are collected on one line.\<close>

definition begin_line :: "'w name_writer \<Rightarrow> string \<Rightarrow> bytes \<Rightarrow> 'w enc_acc \<Rightarrow> 'w enc_acc" where
  "begin_line W name val a =
     (case write_header_name_with_colon W (ea_writer a) (ea_dst a) (ascii name @ header_sep) name of
        (w, dst) \<Rightarrow> a\<lparr>ea_writer := w, ea_dst := dst @ val, ea_is_name_written := True\<rparr>)"

definition write_line :: "'w name_writer \<Rightarrow> string \<Rightarrow> bytes \<Rightarrow> 'w enc_acc \<Rightarrow> 'w enc_acc" where
  "write_line W name val a =
     (case write_header_name W (ea_writer a) (ea_dst a) name of
        (w, dst) \<Rightarrow> a\<lparr>ea_writer := w, ea_dst := dst @ header_sep @ val @ CRLF\<rparr>)"

definition rewind_dst :: "enc_env \<Rightarrow> 'w enc_acc \<Rightarrow> bytes \<times> error" where
  "rewind_dst env a = (take (ee_orig_len env) (ea_dst a), new_user_header)"

definition encode_content_length ::
    "'w name_writer \<Rightarrow> enc_env \<Rightarrow> bytes \<Rightarrow> 'w enc_acc \<Rightarrow> (bytes \<times> error) + 'w enc_acc" where
  "encode_content_length W env val a =
     (if ea_wrote_len a \<and> \<not> ea_is_name_written a then Err (rewind_dst env a)
      else case ee_body env of
             Some (Known known_len) \<Rightarrow>
               Ok (if \<not> ea_is_name_written a
                   then (begin_line W CONTENT_LENGTH val (a\<lparr>ea_encoder := encoder_length known_len\<rparr>))
                          \<lparr>ea_wrote_len := True\<rparr>
                   else a)
           | Some Unknown \<Rightarrow>
               (case content_length_parse val of
                  Some len \<Rightarrow>
                    (case ea_prev_con_len a of
                       Some prev \<Rightarrow> (if prev \<noteq> len then Err (rewind_dst env a) else Ok a)
                     | None \<Rightarrow>
                         Ok ((begin_line W CONTENT_LENGTH val (a\<lparr>ea_encoder := encoder_length len\<rparr>))
                              \<lparr>ea_wrote_len := True, ea_prev_con_len := Some len\<rparr>))
                | None \<Rightarrow> Err (rewind_dst env a))
           | None \<Rightarrow>
               Ok (if ee_method env = Some ''HEAD''
                   then write_line W CONTENT_LENGTH val (a\<lparr>ea_wrote_len := True\<rparr>)
                   else a))"

definition encode_transfer_encoding ::
    "('hm, 'uri, 'z) http_scheme \<Rightarrow> 'w name_writer \<Rightarrow> enc_env \<Rightarrow> bytes \<Rightarrow> 'w enc_acc
     \<Rightarrow> (bytes \<times> error) + 'w enc_acc" where
  "encode_transfer_encoding H W env val a =
     (if ea_wrote_len a \<and> \<not> ea_is_name_written a then Err (rewind_dst env a)
      else if ee_version env = HTTP_10 \<or> \<not> can_chunked H (ee_method env) (ee_status env) then Ok a
      else let a = a\<lparr>ea_wrote_len := True, ea_must_write_chunked := \<not> is_chunked_value H val\<rparr>
           in Ok (if \<not> ea_is_name_written a
                  then begin_line W TRANSFER_ENCODING val (a\<lparr>ea_encoder := encoder_chunked\<rparr>)
                  else a\<lparr>ea_dst := ea_dst a @ ascii '', '' @ val\<rparr>))"

definition encode_connection ::
    "('hm, 'uri, 'z) http_scheme \<Rightarrow> 'w name_writer \<Rightarrow> bytes \<Rightarrow> 'w enc_acc \<Rightarrow> 'w enc_acc" where
  "encode_connection H W val a =
     (let a = (if \<not> ea_is_last a \<and> connection_close H val then a\<lparr>ea_is_last := True\<rparr> else a)
      in if \<not> ea_is_name_written a then begin_line W CONNECTION val a
         else a\<lparr>ea_dst := ea_dst a @ ascii '', '' @ val\<rparr>)"

definition encode_header ::
    "('hm, 'uri, 'z) http_scheme \<Rightarrow> 'w name_writer \<Rightarrow> enc_env \<Rightarrow> string \<Rightarrow> bytes \<Rightarrow> 'w enc_acc
     \<Rightarrow> (bytes \<times> error) + 'w enc_acc" where
  "encode_header H W env name val a =
     (if name = CONTENT_LENGTH then encode_content_length W env val a
      else if name = TRANSFER_ENCODING then encode_transfer_encoding H W env val a
      else if name = CONNECTION then Ok (encode_connection H W val a)
      else Ok (write_line W name val (if name = DATE then a\<lparr>ea_wrote_date := True\<rparr> else a)))"

fun encode_header_loop ::
    "('hm, 'uri, 'z) http_scheme \<Rightarrow> 'w name_writer \<Rightarrow> enc_env \<Rightarrow> (string option \<times> bytes) list
     \<Rightarrow> 'w enc_acc \<Rightarrow> ((bytes \<times> error) + 'w enc_acc) option" where
  "encode_header_loop H W env [] a = Some (Ok a)"
| "encode_header_loop H W env ((opt_name, val) # rest) a =
     (let a = (case opt_name of
                 Some n \<Rightarrow> (handle_is_name_written (a\<lparr>ea_cur_name := Some n\<rparr>))\<lparr>ea_is_name_written := False\<rparr>
               | None \<Rightarrow> a)
      in case ea_cur_name a of
           None \<Rightarrow> None
         | Some name \<Rightarrow>
             (case encode_header H W env name val a of
                Err e \<Rightarrow> Some (Err e)
              | Ok a \<Rightarrow> encode_header_loop H W env rest a))"

text \<open>The framing when no header decided it.\<close>

definition encode_default_length ::
    "('hm, 'uri, 'z) http_scheme \<Rightarrow> 'w name_writer \<Rightarrow> enc_env \<Rightarrow> 'w enc_acc \<Rightarrow> 'w enc_acc" where
  "encode_default_length H W env a =
     (case ee_body env of
        Some Unknown \<Rightarrow>
          (if ee_version env = HTTP_10 \<or> \<not> can_chunked H (ee_method env) (ee_status env)
           then a\<lparr>ea_encoder := encoder_close_delimited\<rparr>
           else let rest = header_sep @ ascii ''chunked'' @ CRLF
                in case write_full_header_line W (ea_writer a) (ea_dst a)
                          (ascii TRANSFER_ENCODING @ rest) (TRANSFER_ENCODING, rest) of
                     (w, dst) \<Rightarrow> a\<lparr>ea_writer := w, ea_dst := dst, ea_encoder := encoder_chunked\<rparr>)
      | _ \<Rightarrow>
          (let len = (case ee_body env of Some (Known len) \<Rightarrow> len | _ \<Rightarrow> 0)
           in if len = 0 then
                (if can_have_content_length H (ee_method env) (ee_status env)
                 then let rest = header_sep @ ascii ''0'' @ CRLF
                      in case write_full_header_line W (ea_writer a) (ea_dst a)
                                (ascii CONTENT_LENGTH @ rest) (CONTENT_LENGTH, rest) of
                           (w, dst) \<Rightarrow> a\<lparr>ea_writer := w, ea_dst := dst, ea_encoder := encoder_length 0\<rparr>
                 else a\<lparr>ea_encoder := encoder_length 0\<rparr>)
              else if \<not> can_have_content_length H (ee_method env) (ee_status env)
              then a\<lparr>ea_encoder := encoder_length 0\<rparr>
              else case write_header_name_with_colon W (ea_writer a) (ea_dst a)
                          (ascii CONTENT_LENGTH @ header_sep) CONTENT_LENGTH of
                     (w, dst) \<Rightarrow>
                       a\<lparr>ea_writer := w, ea_dst := dst @ decimal (unat len) @ CRLF,
                         ea_encoder := encoder_length len\<rparr>))"

definition encode_date :: "'w name_writer \<Rightarrow> bytes \<Rightarrow> 'w enc_acc \<Rightarrow> 'w enc_acc" where
  "encode_date W date a =
     (if \<not> ea_wrote_date a then
        (case write_header_name_with_colon W (ea_writer a) (ea_dst a) (ascii DATE @ header_sep) DATE of
           (w, dst) \<Rightarrow> a\<lparr>ea_writer := w, ea_dst := dst @ date @ CRLF @ CRLF\<rparr>)
      else a\<lparr>ea_dst := ea_dst a @ CRLF\<rparr>)"

text \<open>\<open>Server::encode_headers\<close>: the destination and the encoder or the error.\<close>

definition encode_headers ::
    "('hm, 'uri, 'z) http_scheme \<Rightarrow> 'w name_writer \<Rightarrow> bytes \<Rightarrow> enc_env \<Rightarrow> (string option \<times> bytes) list
     \<Rightarrow> bytes \<Rightarrow> bool \<Rightarrow> bool \<Rightarrow> 'w \<Rightarrow> (bytes \<times> (error + encoder)) option" where
  "encode_headers H W date env drained dst is_last wrote_len writer =
     (let a = \<lparr>ea_dst = dst, ea_encoder = encoder_length 0, ea_wrote_date = False,
               ea_wrote_len = wrote_len, ea_cur_name = None, ea_is_name_written = False,
               ea_must_write_chunked = False, ea_prev_con_len = None, ea_is_last = is_last,
               ea_writer = writer\<rparr>
      in case encode_header_loop H W env drained a of
           None \<Rightarrow> None
         | Some (Err (dst, e)) \<Rightarrow> Some (dst, Err e)
         | Some (Ok a) \<Rightarrow>
             (let a = handle_is_name_written a;
                  a = (if \<not> ea_wrote_len a then encode_default_length H W env a else a);
                  a = (if \<not> can_have_body H (ee_method env) (ee_status env)
                       then a\<lparr>ea_encoder := encoder_length 0\<rparr> else a);
                  a = encode_date W date a
              in Some (ea_dst a, Ok (set_last (ea_encoder a) (ea_is_last a)))))"

section \<open>Server::encode\<close>

definition server_status_line :: "('hm, 'uri, 'z) http_scheme \<Rightarrow> version \<Rightarrow> nat \<Rightarrow> bytes option" where
  "server_status_line H v status =
     (if v = HTTP_11 \<and> status = 200 then Some (ascii ''HTTP/1.1 200 OK'' @ CRLF)
      else map_option
             (\<lambda>start. start @ status_as_str H status @ ascii '' '' @
                (case status_canonical_reason H status of Some r \<Rightarrow> r | None \<Rightarrow> ascii ''<none>'') @ CRLF)
             (case v of
                HTTP_10 \<Rightarrow> Some (ascii ''HTTP/1.0 '')
              | HTTP_11 \<Rightarrow> Some (ascii ''HTTP/1.1 '')
              | HTTP_2 \<Rightarrow> Some (ascii ''HTTP/1.1 '')
              | _ \<Rightarrow> None))"

text \<open>
  Which statuses end the connection, need no length or are refused: the head and the body to
  write, the result to return, \<open>is_last\<close> and \<open>wrote_len\<close>.
\<close>

definition server_prepare ::
    "('hm, 'uri, 'z) http_scheme \<Rightarrow> (nat, 'hm) encode_msg
     \<Rightarrow> 'hm response_head \<times> body_length option \<times> (error + unit) \<times> bool \<times> bool" where
  "server_prepare H msg =
     (let head = enc_head msg
      in if subject head = 101 then (head, enc_body msg, Ok (), True, False)
         else if enc_req_method msg = Some ''CONNECT'' \<and> status_is_success H (subject head)
         then (head, enc_body msg, Ok (), True, True)
         else if status_is_informational H (subject head)
         then ((response_head_default H)\<lparr>subject := 500\<rparr>, None,
               Err new_user_unsupported_status_code, True, False)
         else (head, enc_body msg, Ok (), \<not> enc_keep_alive msg, False))"

text \<open>The choice of the name writer.\<close>

definition server_encode_block ::
    "('hm, 'uri, 'z) http_scheme \<Rightarrow> bytes \<Rightarrow> bool \<Rightarrow> 'hm response_head \<Rightarrow> enc_env \<Rightarrow> bytes \<Rightarrow> bool \<Rightarrow> bool
     \<Rightarrow> (bytes \<times> (error + encoder)) option" where
  "server_encode_block H date title_case_headers head env dst is_last wrote_len =
     (let orig_headers =
        (case ext_case_map (extensions head) of
           None \<Rightarrow> if title_case_headers then Some (case_map_default H) else None
         | Some m \<Rightarrow> Some m)
      in case orig_headers of
           Some m \<Rightarrow>
             encode_headers H (orig_case_writer H) date env (hm_drain H (headers head)) dst is_last wrote_len
               \<lparr>oc_map = m, oc_current = None, oc_title_case_headers = title_case_headers\<rparr>
         | None \<Rightarrow>
             encode_headers H lowercase_writer date env (hm_drain H (headers head)) dst is_last wrote_len ())"

text \<open>
  The head that is left behind has been drained; the response itself is in the destination.
\<close>

definition server_encode ::
    "('hm, 'uri, 'z) http_scheme \<Rightarrow> bytes \<Rightarrow> (nat, 'hm) encode_msg \<Rightarrow> bytes
     \<Rightarrow> ('hm response_head \<times> bytes \<times> (error + encoder)) option" where
  "server_encode H date msg dst =
     (case server_prepare H msg of
        (head, body, ret, is_last, wrote_len) \<Rightarrow>
          (case server_status_line H (version head) (subject head) of
             None \<Rightarrow> None
           | Some line \<Rightarrow>
               (let env = \<lparr>ee_version = version head, ee_status = subject head,
                           ee_method = enc_req_method msg, ee_body = body, ee_orig_len = length dst\<rparr>
                in map_option
                     (\<lambda>(dst, res).
                        (head\<lparr>headers := hm_new H, extensions := extensions_default\<rparr>, dst,
                         case res of Err e \<Rightarrow> Err e | Ok encoder \<Rightarrow> map_sum id (\<lambda>_. encoder) ret))
                     (server_encode_block H date (enc_title_case_headers msg) head env (dst @ line)
                        is_last wrote_len))))"

definition server_on_error :: "('hm, 'uri, 'z) http_scheme \<Rightarrow> error \<Rightarrow> 'hm response_head option" where
  "server_on_error H err =
     map_option (\<lambda>status. (response_head_default H)\<lparr>subject := status\<rparr>)
       (case ekind err of
          KParse ParseMethod \<Rightarrow> Some 400
        | KParse (ParseHeader _) \<Rightarrow> Some 400
        | KParse ParseUri \<Rightarrow> Some 400
        | KParse ParseVersion \<Rightarrow> Some 400
        | KParse ParseTooLarge \<Rightarrow> Some 431
        | KParse ParseUriTooLong \<Rightarrow> Some 414
        | _ \<Rightarrow> None)"

section \<open>The contract of a name writer\<close>

text \<open>
  A writer appends some spelling of the name and, for the two combined operations, the rest of
  the line. \<open>good\<close> is its invariant; \<open>spell w n sp\<close> says that \<open>sp\<close> is an acceptable spelling of
  \<open>n\<close> for a writer in state \<open>w\<close>, which no write changes.
\<close>

locale header_name_writer =
  fixes W :: "'w name_writer"
    and good :: "'w \<Rightarrow> bool"
    and spell :: "'w \<Rightarrow> string \<Rightarrow> bytes \<Rightarrow> bool"
  assumes write_name: "good w \<Longrightarrow> write_header_name W w dst n = (w', dst') \<Longrightarrow>
      good w' \<and> spell w' = spell w \<and> (\<exists>sp. spell w n sp \<and> dst' = dst @ sp)"
    and write_colon: "good w \<Longrightarrow>
      write_header_name_with_colon W w dst (ascii n @ header_sep) n = (w', dst') \<Longrightarrow>
      good w' \<and> spell w' = spell w \<and> (\<exists>sp. spell w n sp \<and> dst' = dst @ sp @ header_sep)"
    and write_full: "good w \<Longrightarrow> write_full_header_line W w dst (ascii n @ rest) (n, rest) = (w', dst') \<Longrightarrow>
      good w' \<and> spell w' = spell w \<and> (\<exists>sp. spell w n sp \<and> dst' = dst @ sp @ rest)"

interpretation lowercase: header_name_writer lowercase_writer "\<lambda>_. True" "\<lambda>_ n sp. sp = ascii n"
  by unfold_locales (simp_all add: lowercase_writer_def)

text \<open>The writer of original names uses a recorded spelling, or the title-case or lower-case one.\<close>

definition orig_spelling :: "('hm, 'uri, 'z) http_scheme \<Rightarrow> 'hm orig_case \<Rightarrow> string \<Rightarrow> bytes \<Rightarrow> bool" where
  "orig_spelling H w n sp \<longleftrightarrow>
     (if oc_title_case_headers w then sp = title_case [] (ascii n) else sp = ascii n) \<or>
     sp \<in> set (case_map_get_all H (oc_map w) n)"

definition orig_case_ok :: "('hm, 'uri, 'z) http_scheme \<Rightarrow> 'hm orig_case \<Rightarrow> bool" where
  "orig_case_ok H w \<longleftrightarrow>
     (case oc_current w of
        None \<Rightarrow> True
      | Some (n, vals) \<Rightarrow> set vals \<subseteq> set (case_map_get_all H (oc_map w) n))"

lemma title_case_loop_append: "title_case_loop prev dst cs = dst @ title_case_loop prev [] cs"
proof (induction cs arbitrary: prev dst)
  case (Cons c cs)
  let ?c = "if prev = DASH then to_ascii_uppercase c else c"
  show ?case using Cons [of ?c "dst @ [?c]"] Cons [of ?c "[?c]"] by (simp add: Let_def)
qed simp

lemma title_case_append: "title_case dst name = dst @ title_case [] name"
  by (simp add: title_case_def title_case_loop_append [of DASH dst])

lemma orig_case_write_name_ok:
  assumes "orig_case_write_name H w dst n = (w', dst')" "orig_case_ok H w"
  shows "orig_case_ok H w' \<and> orig_spelling H w' = orig_spelling H w \<and>
    (\<exists>sp. orig_spelling H w n sp \<and> dst' = dst @ sp)"
proof -
  have same: "orig_spelling H (w\<lparr>oc_current := c\<rparr>) = orig_spelling H w" for c
    by (intro ext) (simp add: orig_spelling_def)
  show ?thesis
    using assms
    by (auto simp: orig_case_write_name_def orig_case_ok_def same Let_def title_case_append [of dst]
        orig_spelling_def split: option.splits prod.splits list.splits if_splits)
qed

interpretation original: header_name_writer "orig_case_writer H" "orig_case_ok H" "orig_spelling H" for H
  by unfold_locales
    (auto simp: orig_case_writer_def split: prod.splits dest!: orig_case_write_name_ok)

section \<open>The layout of the header block\<close>

definition render :: "field \<Rightarrow> bytes" where
  "render f = (case f of (n, sp, v) \<Rightarrow> sp @ header_sep @ v @ CRLF)"

fun pend_bytes :: "field option \<Rightarrow> bytes" where
  "pend_bytes None = []"
| "pend_bytes (Some (n, sp, v)) = sp @ header_sep @ v"

fun pend_list :: "field option \<Rightarrow> field list" where
  "pend_list None = []"
| "pend_list (Some f) = [f]"

lemma values_of_append [simp]: "values_of n (xs @ ys) = values_of n xs @ values_of n ys"
  by (simp add: values_of_def)

text \<open>
  The encoder that a written \<open>Content-Length\<close> stands for. \<open>U\<close> are the values that the caller put
  into the header map; one of them is written as it is when the body knows its own length.
\<close>

definition declared :: "bytes set \<Rightarrow> body_length option \<Rightarrow> bytes \<Rightarrow> encoder \<Rightarrow> bool" where
  "declared U body v e \<longleftrightarrow>
     (case body of
        Some (Known k) \<Rightarrow> e = encoder_length k \<and> (v \<in> U \<or> content_length_parse v = Some k)
      | Some Unknown \<Rightarrow> (\<exists>k. content_length_parse v = Some k \<and> e = encoder_length k)
      | None \<Rightarrow> e = encoder_length 0)"

text \<open>At most one framing header, and the encoder that belongs to it.\<close>

definition one_framing :: "('hm, 'uri, 'z) http_scheme \<Rightarrow> bytes set \<Rightarrow> enc_env \<Rightarrow> field list \<Rightarrow> encoder \<Rightarrow> bool" where
  "one_framing H U env fs e \<longleftrightarrow>
     length (values_of TRANSFER_ENCODING fs) + length (values_of CONTENT_LENGTH fs) \<le> 1 \<and>
     (values_of TRANSFER_ENCODING fs \<noteq> [] \<longrightarrow> e = encoder_chunked \<and> ee_version env \<noteq> HTTP_10 \<and>
        can_chunked H (ee_method env) (ee_status env)) \<and>
     (\<forall>v \<in> set (values_of CONTENT_LENGTH fs). declared U (ee_body env) v e)"

text \<open>
  A finished header block agrees with the encoder: a chunked body has its \<open>Transfer-Encoding\<close>, a
  sized one its \<open>Content-Length\<close>, and a body that ends with the connection has neither.
\<close>

definition framing_lines :: "bytes set \<Rightarrow> body_length option \<Rightarrow> version \<Rightarrow> bool \<Rightarrow> field list \<Rightarrow> encoder \<Rightarrow> bool" where
  "framing_lines U body v has_body ls e \<longleftrightarrow>
     length (values_of TRANSFER_ENCODING ls) + length (values_of CONTENT_LENGTH ls) \<le> 1 \<and>
     (values_of TRANSFER_ENCODING ls \<noteq> [] \<longrightarrow> v \<noteq> HTTP_10) \<and>
     (has_body \<longrightarrow>
        (case enc_kind e of
           EChunked \<Rightarrow> values_of TRANSFER_ENCODING ls \<noteq> []
         | ELength n \<Rightarrow> (\<exists>v. values_of CONTENT_LENGTH ls = [v] \<and> declared U body v (encoder_length n))
         | ECloseDelimited \<Rightarrow> values_of TRANSFER_ENCODING ls = [] \<and> values_of CONTENT_LENGTH ls = []))"

text \<open>
  The invariant of the header loop: \<open>ls\<close> are the finished lines, \<open>pend\<close> the line that is still
  open, \<open>sp0\<close> the spellings of the writer.
\<close>

definition enc_inv ::
    "('hm, 'uri, 'z) http_scheme \<Rightarrow> bytes set \<Rightarrow> enc_env \<Rightarrow> bytes \<Rightarrow> (string \<Rightarrow> bytes \<Rightarrow> bool) \<Rightarrow> field list
     \<Rightarrow> field option \<Rightarrow> 'w enc_acc \<Rightarrow> bool" where
  "enc_inv H U env base sp0 ls pend a \<longleftrightarrow>
     ea_dst a = base @ concat (map render ls) @ pend_bytes pend \<and>
     ea_is_name_written a = (pend \<noteq> None) \<and>
     list_all (\<lambda>(n, sp, v). sp0 n sp) (ls @ pend_list pend) \<and>
     one_framing H U env (ls @ pend_list pend) (ea_encoder a) \<and>
     (values_of TRANSFER_ENCODING (ls @ pend_list pend) \<noteq> [] \<or>
      values_of CONTENT_LENGTH (ls @ pend_list pend) \<noteq> [] \<longrightarrow> ea_wrote_len a) \<and>
     (ea_wrote_len a \<and> can_have_body H (ee_method env) (ee_status env) \<longrightarrow>
      values_of TRANSFER_ENCODING (ls @ pend_list pend) \<noteq> [] \<or>
      values_of CONTENT_LENGTH (ls @ pend_list pend) \<noteq> []) \<and>
     (values_of TRANSFER_ENCODING (ls @ pend_list pend) = [] \<longrightarrow> \<not> ea_must_write_chunked a) \<and>
     (values_of TRANSFER_ENCODING (ls @ pend_list pend) = [] \<and>
      values_of CONTENT_LENGTH (ls @ pend_list pend) = [] \<longrightarrow> ea_encoder a = encoder_length 0) \<and>
     (\<forall>v \<in> set (values_of TRANSFER_ENCODING ls). is_chunked_value H v) \<and>
     (\<forall>n sp v. pend = Some (n, sp, v) \<longrightarrow> ea_cur_name a = Some n \<and>
        (n = TRANSFER_ENCODING \<or> n = CONTENT_LENGTH \<or> n = CONNECTION) \<and>
        (n = TRANSFER_ENCODING \<longrightarrow> hv_to_str H v \<noteq> None \<and>
           ea_must_write_chunked a = (\<not> is_chunked_value H v)) \<and>
        (n = CONTENT_LENGTH \<longrightarrow> ee_body env \<noteq> None \<and>
           (ee_body env = Some Unknown \<longrightarrow> ea_prev_con_len a \<noteq> None)))"

lemma is_chunked_value_join:
  assumes "to_str_ok H" "hv_to_str H v \<noteq> None"
  shows "is_chunked_value H (v @ ascii '', '' @ w) = is_chunked_value H w"
    and "hv_to_str H w \<noteq> None \<Longrightarrow> hv_to_str H (v @ ascii '', '' @ w) \<noteq> None"
proof -
  obtain vis where vis: "\<And>b. 32 \<le> b \<Longrightarrow> b < 127 \<Longrightarrow> vis b"
    "\<And>v. hv_to_str H v = (if list_all vis v then Some v else None)"
    using assms(1) by (rule to_str_okE) blast
  have sep: "ascii '', '' = [COMMA, 32]" by (simp add: ascii_def COMMA_def)
  have "vis COMMA" "vis 32" by (rule vis(1); simp add: COMMA_def)+
  moreover have "list_all vis v" using assms(2) vis(2) by (auto split: if_splits)
  ultimately have str: "hv_to_str H (v @ ascii '', '' @ w) =
      (if list_all vis w then Some (v @ COMMA # 32 # w) else None)"
    by (simp add: vis(2) sep)
  have "trim (last (split_on COMMA (v @ COMMA # 32 # w))) = trim (last (split_on COMMA w))"
    using last_split_on_Cons [of 32 COMMA w]
    by (simp add: split_on_append trim_leading_space is_ws_def COMMA_def del: split_on.simps)
  with str show "is_chunked_value H (v @ ascii '', '' @ w) = is_chunked_value H w"
    by (simp add: is_chunked_value_def vis(2))
  show "hv_to_str H w \<noteq> None \<Longrightarrow> hv_to_str H (v @ ascii '', '' @ w) \<noteq> None"
    using str by (simp add: vis(2) split: if_splits)
qed

lemma is_chunked_value_chunked: "to_str_ok H \<Longrightarrow> is_chunked_value H (ascii ''chunked'')"
proof -
  assume "to_str_ok H"
  then obtain vis where vis: "\<And>b. 32 \<le> b \<Longrightarrow> b < 127 \<Longrightarrow> vis b"
    "\<And>v. hv_to_str H v = (if list_all vis v then Some v else None)"
    by (rule to_str_okE) blast
  then have "list_all vis (ascii ''chunked'')" by (simp add: ascii_def)
  then show ?thesis by (simp add: is_chunked_value_def vis(2) ascii_def COMMA_def trim_def is_ws_def)
qed

text \<open>Closing the open line.\<close>

lemma handle_is_name_written_inv:
  assumes "to_str_ok H" "enc_inv H U env base sp0 ls pend a"
  shows "\<exists>ls'. enc_inv H U env base sp0 ls' None
    ((handle_is_name_written (a\<lparr>ea_cur_name := c\<rparr>))\<lparr>ea_is_name_written := False\<rparr>)"
proof (cases pend)
  case None
  with assms(2) show ?thesis
    by (intro exI [of _ ls]) (simp add: enc_inv_def handle_is_name_written_def)
next
  case (Some f)
  obtain n sp v where f: "f = (n, sp, v)" by (metis surj_pair)
  define v' where "v' = v @ (if ea_must_write_chunked a then ascii '', '' @ ascii ''chunked'' else [])"
  have dst: "ea_dst a = base @ concat (map render ls) @ sp @ header_sep @ v" "ea_is_name_written a"
    using assms(2) Some f by (simp_all add: enc_inv_def)
  have suffix: "ascii '', chunked'' = ascii '', '' @ ascii ''chunked''" by (simp add: ascii_def)
  have h: "(handle_is_name_written (a\<lparr>ea_cur_name := c\<rparr>))\<lparr>ea_is_name_written := False\<rparr> =
      a\<lparr>ea_cur_name := c, ea_is_name_written := False,
        ea_dst := base @ concat (map render (ls @ [(n, sp, v')]))\<rparr>"
    using dst by (simp add: handle_is_name_written_def render_def v'_def suffix)
  have kind: "n = TRANSFER_ENCODING \<or> n = CONTENT_LENGTH \<or> n = CONNECTION"
    using assms(2) Some f by (auto simp: enc_inv_def)
  have te: "n = TRANSFER_ENCODING \<Longrightarrow> is_chunked_value H v'"
    using assms(2) Some f is_chunked_value_append [OF assms(1)] by (auto simp: enc_inv_def v'_def)
  have cl: "n = CONTENT_LENGTH \<Longrightarrow> v' = v"
    using assms(2) Some f by (auto simp: enc_inv_def one_framing_def v'_def)
  have "enc_inv H U env base sp0 (ls @ [(n, sp, v')]) None
      (a\<lparr>ea_cur_name := c, ea_is_name_written := False,
         ea_dst := base @ concat (map render (ls @ [(n, sp, v')]))\<rparr>)"
    using kind
  proof (elim disjE)
    assume "n = TRANSFER_ENCODING"
    with assms(2) Some f te show ?thesis by (simp add: enc_inv_def one_framing_def)
  next
    assume "n = CONTENT_LENGTH"
    with assms(2) Some f cl show ?thesis by (simp add: enc_inv_def one_framing_def)
  next
    assume "n = CONNECTION"
    with assms(2) Some f show ?thesis by (simp add: enc_inv_def one_framing_def)
  qed
  with h show ?thesis by metis
qed

text \<open>The drained values, each with the name it belongs to.\<close>

fun drained_fields :: "string option \<Rightarrow> (string option \<times> bytes) list \<Rightarrow> (string \<times> bytes) list" where
  "drained_fields cur [] = []"
| "drained_fields cur ((opt_name, v) # rest) =
     (case (case opt_name of Some n \<Rightarrow> Some n | None \<Rightarrow> cur) of
        None \<Rightarrow> []
      | Some n \<Rightarrow> (n, v) # drained_fields (Some n) rest)"

text \<open>A refused header takes back everything that was written.\<close>

lemma encode_header_Err:
  "encode_header H W env name val a = Err (d, e) \<Longrightarrow> d = take (ee_orig_len env) (ea_dst a) \<and> e = new_user_header"
  by (auto simp: encode_header_def encode_content_length_def encode_transfer_encoding_def rewind_dst_def
      Let_def split: if_splits option.splits body_length.splits)

context header_name_writer
begin

lemma begin_line_ok:
  assumes "good (ea_writer a)"
  shows "\<exists>sp w'. spell (ea_writer a) name sp \<and> good w' \<and> spell w' = spell (ea_writer a) \<and>
    begin_line W name val a =
      a\<lparr>ea_writer := w', ea_dst := ea_dst a @ sp @ header_sep @ val, ea_is_name_written := True\<rparr>"
proof -
  obtain w' dst' where "write_header_name_with_colon W (ea_writer a) (ea_dst a) (ascii name @ header_sep) name
      = (w', dst')" by fastforce
  moreover from write_colon [OF assms this] obtain sp where
    "good w'" "spell w' = spell (ea_writer a)" "spell (ea_writer a) name sp"
    "dst' = ea_dst a @ sp @ header_sep" by blast
  ultimately show ?thesis by (intro exI [of _ sp] exI [of _ w']) (simp add: begin_line_def)
qed

lemma write_line_ok:
  assumes "good (ea_writer a)"
  shows "\<exists>sp w'. spell (ea_writer a) name sp \<and> good w' \<and> spell w' = spell (ea_writer a) \<and>
    write_line W name val a = a\<lparr>ea_writer := w', ea_dst := ea_dst a @ render (name, sp, val)\<rparr>"
proof -
  obtain w' dst' where "write_header_name W (ea_writer a) (ea_dst a) name = (w', dst')" by fastforce
  moreover from write_name [OF assms this] obtain sp where
    "good w'" "spell w' = spell (ea_writer a)" "spell (ea_writer a) name sp" "dst' = ea_dst a @ sp" by blast
  ultimately show ?thesis
    by (intro exI [of _ sp] exI [of _ w']) (simp add: write_line_def render_def)
qed

text \<open>The state of the loop when a value of the header \<open>name\<close> is handled.\<close>

definition at_name where
  "at_name H U env base sp0 name a \<longleftrightarrow>
     ea_cur_name a = Some name \<and> good (ea_writer a) \<and> spell (ea_writer a) = sp0 \<and>
     (\<exists>ls pend. enc_inv H U env base sp0 ls pend a)"

lemma at_nameE:
  assumes "at_name H U env base sp0 name a"
  obtains ls pend where "enc_inv H U env base sp0 ls pend a" "good (ea_writer a)"
    "spell (ea_writer a) = sp0" "ea_cur_name a = Some name"
    "\<forall>n sp v. pend = Some (n, sp, v) \<longrightarrow> n = name"
proof -
  from assms obtain ls pend where i: "enc_inv H U env base sp0 ls pend a"
    and c: "ea_cur_name a = Some name" "good (ea_writer a)" "spell (ea_writer a) = sp0"
    unfolding at_name_def by blast
  have "\<forall>n sp v. pend = Some (n, sp, v) \<longrightarrow> n = name"
    using i c(1) by (simp add: enc_inv_def)
  from that [OF i c(2,3,1) this] show thesis .
qed

lemma at_nameI:
  "enc_inv H U env base sp0 ls pend a \<Longrightarrow> good (ea_writer a) \<Longrightarrow> spell (ea_writer a) = sp0 \<Longrightarrow>
   ea_cur_name a = Some name \<Longrightarrow> at_name H U env base sp0 name a"
  unfolding at_name_def by blast

lemma enc_inv_not_written: "enc_inv H U env base sp0 ls pend a \<Longrightarrow> \<not> ea_is_name_written a \<Longrightarrow> pend = None"
  unfolding enc_inv_def by blast

lemma enc_inv_written:
  "enc_inv H U env base sp0 ls pend a \<Longrightarrow> ea_is_name_written a \<Longrightarrow>
   \<forall>n sp v. pend = Some (n, sp, v) \<longrightarrow> n = name \<Longrightarrow> \<exists>sp v. pend = Some (name, sp, v)"
  unfolding enc_inv_def by (metis not_None_eq surj_pair)

lemma enc_inv_no_length:
  "enc_inv H U env base sp0 ls None a \<Longrightarrow> \<not> ea_wrote_len a \<Longrightarrow>
   values_of TRANSFER_ENCODING ls = [] \<and> values_of CONTENT_LENGTH ls = [] \<and> \<not> ea_must_write_chunked a"
  by (auto simp: enc_inv_def)

text \<open>A line is opened for a \<open>Content-Length\<close>, a \<open>Transfer-Encoding\<close> or a \<open>Connection\<close>.\<close>

lemma begin_content_length:
  assumes "at_name H U env base sp0 CONTENT_LENGTH a" "\<not> ea_is_name_written a" "\<not> ea_wrote_len a"
    and "declared U (ee_body env) val e" "ee_body env \<noteq> None" "ee_body env = Some Unknown \<longrightarrow> p \<noteq> None"
  shows "at_name H U env base sp0 CONTENT_LENGTH
    ((begin_line W CONTENT_LENGTH val (a\<lparr>ea_encoder := e\<rparr>))\<lparr>ea_wrote_len := True, ea_prev_con_len := p\<rparr>)"
proof -
  from assms(1) obtain ls pend where i: "enc_inv H U env base sp0 ls pend a"
    and w: "good (ea_writer a)" "spell (ea_writer a) = sp0" "ea_cur_name a = Some CONTENT_LENGTH"
    by (rule at_nameE)
  from enc_inv_not_written [OF i assms(2)] i have i: "enc_inv H U env base sp0 ls None a" by simp
  note none = enc_inv_no_length [OF i assms(3)]
  let ?a = "a\<lparr>ea_encoder := e\<rparr>"
  from begin_line_ok [of ?a CONTENT_LENGTH val] w obtain sp w' where
    b: "sp0 CONTENT_LENGTH sp" "good w'" "spell w' = sp0" "begin_line W CONTENT_LENGTH val ?a =
        ?a\<lparr>ea_writer := w', ea_dst := ea_dst a @ sp @ header_sep @ val, ea_is_name_written := True\<rparr>"
    by auto
  have "enc_inv H U env base sp0 ls (Some (CONTENT_LENGTH, sp, val))
      ((begin_line W CONTENT_LENGTH val ?a)\<lparr>ea_wrote_len := True, ea_prev_con_len := p\<rparr>)"
    using i none assms(4-6) b w by (simp add: enc_inv_def one_framing_def)
  from at_nameI [OF this] b w show ?thesis by simp
qed

lemma begin_transfer_encoding:
  assumes "at_name H U env base sp0 TRANSFER_ENCODING a" "\<not> ea_is_name_written a" "\<not> ea_wrote_len a"
    and "ee_version env \<noteq> HTTP_10" "can_chunked H (ee_method env) (ee_status env)" "hv_to_str H val \<noteq> None"
  shows "at_name H U env base sp0 TRANSFER_ENCODING
    (begin_line W TRANSFER_ENCODING val
      (a\<lparr>ea_wrote_len := True, ea_must_write_chunked := \<not> is_chunked_value H val,
         ea_encoder := encoder_chunked\<rparr>))"
proof -
  from assms(1) obtain ls pend where i: "enc_inv H U env base sp0 ls pend a"
    and w: "good (ea_writer a)" "spell (ea_writer a) = sp0" "ea_cur_name a = Some TRANSFER_ENCODING"
    by (rule at_nameE)
  from enc_inv_not_written [OF i assms(2)] i have i: "enc_inv H U env base sp0 ls None a" by simp
  note none = enc_inv_no_length [OF i assms(3)]
  let ?a = "a\<lparr>ea_wrote_len := True, ea_must_write_chunked := \<not> is_chunked_value H val,
         ea_encoder := encoder_chunked\<rparr>"
  from begin_line_ok [of ?a TRANSFER_ENCODING val] w obtain sp w' where
    b: "sp0 TRANSFER_ENCODING sp" "good w'" "spell w' = sp0" "begin_line W TRANSFER_ENCODING val ?a =
        ?a\<lparr>ea_writer := w', ea_dst := ea_dst a @ sp @ header_sep @ val, ea_is_name_written := True\<rparr>"
    by auto
  have "enc_inv H U env base sp0 ls (Some (TRANSFER_ENCODING, sp, val))
      (begin_line W TRANSFER_ENCODING val ?a)"
    using i none assms(4-6) b w by (simp add: enc_inv_def one_framing_def)
  from at_nameI [OF this] b w show ?thesis by simp
qed

lemma begin_connection:
  assumes "at_name H U env base sp0 CONNECTION a" "\<not> ea_is_name_written a"
  shows "at_name H U env base sp0 CONNECTION (begin_line W CONNECTION val (a\<lparr>ea_is_last := l\<rparr>))"
proof -
  from assms(1) obtain ls pend where i: "enc_inv H U env base sp0 ls pend a"
    and w: "good (ea_writer a)" "spell (ea_writer a) = sp0" "ea_cur_name a = Some CONNECTION"
    by (rule at_nameE)
  from enc_inv_not_written [OF i assms(2)] i have i: "enc_inv H U env base sp0 ls None a" by simp
  let ?a = "a\<lparr>ea_is_last := l\<rparr>"
  from begin_line_ok [of ?a CONNECTION val] w obtain sp w' where
    b: "sp0 CONNECTION sp" "good w'" "spell w' = sp0" "begin_line W CONNECTION val ?a =
        ?a\<lparr>ea_writer := w', ea_dst := ea_dst a @ sp @ header_sep @ val, ea_is_name_written := True\<rparr>"
    by auto
  have "enc_inv H U env base sp0 ls (Some (CONNECTION, sp, val)) (begin_line W CONNECTION val ?a)"
    using i b w by (simp add: enc_inv_def one_framing_def)
  from at_nameI [OF this] b w show ?thesis by simp
qed

text \<open>A whole line is written for every other header.\<close>

lemma write_line_inv:
  assumes "at_name H U env base sp0 name a" "\<not> ea_is_name_written a" "name \<noteq> TRANSFER_ENCODING"
    and "name = CONTENT_LENGTH \<longrightarrow> \<not> ea_wrote_len a \<and> ee_body env = None"
  shows "at_name H U env base sp0 name
    (write_line W name val (a\<lparr>ea_wrote_len := ea_wrote_len a \<or> name = CONTENT_LENGTH, ea_wrote_date := d\<rparr>))"
proof -
  from assms(1) obtain ls pend where i: "enc_inv H U env base sp0 ls pend a"
    and w: "good (ea_writer a)" "spell (ea_writer a) = sp0" "ea_cur_name a = Some name"
    by (rule at_nameE)
  from enc_inv_not_written [OF i assms(2)] i have i: "enc_inv H U env base sp0 ls None a" by simp
  note none = enc_inv_no_length [OF i]
  let ?a = "a\<lparr>ea_wrote_len := ea_wrote_len a \<or> name = CONTENT_LENGTH, ea_wrote_date := d\<rparr>"
  from write_line_ok [of ?a name val] w obtain sp w' where
    b: "sp0 name sp" "good w'" "spell w' = sp0"
      "write_line W name val ?a = ?a\<lparr>ea_writer := w', ea_dst := ea_dst a @ render (name, sp, val)\<rparr>"
    by auto
  have "enc_inv H U env base sp0 (ls @ [(name, sp, val)]) None (write_line W name val ?a)"
  proof (cases "name = CONTENT_LENGTH")
    case True
    with none assms(4) have "values_of TRANSFER_ENCODING ls = []" "values_of CONTENT_LENGTH ls = []"
      "ea_encoder a = encoder_length 0" using i by (auto simp: enc_inv_def)
    with True i b assms(4) show ?thesis by (simp add: enc_inv_def one_framing_def declared_def)
  next
    case False
    with i b assms(3) show ?thesis by (simp add: enc_inv_def one_framing_def)
  qed
  from at_nameI [OF this] b w show ?thesis by simp
qed

text \<open>A further value is appended to the open line.\<close>

lemma append_transfer_encoding:
  assumes "to_str_ok H" "at_name H U env base sp0 TRANSFER_ENCODING a" "ea_is_name_written a" "hv_to_str H val \<noteq> None"
  shows "at_name H U env base sp0 TRANSFER_ENCODING
    (a\<lparr>ea_wrote_len := True, ea_must_write_chunked := \<not> is_chunked_value H val,
       ea_dst := ea_dst a @ ascii '', '' @ val\<rparr>)"
proof -
  from assms(2) obtain ls pend where i: "enc_inv H U env base sp0 ls pend a"
    and w: "good (ea_writer a)" "spell (ea_writer a) = sp0" "ea_cur_name a = Some TRANSFER_ENCODING"
    and n: "\<forall>n sp v. pend = Some (n, sp, v) \<longrightarrow> n = TRANSFER_ENCODING"
    by (rule at_nameE)
  from enc_inv_written [OF i assms(3) n] obtain sp v where p: "pend = Some (TRANSFER_ENCODING, sp, v)" by blast
  with i have "hv_to_str H v \<noteq> None" by (simp add: enc_inv_def)
  note join = is_chunked_value_join [OF assms(1) this, of val]
  have "enc_inv H U env base sp0 ls (Some (TRANSFER_ENCODING, sp, v @ ascii '', '' @ val))
    (a\<lparr>ea_wrote_len := True, ea_must_write_chunked := \<not> is_chunked_value H val,
       ea_dst := ea_dst a @ ascii '', '' @ val\<rparr>)"
    using i p join(1) join(2) [OF assms(4)] by (simp add: enc_inv_def one_framing_def)
  from at_nameI [OF this] w show ?thesis by simp
qed

lemma append_connection:
  assumes "at_name H U env base sp0 CONNECTION a" "ea_is_name_written a"
  shows "at_name H U env base sp0 CONNECTION (a\<lparr>ea_is_last := l, ea_dst := ea_dst a @ ascii '', '' @ val\<rparr>)"
proof -
  from assms(1) obtain ls pend where i: "enc_inv H U env base sp0 ls pend a"
    and w: "good (ea_writer a)" "spell (ea_writer a) = sp0" "ea_cur_name a = Some CONNECTION"
    and n: "\<forall>n sp v. pend = Some (n, sp, v) \<longrightarrow> n = CONNECTION"
    by (rule at_nameE)
  from enc_inv_written [OF i assms(2) n] obtain sp v where p: "pend = Some (CONNECTION, sp, v)" by blast
  have "enc_inv H U env base sp0 ls (Some (CONNECTION, sp, v @ ascii '', '' @ val))
    (a\<lparr>ea_is_last := l, ea_dst := ea_dst a @ ascii '', '' @ val\<rparr>)"
    using i p by (simp add: enc_inv_def one_framing_def)
  from at_nameI [OF this] w show ?thesis by simp
qed

lemma at_name_open:
  assumes "at_name H U env base sp0 name a" "ea_is_name_written a"
  shows "(name = TRANSFER_ENCODING \<or> name = CONTENT_LENGTH \<or> name = CONNECTION) \<and>
    (name = CONTENT_LENGTH \<longrightarrow> ee_body env \<noteq> None \<and>
      (ee_body env = Some Unknown \<longrightarrow> ea_prev_con_len a \<noteq> None))"
proof -
  from assms(1) obtain ls pend where i: "enc_inv H U env base sp0 ls pend a"
    and n: "\<forall>n sp v. pend = Some (n, sp, v) \<longrightarrow> n = name"
    by (rule at_nameE)
  from enc_inv_written [OF i assms(2) n] obtain sp v where p: "pend = Some (name, sp, v)" by blast
  with i show ?thesis by (simp add: enc_inv_def)
qed

lemma begin_line_prev: "ea_prev_con_len (begin_line W n v a) = ea_prev_con_len a"
  by (simp add: begin_line_def split: prod.split)

lemma encode_content_length_inv:
  assumes "at_name H U env base sp0 CONTENT_LENGTH a" "val \<in> U" "encode_content_length W env val a = Ok a'"
  shows "at_name H U env base sp0 CONTENT_LENGTH a'"
proof -
  note o = at_name_open [OF assms(1)]
  have g: "ea_wrote_len a \<longrightarrow> ea_is_name_written a"
    using assms(3) by (auto simp: encode_content_length_def split: if_splits)
  show ?thesis
  proof (cases "ee_body env")
    case None
    with o have nw: "\<not> ea_is_name_written a" by blast
    show ?thesis
    proof (cases "ee_method env = Some ''HEAD''")
      case True
      have "a\<lparr>ea_wrote_len := True, ea_wrote_date := ea_wrote_date a\<rparr> = a\<lparr>ea_wrote_len := True\<rparr>" by simp
      with write_line_inv [OF assms(1) nw, of val "ea_wrote_date a"] None nw g assms(3) True
      show ?thesis by (auto simp: encode_content_length_def split: if_splits)
    next
      case False
      with assms None show ?thesis by (auto simp: encode_content_length_def split: if_splits)
    qed
  next
    case (Some body)
    show ?thesis
    proof (cases body)
      case (Known k)
      show ?thesis
      proof (cases "ea_is_name_written a")
        case True
        with assms Some Known show ?thesis by (auto simp: encode_content_length_def split: if_splits)
      next
        case False
        let ?b = "begin_line W CONTENT_LENGTH val (a\<lparr>ea_encoder := encoder_length k\<rparr>)"
        have "ea_prev_con_len ?b = ea_prev_con_len a" by (simp add: begin_line_prev)
        then have "?b\<lparr>ea_wrote_len := True, ea_prev_con_len := ea_prev_con_len a\<rparr> = ?b\<lparr>ea_wrote_len := True\<rparr>"
          by (cases ?b) simp
        moreover have "a' = ?b\<lparr>ea_wrote_len := True\<rparr>"
          using assms(3) Some Known False by (auto simp: encode_content_length_def split: if_splits)
        moreover have "at_name H U env base sp0 CONTENT_LENGTH
            (?b\<lparr>ea_wrote_len := True, ea_prev_con_len := ea_prev_con_len a\<rparr>)"
          using begin_content_length [OF assms(1) False, of val "encoder_length k" "ea_prev_con_len a"]
            g False Some Known assms(2) by (simp add: declared_def)
        ultimately show ?thesis by simp
      qed
    next
      case Unknown
      with assms(3) Some obtain len where len: "content_length_parse val = Some len"
        by (auto simp: encode_content_length_def split: if_splits option.splits)
      show ?thesis
      proof (cases "ea_prev_con_len a")
        case None
        with o Some Unknown have nw: "\<not> ea_is_name_written a" by blast
        have "a' = (begin_line W CONTENT_LENGTH val (a\<lparr>ea_encoder := encoder_length len\<rparr>))
            \<lparr>ea_wrote_len := True, ea_prev_con_len := Some len\<rparr>"
          using assms(3) Some Unknown len None by (auto simp: encode_content_length_def split: if_splits)
        with begin_content_length [OF assms(1) nw, of val "encoder_length len" "Some len"]
          g nw Some Unknown len show ?thesis by (simp add: declared_def)
      next
        case p: (Some prev)
        with assms Some Unknown len show ?thesis
          by (auto simp: encode_content_length_def split: if_splits)
      qed
    qed
  qed
qed

lemma encode_transfer_encoding_inv:
  assumes "to_str_ok H" "at_name H U env base sp0 TRANSFER_ENCODING a" "hv_to_str H val \<noteq> None"
    and "encode_transfer_encoding H W env val a = Ok a'"
  shows "at_name H U env base sp0 TRANSFER_ENCODING a'"
proof (cases "ee_version env = HTTP_10 \<or> \<not> can_chunked H (ee_method env) (ee_status env)")
  case True
  with assms show ?thesis by (auto simp: encode_transfer_encoding_def split: if_splits)
next
  case False
  have g: "ea_wrote_len a \<longrightarrow> ea_is_name_written a"
    using assms(4) by (auto simp: encode_transfer_encoding_def split: if_splits)
  show ?thesis
  proof (cases "ea_is_name_written a")
    case True
    with append_transfer_encoding [OF assms(1,2) True assms(3)] assms(4) False show ?thesis
      by (auto simp: encode_transfer_encoding_def Let_def split: if_splits)
  next
    case nw: False
    with begin_transfer_encoding [OF assms(2) nw _ _ _ assms(3)] assms(4) False g show ?thesis
      by (auto simp: encode_transfer_encoding_def Let_def split: if_splits)
  qed
qed

lemma encode_connection_inv:
  assumes "at_name H U env base sp0 CONNECTION a"
  shows "at_name H U env base sp0 CONNECTION (encode_connection H W val a)"
proof -
  have l: "(if \<not> ea_is_last a \<and> connection_close H val then a\<lparr>ea_is_last := True\<rparr> else a) =
      a\<lparr>ea_is_last := ea_is_last a \<or> connection_close H val\<rparr>" by (cases a) auto
  show ?thesis
    using begin_connection [OF assms] append_connection [OF assms]
    by (simp add: encode_connection_def l Let_def)
qed

lemma encode_header_inv:
  assumes "to_str_ok H" "at_name H U env base sp0 name a" "name = TRANSFER_ENCODING \<Longrightarrow> hv_to_str H val \<noteq> None"
    and "name = CONTENT_LENGTH \<Longrightarrow> val \<in> U" "encode_header H W env name val a = Ok a'"
  shows "at_name H U env base sp0 name a'"
proof -
  consider "name = CONTENT_LENGTH" | "name = TRANSFER_ENCODING" | "name = CONNECTION"
    | "name \<noteq> CONTENT_LENGTH" "name \<noteq> TRANSFER_ENCODING" "name \<noteq> CONNECTION" by blast
  then show ?thesis
  proof cases
    case 1
    with assms encode_content_length_inv show ?thesis by (simp add: encode_header_def)
  next
    case 2
    with assms encode_transfer_encoding_inv [OF assms(1)] show ?thesis by (simp add: encode_header_def)
  next
    case 3
    with assms encode_connection_inv [of H U env base sp0 a val] show ?thesis
      by (auto simp: encode_header_def)
  next
    case 4
    with at_name_open [OF assms(2)] have nw: "\<not> ea_is_name_written a" by blast
    have d: "(if name = DATE then a\<lparr>ea_wrote_date := True\<rparr> else a) =
        a\<lparr>ea_wrote_len := ea_wrote_len a \<or> name = CONTENT_LENGTH,
          ea_wrote_date := ea_wrote_date a \<or> name = DATE\<rparr>" using 4 by (cases a) auto
    have "a' = write_line W name val (a\<lparr>ea_wrote_len := ea_wrote_len a \<or> name = CONTENT_LENGTH,
          ea_wrote_date := ea_wrote_date a \<or> name = DATE\<rparr>)"
      using assms(5) 4 unfolding d [symmetric] by (simp add: encode_header_def)
    with write_line_inv [OF assms(2) nw, of val "ea_wrote_date a \<or> name = DATE"] 4 show ?thesis by simp
  qed
qed

text \<open>Between two values the loop is in a state that satisfies the invariant.\<close>

definition in_loop where
  "in_loop H U env base sp0 a \<longleftrightarrow> good (ea_writer a) \<and> spell (ea_writer a) = sp0 \<and>
     (\<exists>ls pend. enc_inv H U env base sp0 ls pend a)"

lemma encode_header_loop_inv:
  assumes "to_str_ok H" "in_loop H U env base sp0 a" "encode_header_loop H W env drained a = Some (Ok a')"
    and "\<forall>(n, v) \<in> set (drained_fields (ea_cur_name a) drained).
      (n = TRANSFER_ENCODING \<longrightarrow> hv_to_str H v \<noteq> None) \<and> (n = CONTENT_LENGTH \<longrightarrow> v \<in> U)"
  shows "in_loop H U env base sp0 a'"
  using assms(2-)
proof (induction drained arbitrary: a)
  case Nil
  then show ?case by simp
next
  case (Cons d drained)
  obtain opt_name val where d: "d = (opt_name, val)" by fastforce
  let ?a = "case opt_name of
      Some n \<Rightarrow> (handle_is_name_written (a\<lparr>ea_cur_name := Some n\<rparr>))\<lparr>ea_is_name_written := False\<rparr>
    | None \<Rightarrow> a"
  have fr: "ea_writer ?a = ea_writer a"
    "ea_cur_name ?a = (case opt_name of Some n \<Rightarrow> Some n | None \<Rightarrow> ea_cur_name a)"
    by (simp_all add: handle_is_name_written_def split: option.split)
  have inv: "in_loop H U env base sp0 ?a"
    using Cons.prems(1) fr handle_is_name_written_inv [OF assms(1)]
    unfolding in_loop_def by (cases opt_name) (fastforce simp del: enc_acc.simps)+
  from Cons.prems(2) obtain name a1 where
    n: "ea_cur_name ?a = Some name" "encode_header H W env name val ?a = Ok a1"
      "encode_header_loop H W env drained a1 = Some (Ok a')"
    by (auto simp: d Let_def split: option.splits sum.splits)
  have "at_name H U env base sp0 name ?a" using inv n(1) by (auto simp: in_loop_def at_name_def)
  moreover have f: "drained_fields (ea_cur_name a) (d # drained) = (name, val) # drained_fields (Some name) drained"
    using n(1) fr(2) by (simp add: d)
  ultimately have a1: "at_name H U env base sp0 name a1"
    using encode_header_inv [OF assms(1) _ _ _ n(2)] Cons.prems(3) by auto
  then have "in_loop H U env base sp0 a1" "ea_cur_name a1 = Some name"
    by (auto simp: in_loop_def at_name_def)
  with Cons.IH n(3) Cons.prems(3) f show ?case by auto
qed

text \<open>The destination only grows while headers are written.\<close>

definition grows :: "'w enc_acc \<Rightarrow> 'w enc_acc \<Rightarrow> bool" where
  "grows a a' \<longleftrightarrow> good (ea_writer a') \<and> (\<exists>x. ea_dst a' = ea_dst a @ x)"

lemma begin_line_grows: "good (ea_writer a) \<Longrightarrow> grows a (begin_line W name val a)"
  using begin_line_ok [of a name val] by (auto simp: grows_def)

lemma write_line_grows: "good (ea_writer a) \<Longrightarrow> grows a (write_line W name val a)"
  using write_line_ok [of a name val] by (auto simp: grows_def)

lemma encode_header_grows:
  assumes "good (ea_writer a)" "encode_header H W env name val a = Ok a'"
  shows "grows a a'"
proof -
  have up: "grows a (begin_line W n val (a\<lparr>ea_encoder := e\<rparr>))"
    "grows a (begin_line W n val (a\<lparr>ea_is_last := l\<rparr>))" "grows a (begin_line W n val a)"
    "grows a (begin_line W n val (a\<lparr>ea_wrote_len := l, ea_must_write_chunked := m, ea_encoder := e\<rparr>))"
    "grows a (write_line W n val (a\<lparr>ea_wrote_len := l\<rparr>))" "grows a (write_line W n val a)"
    "grows a (write_line W n val (a\<lparr>ea_wrote_date := l\<rparr>))" "grows a a" for n e l m
    using assms(1) begin_line_grows [of "a\<lparr>ea_encoder := e\<rparr>"] begin_line_grows [of "a\<lparr>ea_is_last := l\<rparr>"]
      begin_line_grows [of a]
      begin_line_grows [of "a\<lparr>ea_wrote_len := l, ea_must_write_chunked := m, ea_encoder := e\<rparr>"]
      write_line_grows [of "a\<lparr>ea_wrote_len := l\<rparr>"] write_line_grows [of a]
      write_line_grows [of "a\<lparr>ea_wrote_date := l\<rparr>"]
    by (simp_all add: grows_def)
  have upd: "grows a (b\<lparr>ea_wrote_len := l\<rparr>)" "grows a (b\<lparr>ea_wrote_len := l, ea_prev_con_len := p\<rparr>)"
    if "grows a b" for b l p using that by (simp_all add: grows_def)
  have app: "grows a (a\<lparr>ea_dst := ea_dst a @ x\<rparr>)" "grows a (a\<lparr>ea_is_last := l, ea_dst := ea_dst a @ x\<rparr>)"
    "grows a (a\<lparr>ea_wrote_len := l, ea_must_write_chunked := m, ea_dst := ea_dst a @ x\<rparr>)" for x l m
    using assms(1) by (simp_all add: grows_def)
  consider "name = CONTENT_LENGTH" | "name = TRANSFER_ENCODING" | "name = CONNECTION"
    | "name \<noteq> CONTENT_LENGTH" "name \<noteq> TRANSFER_ENCODING" "name \<noteq> CONNECTION" by blast
  then show ?thesis
  proof cases
    case 1
    with assms(2) up upd show ?thesis
      by (auto simp: encode_header_def encode_content_length_def
          split: if_splits option.splits body_length.splits)
  next
    case 2
    with assms(2) up app show ?thesis
      by (auto simp: encode_header_def encode_transfer_encoding_def Let_def split: if_splits)
  next
    case 3
    with assms(2) up app show ?thesis
      by (auto simp: encode_header_def encode_connection_def Let_def split: if_splits)
  next
    case 4
    with assms(2) up show ?thesis by (auto simp: encode_header_def split: if_splits)
  qed
qed

lemma encode_header_loop_Err:
  assumes "good (ea_writer a)" "ee_orig_len env \<le> length (ea_dst a)"
    and "encode_header_loop H W env drained a = Some (Err (d, e))"
  shows "d = take (ee_orig_len env) (ea_dst a) \<and> e = new_user_header"
  using assms
proof (induction drained arbitrary: a)
  case (Cons dr drained)
  obtain opt_name val where d: "dr = (opt_name, val)" by fastforce
  let ?a = "case opt_name of
      Some n \<Rightarrow> (handle_is_name_written (a\<lparr>ea_cur_name := Some n\<rparr>))\<lparr>ea_is_name_written := False\<rparr>
    | None \<Rightarrow> a"
  have a: "good (ea_writer ?a)" "\<exists>x. ea_dst ?a = ea_dst a @ x"
    using Cons.prems(1) by (simp_all add: handle_is_name_written_def split: option.split)
  from Cons.prems(3) obtain name where n: "ea_cur_name ?a = Some name"
    by (auto simp: d Let_def split: option.splits)
  show ?case
  proof (cases "encode_header H W env name val ?a")
    case (Inl de)
    with Cons.prems(3) n have "encode_header H W env name val ?a = Err (d, e)" by (simp add: d Let_def)
    from encode_header_Err [OF this] a(2) Cons.prems(2) show ?thesis by auto
  next
    case (Inr a1)
    with Cons.prems(3) n have "encode_header_loop H W env drained a1 = Some (Err (d, e))"
      by (simp add: d Let_def)
    with Cons.IH [of a1] encode_header_grows [OF a(1) Inr] a(2) Cons.prems(2) show ?thesis
      by (fastforce simp: grows_def)
  qed
qed simp

text \<open>The framing that is chosen when the headers left it open.\<close>

lemma full_line_ok:
  assumes "good (ea_writer a)"
  shows "\<exists>sp w'. spell (ea_writer a) n sp \<and> good w' \<and> spell w' = spell (ea_writer a) \<and>
    write_full_header_line W (ea_writer a) (ea_dst a) (ascii n @ header_sep @ v @ CRLF)
      (n, header_sep @ v @ CRLF) = (w', ea_dst a @ render (n, sp, v))"
  using write_full [OF assms, of "ea_dst a" n "header_sep @ v @ CRLF"]
  by (cases "write_full_header_line W (ea_writer a) (ea_dst a) (ascii n @ header_sep @ v @ CRLF)
      (n, header_sep @ v @ CRLF)") (auto simp: render_def)

lemma colon_line_ok:
  assumes "good (ea_writer a)"
  shows "\<exists>sp w'. spell (ea_writer a) n sp \<and> good w' \<and> spell w' = spell (ea_writer a) \<and>
    write_header_name_with_colon W (ea_writer a) (ea_dst a) (ascii n @ header_sep) n =
      (w', ea_dst a @ sp @ header_sep)"
  using write_colon [OF assms, of "ea_dst a" n]
  by (cases "write_header_name_with_colon W (ea_writer a) (ea_dst a) (ascii n @ header_sep) n") auto

lemma encode_default_length_ok:
  assumes "good (ea_writer a)"
  shows "\<exists>ls w' e. encode_default_length H W env a =
      a\<lparr>ea_writer := w', ea_dst := ea_dst a @ concat (map render ls), ea_encoder := e\<rparr> \<and>
    good w' \<and> spell w' = spell (ea_writer a) \<and> list_all (\<lambda>(n, sp, v). spell (ea_writer a) n sp) ls \<and>
    (\<forall>v \<in> set (values_of TRANSFER_ENCODING ls). v = ascii ''chunked'') \<and>
    framing_lines U (ee_body env) (ee_version env) (can_have_body H (ee_method env) (ee_status env)) ls e"
proof -
  let ?cl = "can_have_content_length H (ee_method env) (ee_status env)"
  let ?len = "case ee_body env of Some (Known len) \<Rightarrow> len | _ \<Rightarrow> 0"
  have body: "can_have_body H (ee_method env) (ee_status env) \<Longrightarrow> ?cl"
    by (auto simp: can_have_body_def can_chunked_def can_have_content_length_def split: if_splits)
  have zero: "content_length_parse (ascii ''0'') = Some 0"
    using from_digits_decimal [of 0] by (simp add: content_length_parse_def decimal.simps ascii_def decimal_digit_def)
  have none: ?thesis if "encode_default_length H W env a = a\<lparr>ea_encoder := e\<rparr>"
    and "framing_lines U (ee_body env) (ee_version env) (can_have_body H (ee_method env) (ee_status env)) [] e" for e
    using that assms by (intro exI [of _ "[]"] exI [of _ "ea_writer a"] exI [of _ e]) simp
  show ?thesis
  proof (cases "ee_body env = Some Unknown")
    case True
    show ?thesis
    proof (cases "ee_version env = HTTP_10 \<or> \<not> can_chunked H (ee_method env) (ee_status env)")
      case c: True
      with True show ?thesis
        by (intro none [of encoder_close_delimited])
          (auto simp: encode_default_length_def framing_lines_def encoder_close_delimited_def encoder_new_def)
    next
      case False
      from full_line_ok [OF assms, of TRANSFER_ENCODING "ascii ''chunked''"] obtain sp w' where
        "spell (ea_writer a) TRANSFER_ENCODING sp" "good w'" "spell w' = spell (ea_writer a)"
        "write_full_header_line W (ea_writer a) (ea_dst a)
          (ascii TRANSFER_ENCODING @ header_sep @ ascii ''chunked'' @ CRLF)
          (TRANSFER_ENCODING, header_sep @ ascii ''chunked'' @ CRLF) =
          (w', ea_dst a @ render (TRANSFER_ENCODING, sp, ascii ''chunked''))" by blast
      with True False show ?thesis
        by (intro exI [of _ "[(TRANSFER_ENCODING, sp, ascii ''chunked'')]"] exI [of _ w']
            exI [of _ encoder_chunked])
          (simp add: encode_default_length_def framing_lines_def encoder_chunked_def encoder_new_def)
    qed
  next
    case known: False
    then have edl: "encode_default_length H W env a =
       (if ?len = 0 then
          (if ?cl then case write_full_header_line W (ea_writer a) (ea_dst a)
               (ascii CONTENT_LENGTH @ header_sep @ ascii ''0'' @ CRLF)
               (CONTENT_LENGTH, header_sep @ ascii ''0'' @ CRLF) of
             (w, dst) \<Rightarrow> a\<lparr>ea_writer := w, ea_dst := dst, ea_encoder := encoder_length 0\<rparr>
           else a\<lparr>ea_encoder := encoder_length 0\<rparr>)
        else if \<not> ?cl then a\<lparr>ea_encoder := encoder_length 0\<rparr>
        else case write_header_name_with_colon W (ea_writer a) (ea_dst a)
               (ascii CONTENT_LENGTH @ header_sep) CONTENT_LENGTH of
             (w, dst) \<Rightarrow> a\<lparr>ea_writer := w, ea_dst := dst @ decimal (unat ?len) @ CRLF,
               ea_encoder := encoder_length ?len\<rparr>)"
      by (auto simp: encode_default_length_def Let_def split: option.splits body_length.splits)
    consider "\<not> ?cl" | "?cl" "?len = 0" | "?cl" "?len \<noteq> 0" by blast
    then show ?thesis
    proof cases
      case 1
      with body edl show ?thesis
        by (intro none [of "encoder_length 0"]) (auto simp: framing_lines_def)
    next
      case 2
      have d: "declared U (ee_body env) (ascii ''0'') (encoder_length 0)"
        using 2 known zero by (auto simp: declared_def split: option.splits body_length.splits)
      from full_line_ok [OF assms, of CONTENT_LENGTH "ascii ''0''"] obtain sp w' where
        "spell (ea_writer a) CONTENT_LENGTH sp" "good w'" "spell w' = spell (ea_writer a)"
        "write_full_header_line W (ea_writer a) (ea_dst a) (ascii CONTENT_LENGTH @ header_sep @ ascii ''0'' @ CRLF)
          (CONTENT_LENGTH, header_sep @ ascii ''0'' @ CRLF) =
          (w', ea_dst a @ render (CONTENT_LENGTH, sp, ascii ''0''))" by blast
      with 2 d edl show ?thesis
        by (intro exI [of _ "[(CONTENT_LENGTH, sp, ascii ''0'')]"] exI [of _ w'] exI [of _ "encoder_length 0"])
          (simp add: framing_lines_def encoder_length_def encoder_new_def)
    next
      case 3
      then obtain len where len: "ee_body env = Some (Known len)" by (auto split: option.splits body_length.splits)
      then have d: "declared U (ee_body env) (decimal (unat ?len)) (encoder_length ?len)"
        using from_digits_decimal [of len] by (simp add: declared_def content_length_parse_def)
      from colon_line_ok [OF assms, of CONTENT_LENGTH] obtain sp w' where
        "spell (ea_writer a) CONTENT_LENGTH sp" "good w'" "spell w' = spell (ea_writer a)"
        "write_header_name_with_colon W (ea_writer a) (ea_dst a) (ascii CONTENT_LENGTH @ header_sep)
          CONTENT_LENGTH = (w', ea_dst a @ sp @ header_sep)" by blast
      with 3 d edl show ?thesis
        by (intro exI [of _ "[(CONTENT_LENGTH, sp, decimal (unat ?len))]"] exI [of _ w']
            exI [of _ "encoder_length ?len"])
          (simp add: framing_lines_def encoder_length_def encoder_new_def render_def)
    qed
  qed
qed

lemma encode_date_ok:
  assumes "good (ea_writer a)"
  shows "\<exists>ls. ea_dst (encode_date W date a) = ea_dst a @ concat (map render ls) @ CRLF \<and>
    list_all (\<lambda>(n, sp, v). spell (ea_writer a) n sp \<and> n = DATE) ls \<and>
    ea_encoder (encode_date W date a) = ea_encoder a \<and> ea_is_last (encode_date W date a) = ea_is_last a"
proof (cases "ea_wrote_date a")
  case True
  then show ?thesis by (intro exI [of _ "[]"]) (simp add: encode_date_def)
next
  case False
  from colon_line_ok [OF assms, of DATE] obtain sp w' where
    "spell (ea_writer a) DATE sp"
    "write_header_name_with_colon W (ea_writer a) (ea_dst a) (ascii DATE @ header_sep) DATE =
      (w', ea_dst a @ sp @ header_sep)" by blast
  with False show ?thesis
    by (intro exI [of _ "[(DATE, sp, date)]"]) (simp add: encode_date_def render_def)
qed

lemma values_of_date: "list_all (\<lambda>(n, sp, v). P n sp v \<and> n = DATE) ls \<Longrightarrow>
    values_of TRANSFER_ENCODING ls = [] \<and> values_of CONTENT_LENGTH ls = []"
  by (induction ls) (auto simp: values_of_def)

lemma framing_lines_cong:
  "framing_lines U (ee_body env) (ee_version env) hb ls e \<Longrightarrow> values_of TRANSFER_ENCODING ls' = values_of TRANSFER_ENCODING ls \<Longrightarrow>
   values_of CONTENT_LENGTH ls' = values_of CONTENT_LENGTH ls \<Longrightarrow> (hb \<Longrightarrow> enc_kind e' = enc_kind e) \<Longrightarrow>
   framing_lines U (ee_body env) (ee_version env) hb ls' e'"
  by (simp add: framing_lines_def cong: encoder_kind.case_cong)

text \<open>When a header decided the framing, the encoder agrees with it.\<close>

lemma enc_inv_framing:
  assumes "enc_inv H U env base sp0 ls None a" "ea_wrote_len a"
  shows "framing_lines U (ee_body env) (ee_version env) (can_have_body H (ee_method env) (ee_status env)) ls (ea_encoder a)"
proof (cases "values_of TRANSFER_ENCODING ls = []")
  case te: True
  show ?thesis
  proof (cases "values_of CONTENT_LENGTH ls")
    case Nil
    with te assms show ?thesis by (simp add: enc_inv_def framing_lines_def)
  next
    case (Cons v vs)
    with te assms(1) have v: "values_of CONTENT_LENGTH ls = [v]" "declared U (ee_body env) v (ea_encoder a)"
      by (auto simp: enc_inv_def one_framing_def)
    then obtain n where "ea_encoder a = encoder_length n"
      by (auto simp: declared_def split: option.splits body_length.splits)
    with v te show ?thesis by (simp add: framing_lines_def encoder_length_def encoder_new_def)
  qed
next
  case False
  with assms(1) show ?thesis
    by (auto simp: enc_inv_def one_framing_def framing_lines_def encoder_chunked_def encoder_new_def)
qed

lemma framing_decided:
  assumes "to_str_ok H" "enc_inv H U env base (spell w) ls None (a\<lparr>ea_is_name_written := False\<rparr>)"
    and "good (ea_writer a)" "spell (ea_writer a) = spell w"
    and "a' = (if \<not> ea_wrote_len a then encode_default_length H W env a else a)"
  shows "\<exists>ls2. ea_dst a' = base @ concat (map render ls2) \<and> good (ea_writer a') \<and>
      spell (ea_writer a') = spell w \<and> list_all (\<lambda>(n, sp, v). spell w n sp) ls2 \<and>
      (\<forall>v \<in> set (values_of TRANSFER_ENCODING ls2). is_chunked_value H v) \<and>
      framing_lines U (ee_body env) (ee_version env) (can_have_body H (ee_method env) (ee_status env)) ls2 (ea_encoder a')"
proof (cases "ea_wrote_len a")
  case True
  with enc_inv_framing [OF assms(2)] assms show ?thesis
    by (intro exI [of _ ls]) (auto simp: enc_inv_def)
next
  case False
  obtain dls w' e where d: "encode_default_length H W env a =
      a\<lparr>ea_writer := w', ea_dst := ea_dst a @ concat (map render dls), ea_encoder := e\<rparr>"
    "good w'" "spell w' = spell w" "list_all (\<lambda>(n, sp, v). spell w n sp) dls"
    "\<forall>v \<in> set (values_of TRANSFER_ENCODING dls). v = ascii ''chunked''"
    "framing_lines U (ee_body env) (ee_version env) (can_have_body H (ee_method env) (ee_status env)) dls e"
    using encode_default_length_ok [OF assms(3), where H = H and env = env and U = U]
    unfolding assms(4) by blast
  have none: "values_of TRANSFER_ENCODING ls = []" "values_of CONTENT_LENGTH ls = []"
    using assms(2) False by (auto simp: enc_inv_def)
  have ch: "is_chunked_value H (ascii ''chunked'')" by (rule is_chunked_value_chunked [OF assms(1)])
  have "framing_lines U (ee_body env) (ee_version env) (can_have_body H (ee_method env) (ee_status env)) (ls @ dls) e"
    using d(6) by (rule framing_lines_cong) (simp_all add: none)
  with d assms(2,5) False none ch show ?thesis
    by (intro exI [of _ "ls @ dls"]) (auto simp: enc_inv_def)
qed

text \<open>
  The whole header block. \<open>wrote_len\<close> is set from the start only for responses without a body.
\<close>

lemma encode_headers_ok:
  assumes "to_str_ok H" "good w" "wrote_len \<longrightarrow> \<not> can_have_body H (ee_method env) (ee_status env)"
    and "\<forall>(n, v) \<in> set (drained_fields None drained).
      (n = TRANSFER_ENCODING \<longrightarrow> hv_to_str H v \<noteq> None) \<and> (n = CONTENT_LENGTH \<longrightarrow> v \<in> U)"
    and "encode_headers H W date env drained base is_last wrote_len w = Some (dst', Ok e)"
  shows "\<exists>ls. dst' = base @ concat (map render ls) @ CRLF \<and>
    list_all (\<lambda>(n, sp, v). spell w n sp) ls \<and>
    (\<forall>v \<in> set (values_of TRANSFER_ENCODING ls). is_chunked_value H v) \<and>
    framing_lines U (ee_body env) (ee_version env) (can_have_body H (ee_method env) (ee_status env)) ls e \<and>
    (\<not> can_have_body H (ee_method env) (ee_status env) \<longrightarrow> enc_kind e = ELength 0)"
proof -
  let ?hb = "can_have_body H (ee_method env) (ee_status env)"
  let ?a0 = "\<lparr>ea_dst = base, ea_encoder = encoder_length 0, ea_wrote_date = False,
      ea_wrote_len = wrote_len, ea_cur_name = None, ea_is_name_written = False,
      ea_must_write_chunked = False, ea_prev_con_len = None, ea_is_last = is_last, ea_writer = w\<rparr>"
  from assms(5) obtain a1 where l: "encode_header_loop H W env drained ?a0 = Some (Ok a1)"
    by (auto simp: encode_headers_def Let_def split: option.splits sum.splits)
  have "enc_inv H U env base (spell w) [] None ?a0"
    using assms(3) by (auto simp: enc_inv_def one_framing_def)
  then have "in_loop H U env base (spell w) ?a0" using assms(2) by (auto simp: in_loop_def)
  from encode_header_loop_inv [OF assms(1) this l] assms(4)
  have "in_loop H U env base (spell w) a1" by simp
  then obtain ls0 pend where w1: "good (ea_writer a1)" "spell (ea_writer a1) = spell w"
    and i1: "enc_inv H U env base (spell w) ls0 pend a1" by (auto simp: in_loop_def)
  have self: "a1\<lparr>ea_cur_name := ea_cur_name a1\<rparr> = a1" by simp
  let ?a2 = "handle_is_name_written a1"
  from handle_is_name_written_inv [OF assms(1) i1, of "ea_cur_name a1"] obtain ls1 where
    i2: "enc_inv H U env base (spell w) ls1 None (?a2\<lparr>ea_is_name_written := False\<rparr>)"
    unfolding self by blast
  have w2: "good (ea_writer ?a2)" "spell (ea_writer ?a2) = spell w" "ea_wrote_len ?a2 = ea_wrote_len a1"
    using w1 by (simp_all add: handle_is_name_written_def)
  let ?a3 = "if \<not> ea_wrote_len ?a2 then encode_default_length H W env ?a2 else ?a2"
  have "\<exists>ls2. ea_dst ?a3 = base @ concat (map render ls2) \<and> good (ea_writer ?a3) \<and>
      spell (ea_writer ?a3) = spell w \<and> list_all (\<lambda>(n, sp, v). spell w n sp) ls2 \<and>
      (\<forall>v \<in> set (values_of TRANSFER_ENCODING ls2). is_chunked_value H v) \<and>
      framing_lines U (ee_body env) (ee_version env) ?hb ls2 (ea_encoder ?a3)"
    using framing_decided [OF assms(1) i2 w2(1,2) refl] .
  then obtain ls2 where i3: "ea_dst ?a3 = base @ concat (map render ls2)" "good (ea_writer ?a3)"
      "spell (ea_writer ?a3) = spell w" "list_all (\<lambda>(n, sp, v). spell w n sp) ls2"
      "\<forall>v \<in> set (values_of TRANSFER_ENCODING ls2). is_chunked_value H v"
      "framing_lines U (ee_body env) (ee_version env) ?hb ls2 (ea_encoder ?a3)" by blast
  let ?a4 = "if \<not> ?hb then ?a3\<lparr>ea_encoder := encoder_length 0\<rparr> else ?a3"
  have g4: "good (ea_writer ?a4)" using i3(2) by simp
  from encode_date_ok [OF g4, of date] obtain ls3 where
    d: "ea_dst (encode_date W date ?a4) = ea_dst ?a4 @ concat (map render ls3) @ CRLF"
      "list_all (\<lambda>(n, sp, v). spell (ea_writer ?a4) n sp \<and> n = DATE) ls3"
      "ea_encoder (encode_date W date ?a4) = ea_encoder ?a4" by blast
  have res: "dst' = ea_dst (encode_date W date ?a4)" "enc_kind e = enc_kind (ea_encoder ?a4)"
    using assms(5) l by (auto simp: encode_headers_def Let_def set_last_def d(3))
  have dates: "values_of TRANSFER_ENCODING ls3 = []" "values_of CONTENT_LENGTH ls3 = []"
    using values_of_date [OF d(2)] by simp_all
  show ?thesis
  proof (intro exI [of _ "ls2 @ ls3"] conjI)
    show "dst' = base @ concat (map render (ls2 @ ls3)) @ CRLF" using res(1) d(1) i3(1) by simp
    show "list_all (\<lambda>(n, sp, v). spell w n sp) (ls2 @ ls3)"
      using i3(3,4) d(2) by (auto simp: list_all_iff split: if_splits)
    show "\<forall>v \<in> set (values_of TRANSFER_ENCODING (ls2 @ ls3)). is_chunked_value H v"
      using i3(5) dates by simp
    show "framing_lines U (ee_body env) (ee_version env) ?hb (ls2 @ ls3) e"
      using i3(6) by (rule framing_lines_cong) (simp_all add: dates res(2))
    show "\<not> ?hb \<longrightarrow> enc_kind e = ELength 0"
      using res(2) by (simp add: encoder_length_def encoder_new_def)
  qed
qed

end

end
