(* ===== verification/Http_Example.thy ===== *)
theory Http_Example
  imports Http_Types
begin

text \<open>
  A concrete instance of the \<open>http\<close> interface, used to show that the hypotheses about it can hold:
  a header map is the list of its fields in insertion order, a URI is its text.
\<close>

type_synonym ex_map = "(string \<times> bytes) list"

definition ex_get_all :: "ex_map \<Rightarrow> string \<Rightarrow> bytes list" where
  "ex_get_all m n = map snd (filter (\<lambda>(k, v). k = n) m)"

definition ex_remove :: "ex_map \<Rightarrow> string \<Rightarrow> ex_map" where
  "ex_remove m n = filter (\<lambda>(k, v). k \<noteq> n) m"

fun ex_update_last :: "ex_map \<Rightarrow> string \<Rightarrow> (bytes \<Rightarrow> bytes) \<Rightarrow> ex_map" where
  "ex_update_last [] n f = []"
| "ex_update_last ((k, v) # m) n f =
     (if k = n \<and> ex_get_all m n = [] then (k, f v) # m else (k, v) # ex_update_last m n f)"

definition ex_drain :: "ex_map \<Rightarrow> (string option \<times> bytes) list" where
  "ex_drain m =
     concat (map (\<lambda>k. case ex_get_all m k of
                        [] \<Rightarrow> []
                      | v # vs \<Rightarrow> (Some k, v) # map (Pair None) vs) (remdups (map fst m)))"

definition ex_visible :: "u8 \<Rightarrow> bool" where
  "ex_visible b \<longleftrightarrow> 32 \<le> b \<and> b < 127 \<or> b = 9"

definition ex_string :: "bytes \<Rightarrow> string" where
  "ex_string bs = map (\<lambda>b. char_of (unat (to_ascii_lowercase b))) bs"

definition ex_http :: "(ex_map, bytes) http" where
  "ex_http =
     \<lparr>hv_to_str = (\<lambda>v. if list_all ex_visible v then Some v else None),
      hv_from_u64 = (\<lambda>n. decimal (unat n)),
      hn_from_bytes = (\<lambda>bs. if bs = [] then None else Some (ex_string bs)),
      method_from_bytes = (\<lambda>bs. if bs = [] then None else Some (map (\<lambda>b. char_of (unat b)) bs)),
      uri_parse = (\<lambda>bs. if bs = [] then None else Some bs),
      uri_display = id,
      status_from_u16 = (\<lambda>n. if 100 \<le> n \<and> n < 1000 then Some n else None),
      status_is_informational = (\<lambda>s. 100 \<le> s \<and> s < 200),
      status_is_success = (\<lambda>s. 200 \<le> s \<and> s < 300),
      status_as_str = decimal,
      status_canonical_reason = (\<lambda>s. if s = 200 then Some (ascii ''OK'') else None),
      hm_new = [],
      hm_append = (\<lambda>m n v. m @ [(n, v)]),
      hm_insert = (\<lambda>m n v. ex_remove m n @ [(n, v)]),
      hm_remove = ex_remove,
      hm_update_last = ex_update_last,
      hm_get_all = ex_get_all,
      hm_contains_key = (\<lambda>m n. ex_get_all m n \<noteq> []),
      hm_keys = (\<lambda>m. remdups (map fst m)),
      hm_iter = id,
      hm_drain = ex_drain\<rparr>"

lemma ex_get_all_update_last:
  "ex_get_all (ex_update_last m n f) k =
     (if k = n \<and> ex_get_all m n \<noteq> [] then butlast (ex_get_all m n) @ [f (last (ex_get_all m n))]
      else ex_get_all m k)"
  by (induction m n f rule: ex_update_last.induct) (auto simp: ex_get_all_def)

lemma ex_get_all_remove: "ex_get_all (ex_remove m n) k = (if k = n then [] else ex_get_all m k)"
  by (induction m) (auto simp: ex_get_all_def ex_remove_def)

lemma ex_get_all_append: "ex_get_all (m @ m') k = ex_get_all m k @ ex_get_all m' k"
  by (simp add: ex_get_all_def)

lemma ex_get_all_single: "ex_get_all [(n, v)] k = (if k = n then [v] else [])"
  by (simp add: ex_get_all_def)

lemma ex_header_map_ok: "header_map_ok ex_http"
  by (simp add: header_map_ok_def ex_http_def ex_get_all_update_last ex_get_all_remove ex_get_all_append
      ex_get_all_single) (simp add: ex_get_all_def)

lemma ex_to_str_ok: "to_str_ok ex_http"
  by (auto simp: to_str_ok_def ex_http_def ex_visible_def intro!: exI [of _ ex_visible])

lemma ex_from_u64_ok: "from_u64_ok ex_http"
  by (simp add: from_u64_ok_def ex_http_def)

lemma ex_status_ok: "status_ok ex_http"
  by (simp add: status_ok_def ex_http_def)

end
