(* ===== verification/Server_Role.thy ===== *)
theory Server_Role
  imports Server_Encode Http_Example
begin

text \<open>
  The server role as a whole: the dictionary of \<open>Http1Transaction\<close>
  (\<^verbatim>\<open>src/src/proto/h1/mod.rs\<close>), its instance for a server, and what the responses of
  \<open>Server::encode\<close> look like on the wire.
\<close>

section \<open>Http1Transaction\<close>

text \<open>
  The operations of the trait. \<open>t_encode\<close> returns the head that is left behind, the method slot,
  the destination and the result. The defaulted methods follow from \<open>t_is_server\<close>.
\<close>

record ('inc, 'out, 'hm, 'cfg) transaction =
  t_parse :: "('hm, 'cfg) parse_ctx \<Rightarrow> bytes
    \<Rightarrow> (('hm, 'cfg) parse_ctx \<times> bytes \<times> (parse + ('inc, 'hm) parsed_message option)) option"
  t_encode :: "('out, 'hm) encode_msg \<Rightarrow> bytes
    \<Rightarrow> (('out, 'hm) message_head \<times> string option \<times> bytes \<times> (error + encoder)) option"
  t_on_error :: "error \<Rightarrow> ('out, 'hm) message_head option"
  t_is_server :: bool

definition t_is_client :: "('inc, 'out, 'hm, 'cfg) transaction \<Rightarrow> bool" where
  "t_is_client T \<longleftrightarrow> \<not> t_is_server T"

definition should_error_on_parse_eof :: "('inc, 'out, 'hm, 'cfg) transaction \<Rightarrow> bool" where
  "should_error_on_parse_eof T \<longleftrightarrow> t_is_client T"

definition should_read_first :: "('inc, 'out, 'hm, 'cfg) transaction \<Rightarrow> bool" where
  "should_read_first T \<longleftrightarrow> t_is_server T"

definition server_transaction ::
    "('hm, 'uri, 'z) http_scheme \<Rightarrow> 'cfg httparse \<Rightarrow> bytes \<Rightarrow> ('uri request_line, nat, 'hm, 'cfg) transaction" where
  "server_transaction H P date =
     \<lparr>t_parse = server_parse H P,
      t_encode = (\<lambda>msg dst. map_option (\<lambda>(head, dst, res). (head, enc_req_method msg, dst, res))
                              (server_encode H date msg dst)),
      t_on_error = server_on_error H,
      t_is_server = True\<rparr>"

section \<open>Responses on the wire\<close>

text \<open>The \<open>Content-Length\<close> and \<open>Transfer-Encoding\<close> values that the caller set.\<close>

definition user_values :: "('hm, 'uri, 'z) http_scheme \<Rightarrow> 'hm \<Rightarrow> string \<Rightarrow> bytes set" where
  "user_values H hs name = {v. (name, v) \<in> set (drained_fields None (hm_drain H hs))}"

lemma orig_case_init: "orig_case_ok H \<lparr>oc_map = m, oc_current = None, oc_title_case_headers = t\<rparr>"
  by (simp add: orig_case_ok_def)

text \<open>Both writers, at once.\<close>

lemma server_encode_block_ok:
  assumes "to_str_ok H" "wrote_len \<longrightarrow> \<not> can_have_body H (ee_method env) (ee_status env)"
    and "\<forall>v \<in> user_values H (headers head) TRANSFER_ENCODING. hv_to_str H v \<noteq> None"
    and "server_encode_block H date t head env base is_last wrote_len = Some (dst', Ok e)"
  shows "\<exists>ls. dst' = base @ concat (map render ls) @ CRLF \<and>
    (\<forall>v \<in> set (values_of TRANSFER_ENCODING ls). is_chunked_value H v) \<and>
    framing_lines (user_values H (headers head) CONTENT_LENGTH) (ee_body env) (ee_version env)
      (can_have_body H (ee_method env) (ee_status env)) ls e \<and>
    (\<not> can_have_body H (ee_method env) (ee_status env) \<longrightarrow> enc_kind e = ELength 0)"
proof -
  let ?d = "hm_drain H (headers head)"
  have u: "\<forall>(n, v) \<in> set (drained_fields None ?d). (n = TRANSFER_ENCODING \<longrightarrow> hv_to_str H v \<noteq> None) \<and>
      (n = CONTENT_LENGTH \<longrightarrow> v \<in> user_values H (headers head) CONTENT_LENGTH)"
    using assms(3) by (auto simp: user_values_def)
  from assms(4) consider m where "encode_headers H (orig_case_writer H) date env ?d base is_last wrote_len
        \<lparr>oc_map = m, oc_current = None, oc_title_case_headers = t\<rparr> = Some (dst', Ok e)"
    | "encode_headers H lowercase_writer date env ?d base is_last wrote_len () = Some (dst', Ok e)"
    by (auto simp: server_encode_block_def Let_def split: option.splits if_splits)
  then show ?thesis
  proof cases
    case 1
    from original.encode_headers_ok [OF assms(1) orig_case_init assms(2) u 1] show ?thesis by blast
  next
    case 2
    from lowercase.encode_headers_ok [OF assms(1) TrueI assms(2) u 2] show ?thesis by blast
  qed
qed

lemma encode_headers_Err:
  assumes "header_name_writer W good spell" "good w" "ee_orig_len env \<le> length base"
    and "encode_headers H W date env drained base is_last wrote_len w = Some (dst', Err e)"
  shows "dst' = take (ee_orig_len env) base \<and> e = new_user_header"
proof -
  let ?a0 = "\<lparr>ea_dst = base, ea_encoder = encoder_length 0, ea_wrote_date = False,
      ea_wrote_len = wrote_len, ea_cur_name = None, ea_is_name_written = False,
      ea_must_write_chunked = False, ea_prev_con_len = None, ea_is_last = is_last, ea_writer = w\<rparr>"
  have "encode_header_loop H W env drained ?a0 = Some (Err (dst', e))"
    using assms(4) by (auto simp: encode_headers_def Let_def split: option.splits sum.splits prod.splits)
  from header_name_writer.encode_header_loop_Err [OF assms(1) _ _ this] assms(2,3) show ?thesis by simp
qed

lemma server_encode_block_Err:
  assumes "ee_orig_len env \<le> length base"
    and "server_encode_block H date t head env base is_last wrote_len = Some (dst', Err e)"
  shows "dst' = take (ee_orig_len env) base \<and> e = new_user_header"
proof -
  let ?d = "hm_drain H (headers head)"
  from assms(2) consider m where "encode_headers H (orig_case_writer H) date env ?d base is_last wrote_len
        \<lparr>oc_map = m, oc_current = None, oc_title_case_headers = t\<rparr> = Some (dst', Err e)"
    | "encode_headers H lowercase_writer date env ?d base is_last wrote_len () = Some (dst', Err e)"
    by (auto simp: server_encode_block_def Let_def split: option.splits if_splits)
  then show ?thesis
  proof cases
    case 1
    from encode_headers_Err [OF original.header_name_writer_axioms orig_case_init assms(1) 1]
    show ?thesis .
  next
    case 2
    from encode_headers_Err [OF lowercase.header_name_writer_axioms TrueI assms(1) 2] show ?thesis .
  qed
qed

lemma server_prepare_Ok:
  assumes "server_prepare H msg = (head, body, Ok (), is_last, wrote_len)"
  shows "head = enc_head msg \<and> body = enc_body msg \<and>
    (wrote_len \<longrightarrow> \<not> can_have_body H (enc_req_method msg) (subject (enc_head msg)))"
  using assms
  by (auto simp: server_prepare_def Let_def can_have_body_def can_chunked_def split: if_splits)

lemma server_encode_ok:
  assumes "to_str_ok H"
    and "\<forall>v \<in> user_values H (headers (enc_head msg)) TRANSFER_ENCODING. hv_to_str H v \<noteq> None"
    and "server_encode H date msg dst = Some (head', dst', Ok e)"
  shows "\<exists>line ls.
    server_status_line H (version (enc_head msg)) (subject (enc_head msg)) = Some line \<and>
    dst' = dst @ line @ concat (map render ls) @ CRLF \<and>
    (\<forall>v \<in> set (values_of TRANSFER_ENCODING ls). is_chunked_value H v) \<and>
    framing_lines (user_values H (headers (enc_head msg)) CONTENT_LENGTH) (enc_body msg)
      (version (enc_head msg)) (can_have_body H (enc_req_method msg) (subject (enc_head msg))) ls e \<and>
    (\<not> can_have_body H (enc_req_method msg) (subject (enc_head msg)) \<longrightarrow> encoder_is_eof e)"
proof -
  obtain head body ret is_last wrote_len where p: "server_prepare H msg = (head, body, ret, is_last, wrote_len)"
    by (metis surj_pair)
  from assms(3) p obtain line where line: "server_status_line H (version head) (subject head) = Some line"
    by (auto simp: server_encode_def split: option.splits)
  let ?env = "\<lparr>ee_version = version head, ee_status = subject head, ee_method = enc_req_method msg,
      ee_body = body, ee_orig_len = length dst\<rparr>"
  from assms(3) p line obtain res where
    b: "server_encode_block H date (enc_title_case_headers msg) head ?env (dst @ line) is_last wrote_len =
      Some (dst', res)" "(case res of Err e \<Rightarrow> Err e | Ok encoder \<Rightarrow> map_sum id (\<lambda>_. encoder) ret) = Ok e"
    by (auto simp: server_encode_def Let_def)
  from b(2) have r: "res = Ok e" "ret = Ok ()" by (cases res; cases ret; simp)+
  note prep = server_prepare_Ok [OF p [unfolded r(2)]]
  from server_encode_block_ok [OF assms(1) _ _ b(1) [unfolded r(1)]] prep assms(2) line show ?thesis
    by (auto simp: encoder_is_eof_def)
qed


definition ex_msg :: "ex_map \<Rightarrow> body_length option \<Rightarrow> (nat, ex_map) encode_msg" where
  "ex_msg hs body =
     \<lparr>enc_head = \<lparr>version = HTTP_11, subject = 200, headers = hs, extensions = extensions_default\<rparr>,
      enc_body = body, enc_keep_alive = True, enc_req_method = Some ''GET'', enc_title_case_headers = False\<rparr>"

lemma ex_encode_gzip:
  "server_encode ex_http (ascii ''D'')
     (ex_msg [(TRANSFER_ENCODING, ascii ''gzip''), (CONNECTION, ascii ''close'')] (Some Unknown)) [] =
   Some (\<lparr>version = HTTP_11, subject = 200, headers = [], extensions = extensions_default\<rparr>,
     ascii ''HTTP/1.1 200 OK'' @ CRLF @ ascii ''transfer-encoding: gzip, chunked'' @ CRLF @
     ascii ''connection: close, chunked'' @ CRLF @ ascii ''date: D'' @ CRLF @ CRLF,
     Ok \<lparr>enc_kind = EChunked, enc_is_last = True\<rparr>)"
  by code_simp


lemma server_encode_err:
  assumes "server_encode H date msg dst = Some (head', dst', Err e)"
  shows "e = new_user_header \<and> dst' = dst \<or>
    e = new_user_unsupported_status_code \<and> status_is_informational H (subject (enc_head msg)) \<and>
      subject (enc_head msg) \<noteq> 101 \<and> subject head' = 500"
proof -
  obtain head body ret is_last wrote_len where p: "server_prepare H msg = (head, body, ret, is_last, wrote_len)"
    by (metis surj_pair)
  from assms p obtain line where line: "server_status_line H (version head) (subject head) = Some line"
    by (auto simp: server_encode_def split: option.splits)
  let ?env = "\<lparr>ee_version = version head, ee_status = subject head, ee_method = enc_req_method msg,
      ee_body = body, ee_orig_len = length dst\<rparr>"
  from assms p line obtain res where
    b: "server_encode_block H date (enc_title_case_headers msg) head ?env (dst @ line) is_last wrote_len =
      Some (dst', res)" "(case res of Err e \<Rightarrow> Err e | Ok encoder \<Rightarrow> map_sum id (\<lambda>_. encoder) ret) = Err e"
    "head' = head\<lparr>headers := hm_new H, extensions := extensions_default\<rparr>"
    by (auto simp: server_encode_def Let_def)
  show ?thesis
  proof (cases res)
    case (Inl e')
    with b(1,2) have "server_encode_block H date (enc_title_case_headers msg) head ?env (dst @ line) is_last
        wrote_len = Some (dst', Err e)" by simp
    from server_encode_block_Err [OF _ this] show ?thesis by simp
  next
    case (Inr enc)
    with b(2) have "ret = Err e" by (cases ret) simp_all
    with p b(3) show ?thesis
      by (auto simp: server_prepare_def Let_def response_head_default_def split: if_splits)
  qed
qed


lemma ex_encode_conflict:
  "server_encode ex_http (ascii ''D'')
     (ex_msg [(CONTENT_LENGTH, ascii ''5''), (TRANSFER_ENCODING, ascii ''chunked'')] (Some (Known 5))) (ascii ''x'') =
   Some (\<lparr>version = HTTP_11, subject = 200, headers = [], extensions = extensions_default\<rparr>,
     ascii ''x'', Err new_user_header)"
  by code_simp



section \<open>Requests\<close>

text \<open>C8: The framing of a request that the server accepts is the one of RFC 7230, section 3.3.3, over
  all its header fields: \<open>Transfer-Encoding\<close> decides when there is one, otherwise the agreed
  \<open>Content-Length\<close>, otherwise there is no body. Exactly the parsed head leaves the buffer.\<close>

theorem server_parse_framing:
  assumes "server_parse H P ctx buf = Some (ctx', buf', Ok (Some msg))"
  shows "\<exists>q len indices fs. parse_request P buf MAX_HEADERS = (q, Ok (Complete len)) \<and>
    record_header_indices (hq_headers q) MAX_HEADERS = Ok indices \<and>
    header_fields H (take len buf) indices = Some fs \<and> buf' = drop len buf \<and>
    request_framing H (hq_version q = Some 1) fs = Ok (pm_decode msg)"
  using assms
proof (rule server_parse_OkE)
  fix q len uri m v meth u indices fs acc
  assume a: "parse_request P buf MAX_HEADERS = (q, Ok (Complete len))" "hq_version q = Some v"
    "record_header_indices (hq_headers q) MAX_HEADERS = Ok indices" "buf' = drop len buf"
    "header_fields H (take len buf) indices = Some fs"
    "server_fields H (v = 1) fs (req_acc0 H ctx meth (v = 1)) = Ok acc"
    "\<not> (ra_is_te acc \<and> \<not> ra_is_te_chunked acc)"
    "msg = \<lparr>pm_head = \<lparr>version = (if v = 1 then HTTP_11 else HTTP_10), subject = RequestLine meth u,
                       headers = ra_headers acc,
                       extensions = extensions_default\<lparr>ext_case_map := ra_case_map acc\<rparr>\<rparr>,
            pm_decode = ra_decoder acc, pm_expect_continue = ra_expect_continue acc,
            pm_keep_alive = ra_keep_alive acc, pm_wants_upgrade = ra_wants_upgrade acc\<rparr>"
  have "request_framing H (v = 1) fs = Ok (pm_decode msg)"
    using acc0_framing [of H "v = 1" fs ctx meth] a(6-8) by (auto simp: acc_framing_def)
  with a show ?thesis by auto
qed

text \<open>A parser that recognises one request.\<close>

definition ex_request :: bytes where
  "ex_request = ascii ''POST /a'' @ CRLF @ ascii ''Content-Length: 3'' @ CRLF @
     ascii ''Transfer-Encoding: chunked'' @ CRLF @ CRLF"

definition ex_httparse :: "unit httparse" where
  "ex_httparse =
     \<lparr>parse_request = (\<lambda>bs mx.
        if take 58 bs = ex_request then
          (\<lparr>hq_method = Some (ascii ''POST''), hq_path = Some (ascii ''/a''), hq_version = Some 1,
            hq_headers = [HpHeader (9, 14) (25, 1), HpHeader (28, 17) (47, 7)]\<rparr>, Ok (Complete 58))
        else (\<lparr>hq_method = None, hq_path = None, hq_version = None, hq_headers = []\<rparr>, Ok Partial)),
      parse_response = (\<lambda>cfg bs mx.
        (\<lparr>hr_version = None, hr_code = None, hr_headers = []\<rparr>, Ok Partial))\<rparr>"

definition ex_ctx :: "(ex_map, unit) parse_ctx" where
  "ex_ctx =
     \<lparr>cached_headers = None, req_method = None, h1_parser_config = (), h1_header_read_timeout = None,
      h1_header_read_timeout_fut = None, h1_header_read_timeout_running = False,
      preserve_header_case = False, h09_responses = False\<rparr>"

lemma ex_request_take: "take 58 (ex_request @ ascii ''rest'') = ex_request"
  "drop 58 (ex_request @ ascii ''rest'') = ascii ''rest''"
  by (simp_all add: ex_request_def ascii_def CRLF_def)

lemma ex_header_fields:
  "slice_range ex_request (9, 23) = Some (ascii ''Content-Length'')"
  "slice_range ex_request (25, 26) = Some (ascii ''3'')"
  "slice_range ex_request (28, 45) = Some (ascii ''Transfer-Encoding'')"
  "slice_range ex_request (47, 54) = Some (ascii ''chunked'')"
  by (simp_all add: slice_range_def ex_request_def ascii_def CRLF_def)

lemma ex_header_values:
  "hn_from_bytes ex_http (ascii ''Content-Length'') = Some CONTENT_LENGTH"
  "hn_from_bytes ex_http (ascii ''Transfer-Encoding'') = Some TRANSFER_ENCODING"
  "method_from_bytes ex_http (ascii ''POST'') = Some ''POST''"
  "content_length_parse (ascii ''3'') = Some 3"
  by (simp_all add: ex_http_def ex_string_def to_ascii_lowercase_def ascii_def header_name_defs char_of_def bit_0
      content_length_parse_def from_digits_def checked_mul_def checked_add_def)

lemma ex_parse:
  "server_parse ex_http ex_httparse ex_ctx (ex_request @ ascii ''rest'') =
   Some (ex_ctx\<lparr>req_method := Some ''POST''\<rparr>, ascii ''rest'',
     Ok (Some \<lparr>pm_head = \<lparr>version = HTTP_11, subject = RequestLine ''POST'' (ascii ''/a''),
                 headers = [(CONTENT_LENGTH, ascii ''3''), (TRANSFER_ENCODING, ascii ''chunked'')],
                 extensions = extensions_default\<rparr>,
               pm_decode = CHUNKED, pm_expect_continue = False, pm_keep_alive = True,
               pm_wants_upgrade = False\<rparr>))"
proof -
  have "parse_request ex_httparse (ex_request @ ascii ''rest'') MAX_HEADERS =
     (\<lparr>hq_method = Some (ascii ''POST''), hq_path = Some (ascii ''/a''), hq_version = Some 1,
       hq_headers = [HpHeader (9, 14) (25, 1), HpHeader (28, 17) (47, 7)]\<rparr>, Ok (Complete 58))"
    by (simp add: ex_httparse_def ex_request_take del: take_append)
  moreover have "record_header_indices [HpHeader (9, 14) (25, 1), HpHeader (28, 17) (47, 7)] MAX_HEADERS =
     Ok [\<lparr>hi_name = (9, 23), hi_value = (25, 26)\<rparr>, \<lparr>hi_name = (28, 45), hi_value = (47, 54)\<rparr>]"
    by (simp add: MAX_HEADERS_def split: nat.split)
  moreover have "uri_parse ex_http (ascii ''/a'') = Some (ascii ''/a'')" "hm_new ex_http = []"
    "hm_append ex_http m n v = m @ [(n, v)]" "length ex_request = 58" for m n v
    by (simp_all add: ex_http_def ascii_def ex_request_def CRLF_def)
  ultimately show ?thesis
    by (simp add: server_parse_def server_parse_head_def ex_header_fields ex_header_values
        is_chunked_value_chunked [OF ex_to_str_ok] ex_request_take MAX_URI_LEN_def
        MAX_HEADERS_def ex_ctx_def server_header_def req_append_def checked_new_def
        MAX_LEN_def extensions_default_def Let_def del: take_append drop_append)
qed

theorem server_parse_framing_witness:
  "\<exists>len. ascii ''rest'' = drop len (ex_request @ ascii ''rest'')"
  using server_parse_framing [OF ex_parse] by blast

end
