(* ===== verification/Codec.thy ===== *)
theory Codec
  imports Decode Encode
begin

text \<open>
  The chunked encoder and decoder together: whatever the encoder puts on the wire, the decoder
  reads back, stopping exactly at the end of the body.
\<close>

lemma unat_hex_digit: "d < 16 \<Longrightarrow> unat (hex_digit d) = (if d < 10 then 48 + d else 55 + d)"
  by (simp add: hex_digit_def unat_of_nat_u8 del: of_nat_add)

lemma hex_digit_val: "d < 16 \<Longrightarrow> is_hex (hex_digit d) \<and> hex_val (hex_digit d) = d"
  by (auto simp: is_hex_def hex_val_def word_le_nat_alt unat_hex_digit)

lemma upper_hex_value: "list_all is_hex (upper_hex n) \<and> hex_value 0 (upper_hex n) = n"
proof (induction n rule: upper_hex.induct)
  case (1 n)
  show ?case
  proof (cases "n < 16")
    case True
    then show ?thesis by (subst (1 2) upper_hex.simps) (simp add: hex_digit_val)
  next
    case False
    with 1 show ?thesis
      by (subst (1 2) upper_hex.simps) (simp add: hex_digit_val hex_value_append)
  qed
qed

lemma ref_decode_size_line:
  assumes "n < 2 ^ 64"
  shows "ref_decode CSize 0 (upper_hex n @ CRLF @ inp) =
     ref_decode (if n = 0 then CEndCr else CBody) (word_of_nat n) inp"
proof -
  have "read_digits 0 (upper_hex n) = Ok (word_of_nat n)"
    using upper_hex_value [of n] assms by (simp add: read_digits_eq)
  moreover have "(word_of_nat n :: u64) = 0 \<longleftrightarrow> n = 0"
    using unat_of_nat_u64 [OF assms] by (auto simp: word_unat_eq_iff)
  ultimately show ?thesis
    using upper_hex_value [of n]
    by (simp add: ref_decode_digits CRLF_def CR_def LF_def size_byte_def size_lf_byte_def)
qed

lemma ref_decode_chunk:
  assumes "m \<noteq> []" "length m < 2 ^ 64"
  shows "ref_decode CSize 0 (snd (wire_step EChunked m) @ inp) =
     map_option (apfst (append m)) (ref_decode CSize 0 inp)"
proof -
  have u: "unat (word_of_nat (length m) :: u64) = length m" using assms(2) by (rule unat_of_nat_u64)
  have "ref_decode CSize 0 (snd (wire_step EChunked m) @ inp) =
      ref_decode CBody (word_of_nat (length m)) (m @ CRLF @ inp)"
    using assms ref_decode_size_line [of "length m" "m @ CRLF @ inp"] by simp
  also have "\<dots> = map_option (apfst (append m)) (ref_decode CBodyCr 0 (CRLF @ inp))"
    using assms(1) u ref_decode_body [of m "word_of_nat (length m)" "CRLF @ inp"] by simp
  finally show ?thesis
    by (simp add: CRLF_def CR_def LF_def body_cr_byte_def body_lf_byte_def)
qed

lemma ref_decode_end: "ref_decode CSize 0 (ascii ''0'' @ CRLF @ CRLF @ rest) = Some ([], rest)"
proof -
  have "upper_hex 0 = ascii ''0''"
    by (subst upper_hex.simps) (simp add: hex_digit_def ascii_def)
  then show ?thesis
    using ref_decode_size_line [of 0 "CRLF @ rest"]
    by (simp add: CRLF_def CR_def LF_def end_cr_byte_def end_lf_byte_def)
qed

text \<open>A whole chunked body on the wire.\<close>

definition chunked_wire :: "bytes list \<Rightarrow> bytes" where
  "chunked_wire ms = snd (wire_all EChunked ms) @ the (wire_end EChunked)"

lemma wire_all_chunked_fst [simp]: "fst (wire_all EChunked ms) = EChunked"
  by (induction ms) (auto simp: split_beta)

lemma ref_decode_chunked_wire:
  assumes "\<forall>m \<in> set ms. m \<noteq> [] \<and> length m < 2 ^ 64"
  shows "ref_decode CSize 0 (chunked_wire ms @ rest) = Some (concat ms, rest)"
  using assms
proof (induction ms)
  case Nil
  show ?case using ref_decode_end [of rest] by (simp add: chunked_wire_def)
next
  case (Cons m ms)
  then have "ref_decode CSize 0 (chunked_wire ms @ rest) = Some (concat ms, rest)" by simp
  with ref_decode_chunk [of m "chunked_wire ms @ rest"] Cons.prems show ?case
    by (simp add: chunked_wire_def split_beta)
qed

context mem_stream
begin

lemma chunked_roundtrip:
  assumes "decode_run rd decoder_chunked r body d' r'" "good r"
    and "stream r = chunked_wire ms @ rest" "\<forall>m \<in> set ms. m \<noteq> [] \<and> length m < 2 ^ 64"
  shows "body = concat ms \<and> stream r' = rest \<and> decoder_is_eof d'"
  using chunked_run [OF assms(1,2), of CSize 0] ref_decode_chunked_wire [OF assms(4), of rest] assms(3)
  by (simp add: decoder_chunked_def chunk_wf_def)

end

text \<open>The framing that a decoder must use for what an encoder writes.\<close>

fun decoder_of :: "encoder_kind \<Rightarrow> decoded_length" where
  "decoder_of EChunked = CHUNKED"
| "decoder_of (ELength n) = DecodedLength n"
| "decoder_of ECloseDelimited = CLOSE_DELIMITED"

end
