(* ===== verification/Client_Role.thy ===== *)
theory Client_Role
  imports Server_Role Codec
begin

text \<open>
  The client role of \<^verbatim>\<open>src/src/proto/h1/role.rs\<close>: reading response heads, skipping informational
  ones, the framing of a response body, the framing headers of a request and its serialisation.
\<close>

section \<open>The framing of a response\<close>

text \<open>\<open>Client::decoder\<close>: \<open>None\<close> for a head to skip, else the length and whether it upgrades.\<close>

definition client_decoder ::
    "('hm, 'uri, 'z) http_scheme \<Rightarrow> 'hm response_head \<Rightarrow> string option \<Rightarrow> parse + (decoded_length \<times> bool) option" where
  "client_decoder H inc method =
     (if subject inc = 101 then Ok (Some (ZERO, True))
      else if subject inc = 100 \<or> 102 \<le> subject inc \<and> subject inc \<le> 199 then Ok None
      else if subject inc = 204 \<or> subject inc = 304 then Ok (Some (ZERO, False))
      else if method = Some ''HEAD'' then Ok (Some (ZERO, False))
      else if method = Some ''CONNECT'' \<and> 200 \<le> subject inc \<and> subject inc \<le> 299 then Ok (Some (ZERO, True))
      else if hm_contains_key H (headers inc) TRANSFER_ENCODING then
        (if version inc = HTTP_10 then Err transfer_encoding_unexpected
         else if transfer_encoding_is_chunked H (headers inc) then Ok (Some (CHUNKED, False))
         else Ok (Some (CLOSE_DELIMITED, False)))
      else case content_length_parse_all H (headers inc) of
             Some len \<Rightarrow> map_sum id (\<lambda>d. Some (d, False)) (checked_new len)
           | None \<Rightarrow>
               if hm_contains_key H (headers inc) CONTENT_LENGTH then Err content_length_invalid
               else Ok (Some (CLOSE_DELIMITED, False)))"

section \<open>Client::parse\<close>

record 'hm res_acc =
  rs_keep_alive :: bool
  rs_case_map :: "'hm option"
  rs_headers :: 'hm

fun client_headers ::
    "('hm, 'uri, 'z) http_scheme \<Rightarrow> bytes \<Rightarrow> header_indices list \<Rightarrow> 'hm res_acc \<Rightarrow> (parse + 'hm res_acc) option" where
  "client_headers H slc [] acc = Some (Ok acc)"
| "client_headers H slc (header # rest) acc =
     (case slice_range slc (hi_name header) of
        None \<Rightarrow> None
      | Some orig \<Rightarrow>
          (case hn_from_bytes H orig of
             None \<Rightarrow> Some (Err ParseInternal)
           | Some name \<Rightarrow>
               (case slice_range slc (hi_value header) of
                  None \<Rightarrow> None
                | Some val \<Rightarrow>
                    client_headers H slc rest
                      (acc\<lparr>rs_keep_alive := (if name = CONNECTION then keep_alive_after H val (rs_keep_alive acc)
                                             else rs_keep_alive acc),
                           rs_case_map := map_option (\<lambda>m. case_map_append H m name orig) (rs_case_map acc),
                           rs_headers := hm_append H (rs_headers acc) name val\<rparr>))))"

text \<open>The status line: the length of the head, status, version and header positions.\<close>

definition client_status_line ::
    "('hm, 'uri, 'z) http_scheme \<Rightarrow> 'cfg httparse \<Rightarrow> ('hm, 'cfg) parse_ctx \<Rightarrow> bytes
     \<Rightarrow> (parse + (nat \<times> nat \<times> version \<times> header_indices list) option) option" where
  "client_status_line H P ctx buf =
     (case parse_response P (h1_parser_config ctx) buf MAX_HEADERS of
        (r, Ok (Complete len)) \<Rightarrow> do {
          code \<leftarrow> hr_code r;
          case status_from_u16 H code of
            None \<Rightarrow> Some (Err ParseStatus)
          | Some status \<Rightarrow> do {
              v \<leftarrow> hr_version r;
              case record_header_indices (hr_headers r) MAX_HEADERS of
                Err e \<Rightarrow> Some (Err e)
              | Ok indices \<Rightarrow>
                  (if length (hr_headers r) > MAX_HEADERS then None
                   else Some (Ok (Some (len, status, if v = 1 then HTTP_11 else HTTP_10, indices)))) }}
      | (r, Ok Partial) \<Rightarrow> Some (Ok None)
      | (r, Err e) \<Rightarrow>
          (if e = HpVersion \<and> h09_responses ctx then Some (Ok (Some (0, 200, HTTP_09, [])))
           else Some (Err (parse_of_httparse e))))"

text \<open>The loop that skips informational responses.\<close>

partial_function (option) client_parse ::
    "('hm, 'uri, 'z) http_scheme \<Rightarrow> 'cfg httparse \<Rightarrow> ('hm, 'cfg) parse_ctx \<Rightarrow> bytes
     \<Rightarrow> (('hm, 'cfg) parse_ctx \<times> bytes \<times> (parse + (nat, 'hm) parsed_message option)) option" where
  "client_parse H P ctx buf =
     (case client_status_line H P ctx buf of
        None \<Rightarrow> None
      | Some (Err e) \<Rightarrow> Some (ctx, buf, Err e)
      | Some (Ok None) \<Rightarrow> Some (ctx, buf, Ok None)
      | Some (Ok (Some (len, status, v, indices))) \<Rightarrow>
          if len > length buf then None
          else let slc = take len buf;
                   buf = drop len buf;
                   acc0 = \<lparr>rs_keep_alive = (v = HTTP_11),
                           rs_case_map = (if preserve_header_case ctx then Some (case_map_default H) else None),
                           rs_headers = (case cached_headers ctx of Some hs \<Rightarrow> hs | None \<Rightarrow> hm_new H)\<rparr>;
                   ctx = ctx\<lparr>cached_headers := None\<rparr>
               in case client_headers H slc indices acc0 of
                    None \<Rightarrow> None
                  | Some (Err e) \<Rightarrow> Some (ctx, buf, Err e)
                  | Some (Ok acc) \<Rightarrow>
                      let head = \<lparr>version = v, subject = status, headers = rs_headers acc,
                                  extensions = extensions_default\<lparr>ext_case_map := rs_case_map acc\<rparr>\<rparr>
                      in case client_decoder H head (req_method ctx) of
                           Err e \<Rightarrow> Some (ctx, buf, Err e)
                         | Ok (Some (d, is_upgrade)) \<Rightarrow>
                             Some (ctx, buf,
                               Ok (Some \<lparr>pm_head = head, pm_decode = d, pm_expect_continue = False,
                                         pm_keep_alive = rs_keep_alive acc \<and> \<not> is_upgrade,
                                         pm_wants_upgrade = is_upgrade\<rparr>))
                         | Ok None \<Rightarrow>
                             if buf = [] then Some (ctx, buf, Ok None) else client_parse H P ctx buf)"

declare client_parse.simps [code]

section \<open>Client::encode\<close>

text \<open>\<open>Client::set_length\<close>: the head with its framing headers, and the encoder.\<close>

definition client_set_length ::
    "('hm, 'uri, 'z) http_scheme \<Rightarrow> ('hm, 'uri) request_head \<Rightarrow> body_length option
     \<Rightarrow> (('hm, 'uri) request_head \<times> encoder) option" where
  "client_set_length H head body =
     (case body of
        None \<Rightarrow> Some (head\<lparr>headers := hm_remove H (headers head) TRANSFER_ENCODING\<rparr>, encoder_length 0)
      | Some body \<Rightarrow>
          (let can_chunked = (version head = HTTP_11);
               hs = headers head;
               existing_con_len = content_length_parse_all H hs
           in if \<not> can_chunked then
                (let hs = hm_remove H hs TRANSFER_ENCODING
                 in case existing_con_len of
                      Some len \<Rightarrow> Some (head\<lparr>headers := hs\<rparr>, encoder_length len)
                    | None \<Rightarrow>
                        (case body of
                           Known len \<Rightarrow>
                             (case set_content_length H hs len of (hs, e) \<Rightarrow> Some (head\<lparr>headers := hs\<rparr>, e))
                         | Unknown \<Rightarrow> Some (head\<lparr>headers := hs\<rparr>, encoder_length 0)))
              else
                (let (hs, enc, should_remove_con_len) =
                   (if hm_contains_key H hs TRANSFER_ENCODING then
                      (if is_chunked H (hm_get_all H hs TRANSFER_ENCODING)
                       then (hs, Some encoder_chunked, True)
                       else (add_chunked H hs, Some encoder_chunked, True))
                    else case existing_con_len of
                           Some len \<Rightarrow> (hs, Some (encoder_length len), False)
                         | None \<Rightarrow>
                             (case body of
                                Unknown \<Rightarrow>
                                  (case subject head of RequestLine method _ \<Rightarrow>
                                     if method = ''GET'' \<or> method = ''HEAD'' \<or> method = ''CONNECT''
                                     then (hs, Some (encoder_length 0), False)
                                     else (hm_insert H hs TRANSFER_ENCODING (ascii ''chunked''),
                                           Some encoder_chunked, False))
                              | Known _ \<Rightarrow> (hs, None, False)))
                 in case enc of
                      Some e \<Rightarrow>
                        Some (head\<lparr>headers :=
                                     if should_remove_con_len \<and> existing_con_len \<noteq> None
                                     then hm_remove H hs CONTENT_LENGTH else hs\<rparr>, e)
                    | None \<Rightarrow>
                        (case body of
                           Known len \<Rightarrow>
                             (case set_content_length H hs len of (hs, e) \<Rightarrow> Some (head\<lparr>headers := hs\<rparr>, e))
                         | Unknown \<Rightarrow> None))))"

definition client_encode ::
    "('hm, 'uri, 'z) http_scheme \<Rightarrow> ('uri request_line, 'hm) encode_msg \<Rightarrow> bytes
     \<Rightarrow> (('hm, 'uri) request_head \<times> string option \<times> bytes \<times> (error + encoder)) option" where
  "client_encode H msg dst =
     (case subject (enc_head msg) of RequestLine method uri \<Rightarrow>
        do {
          (head, body) \<leftarrow> client_set_length H (enc_head msg) (enc_body msg);
          v \<leftarrow> (case version head of
                  HTTP_10 \<Rightarrow> Some (ascii ''HTTP/1.0'')
                | HTTP_11 \<Rightarrow> Some (ascii ''HTTP/1.1'')
                | HTTP_2 \<Rightarrow> Some (ascii ''HTTP/1.1'')
                | _ \<Rightarrow> None);
          let dst = dst @ ascii method @ ascii '' '' @ uri_display H uri @ ascii '' '' @ v @ CRLF;
          let dst =
            (case ext_case_map (extensions head) of
               Some orig_headers \<Rightarrow>
                 write_headers_original_case H (headers head) orig_headers dst (enc_title_case_headers msg)
             | None \<Rightarrow>
                 if enc_title_case_headers msg then write_headers_title_case H (headers head) dst
                 else write_headers H (headers head) dst);
          Some (head\<lparr>headers := hm_new H\<rparr>, Some method, dst @ CRLF, Ok body) })"

definition client_on_error :: "error \<Rightarrow> ('hm, 'uri) request_head option" where
  "client_on_error err = None"

definition client_transaction ::
    "('hm, 'uri, 'z) http_scheme \<Rightarrow> 'cfg httparse \<Rightarrow> (nat, 'uri request_line, 'hm, 'cfg) transaction" where
  "client_transaction H P =
     \<lparr>t_parse = client_parse H P, t_encode = client_encode H, t_on_error = client_on_error,
      t_is_server = False\<rparr>"

section \<open>Parsing ends\<close>

lemma client_headers_returns:
  "list_all (indices_ok (length slc)) is \<Longrightarrow> \<exists>res. client_headers H slc is acc = Some res"
proof (induction "is" arbitrary: acc)
  case (Cons i "is")
  with slice_range_Some [of slc i] obtain n v where
    "slice_range slc (hi_name i) = Some n" "slice_range slc (hi_value i) = Some v" by auto
  with Cons show ?case by (auto split: option.splits)
qed simp

lemma client_status_line_returns:
  assumes "httparse_ok P"
  shows "\<exists>res. client_status_line H P ctx buf = Some res"
proof -
  obtain r p where rp: "parse_response P (h1_parser_config ctx) buf MAX_HEADERS = (r, p)" by fastforce
  show ?thesis
  proof (cases "\<exists>len. p = Ok (Complete len)")
    case False
    with rp show ?thesis by (auto simp: client_status_line_def split: sum.splits hp_status.splits)
  next
    case True
    then obtain len where "p = Ok (Complete len)" ..
    with assms rp show ?thesis
      by (fastforce simp: httparse_ok_def hp_headers_ok_def client_status_line_def split: option.splits sum.splits)
  qed
qed

lemma client_status_line_Some:
  assumes "httparse_ok P" "client_status_line H P ctx buf = Some (Ok (Some (len, status, v, indices)))"
  shows "len \<le> length buf" "list_all (indices_ok len) indices" "len = 0 \<Longrightarrow> status = 200"
proof -
  consider r where "parse_response P (h1_parser_config ctx) buf MAX_HEADERS = (r, Ok (Complete len))"
      "record_header_indices (hr_headers r) MAX_HEADERS = Ok indices"
    | "len = 0" "status = 200" "indices = []"
    using assms(2)
    by (auto simp: client_status_line_def split: Option.bind_split_asm prod.split_asm sum.split_asm
        hp_status.split_asm option.split_asm if_split_asm)
  then have "len \<le> length buf \<and> list_all (indices_ok len) indices \<and> (len = 0 \<longrightarrow> status = 200)"
  proof cases
    case 1
    with assms(1) have "0 < len" "len \<le> length buf" "hp_headers_ok len MAX_HEADERS (hr_headers r)"
      by (auto simp: httparse_ok_def)
    with record_header_indices_ok [OF _ 1(2)] show ?thesis by simp
  qed simp
  then show "len \<le> length buf" "list_all (indices_ok len) indices" "len = 0 \<Longrightarrow> status = 200" by simp_all
qed

lemma client_decoder_skip: "client_decoder H head m = Ok None \<Longrightarrow> 100 \<le> subject head \<and> subject head \<le> 199"
proof (cases "content_length_parse_all H (headers head)")
  case (Some len)
  then show "client_decoder H head m = Ok None \<Longrightarrow> ?thesis"
    by (cases "checked_new len") (auto simp: client_decoder_def split: if_splits)
qed (auto simp: client_decoder_def split: if_splits)

lemma client_parse_returns:
  assumes "httparse_ok P"
  shows "\<exists>res. client_parse H P ctx buf = Some res"
proof (induction "length buf" arbitrary: ctx buf rule: less_induct)
  case less
  from client_status_line_returns [OF assms] obtain l where l: "client_status_line H P ctx buf = Some l" by blast
  show ?case
  proof (cases "\<exists>len status v indices. l = Ok (Some (len, status, v, indices))")
    case False
    then have "(\<exists>e. l = Err e) \<or> l = Ok None" by (cases l; cases "projr l") auto
    with l show ?thesis by (subst client_parse.simps) auto
  next
    case True
    then obtain len status v indices where l': "l = Ok (Some (len, status, v, indices))" by blast
    note ln = client_status_line_Some [OF assms l [unfolded l']]
    let ?slc = "take len buf" and ?buf = "drop len buf"
    let ?acc0 = "\<lparr>rs_keep_alive = (v = HTTP_11),
        rs_case_map = (if preserve_header_case ctx then Some (case_map_default H) else None),
        rs_headers = (case cached_headers ctx of Some hs \<Rightarrow> hs | None \<Rightarrow> hm_new H)\<rparr>"
    have "length ?slc = len" using ln(1) by simp
    from client_headers_returns [of ?slc indices H ?acc0, unfolded this] ln(2) obtain res where
      res: "client_headers H ?slc indices ?acc0 = Some res" by blast
    show ?thesis
    proof (cases res)
      case (Inl e)
      with l l' ln(1) res show ?thesis by (subst client_parse.simps) (simp add: Let_def)
    next
      case (Inr acc)
      let ?head = "\<lparr>version = v, subject = status, headers = rs_headers acc,
          extensions = extensions_default\<lparr>ext_case_map := rs_case_map acc\<rparr>\<rparr>"
      show ?thesis
      proof (cases "client_decoder H ?head (req_method ctx) = Ok None")
        case True
        from client_decoder_skip [OF True] ln(3) have "len \<noteq> 0" by auto
        then have "?buf = [] \<or> length ?buf < length buf" by auto
        with less [of ?buf "ctx\<lparr>cached_headers := None\<rparr>"] l l' ln(1) res Inr True show ?thesis
          by (subst client_parse.simps) (auto simp: Let_def)
      next
        case False
        then have "(\<exists>e. client_decoder H ?head (req_method ctx) = Err e) \<or>
            (\<exists>d u. client_decoder H ?head (req_method ctx) = Ok (Some (d, u)))"
          by (metis not_None_eq sum.exhaust surj_pair)
        with l l' ln(1) res Inr show ?thesis by (subst client_parse.simps) (auto simp: Let_def)
      qed
    qed
  qed
qed

section \<open>The framing of a request\<close>

text \<open>\<open>set_length\<close> never reaches its \<open>unreachable!\<close>.\<close>

lemma client_set_length_returns: "\<exists>head' e. client_set_length H head body = Some (head', e)"
  by (cases "subject head")
    (auto simp: client_set_length_def set_content_length_def Let_def split: option.splits body_length.splits)

text \<open>A value of digits only is its own single piece.\<close>

lemma content_length_single:
  assumes "to_str_ok H" "content_length_parse v = Some n"
  shows "content_length_parse_all_values H [v] = Some n"
proof -
  obtain vis where vis: "\<And>b. 32 \<le> b \<Longrightarrow> b < 127 \<Longrightarrow> vis b"
    "\<And>v. hv_to_str H v = (if list_all vis v then Some v else None)"
    using assms(1) by (rule to_str_okE) blast
  have v: "v \<noteq> []" "\<And>b. b \<in> set v \<Longrightarrow> is_digit b"
    using assms(2) by (auto simp: content_length_parse_def from_digits_Some_iff list_all_iff)
  have "b \<in> set v \<Longrightarrow> vis b" "b \<in> set v \<Longrightarrow> b \<noteq> COMMA" "b \<in> set v \<Longrightarrow> \<not> is_ws b" for b
    using v(2) [of b] vis(1) [of b]
    by (auto simp: is_digit_unat is_ws_def COMMA_def word_le_nat_alt word_less_nat_alt)
  then have "hv_to_str H v = Some v" "COMMA \<notin> set v" "trim v = v"
    using v(1) by (auto simp: vis(2) list_all_iff intro!: trim_id)
  with assms(2) show ?thesis
    unfolding content_length_parse_all_values_iff
    by (intro exI [of _ "[v]"]) (simp add: split_on_no_sep content_length_parse_def)
qed

lemma content_length_parse_all_cong:
  "hm_get_all H hs' CONTENT_LENGTH = hm_get_all H hs CONTENT_LENGTH \<Longrightarrow>
   content_length_parse_all H hs' = content_length_parse_all H hs"
  by (simp add: content_length_parse_all_def)

lemma content_length_parse_all_none:
  "hm_get_all H hs CONTENT_LENGTH = [] \<Longrightarrow> content_length_parse_all H hs = None"
  using content_length_parse_all_values_iff [of H "[]"]
  by (cases "content_length_parse_all H hs") (auto simp: content_length_parse_all_def)

lemma set_content_length_ok:
  assumes "header_map_ok H" "to_str_ok H" "from_u64_ok H" "set_content_length H hs len = (hs', e)"
  shows "content_length_parse_all H hs' = Some len \<and> e = encoder_length len \<and>
    hm_get_all H hs' TRANSFER_ENCODING = hm_get_all H hs TRANSFER_ENCODING"
proof -
  have "content_length_parse (decimal (unat len)) = Some len"
    by (simp add: content_length_parse_def from_digits_decimal)
  from content_length_single [OF assms(2) this] assms(3,4) show ?thesis
    by (auto simp: set_content_length_def content_length_parse_all_def header_map_okD(3) [OF assms(1)]
        from_u64_ok_def)
qed

lemma is_chunked_single: "to_str_ok H \<Longrightarrow> is_chunked H [ascii ''chunked'']"
  by (simp add: is_chunked_def is_chunked_value_chunked)

text \<open>The headers that a request is sent with fit the encoder of its body.\<close>

definition request_headers_fit ::
    "('hm, 'uri, 'z) http_scheme \<Rightarrow> ('hm, 'uri) request_head \<Rightarrow> body_length \<Rightarrow> encoder \<Rightarrow> bool" where
  "request_headers_fit H head body e =
     (case enc_kind e of
        EChunked \<Rightarrow> version head = HTTP_11 \<and> transfer_encoding_is_chunked H (headers head) \<and>
          content_length_parse_all H (headers head) = None
      | ELength n \<Rightarrow> hm_get_all H (headers head) TRANSFER_ENCODING = [] \<and>
          (content_length_parse_all H (headers head) = Some n \<or>
           n = 0 \<and> body = Unknown \<and> content_length_parse_all H (headers head) = None)
      | ECloseDelimited \<Rightarrow> False)"

lemmas encoder_ctor_defs = encoder_length_def encoder_chunked_def encoder_new_def

lemma client_set_length_fit:
  assumes "header_map_ok H" "to_str_ok H" "from_u64_ok H"
    and "\<forall>v \<in> set (hm_get_all H (headers head) TRANSFER_ENCODING). hv_to_str H v \<noteq> None"
    and "client_set_length H head (Some body) = Some (head', e)"
  shows "request_headers_fit H head' body e"
proof -
  note hm = header_map_okD [OF assms(1)]
  note scl = set_content_length_ok [OF assms(1-3)]
  let ?hs = "headers head"
  have rm: "content_length_parse_all H (hm_remove H ?hs TRANSFER_ENCODING) = content_length_parse_all H ?hs"
    "content_length_parse_all H (hm_insert H ?hs TRANSFER_ENCODING v) = content_length_parse_all H ?hs"
    "content_length_parse_all H (add_chunked H ?hs) = content_length_parse_all H ?hs" for v
    using add_chunked_other [OF assms(1)] by (auto intro!: content_length_parse_all_cong simp: hm)
  have rmcl: "content_length_parse_all H (hm_remove H hs CONTENT_LENGTH) = None"
    "hm_get_all H (hm_remove H hs CONTENT_LENGTH) TRANSFER_ENCODING = hm_get_all H hs TRANSFER_ENCODING" for hs
    by (rule content_length_parse_all_none) (simp_all add: hm)
  consider "version head \<noteq> HTTP_11" | "version head = HTTP_11" "hm_get_all H ?hs TRANSFER_ENCODING \<noteq> []"
    | "version head = HTTP_11" "hm_get_all H ?hs TRANSFER_ENCODING = []" by blast
  then show ?thesis
  proof cases
    case 1
    with assms(5) rm(1) hm(4) show ?thesis
      by (auto simp: client_set_length_def request_headers_fit_def encoder_ctor_defs Let_def dest!: scl
          split: option.splits body_length.splits prod.splits)
  next
    case 2
    have "transfer_encoding_is_chunked H (add_chunked H ?hs)"
      using add_chunked_is_chunked [OF assms(1,2)] assms(4) by blast
    with 2 assms(5) rm(3) rmcl hm(6) show ?thesis
      by (auto simp: client_set_length_def request_headers_fit_def encoder_ctor_defs Let_def
          transfer_encoding_is_chunked_def split: if_splits)
  next
    case 3
    obtain m u where "subject head = RequestLine m u" by (cases "subject head")
    with 3 assms(5) rm(2) hm is_chunked_single [OF assms(2)] show ?thesis
      by (auto simp: client_set_length_def request_headers_fit_def encoder_ctor_defs Let_def
          transfer_encoding_is_chunked_def dest!: scl split: option.splits body_length.splits prod.splits if_splits)
  qed
qed


definition ex_req :: "ex_map \<Rightarrow> (ex_map, bytes) request_head" where
  "ex_req hs = \<lparr>version = HTTP_11, subject = RequestLine ''POST'' (ascii ''/''), headers = hs,
     extensions = extensions_default\<rparr>"



section \<open>Agreement of both roles\<close>

text \<open>The version that a response is labelled with.\<close>

definition wire_version :: "version \<Rightarrow> version" where
  "wire_version v = (if v = HTTP_10 then HTTP_10 else HTTP_11)"

lemma client_decoder_agrees:
  assumes "header_map_ok H" "to_str_ok H" "status_ok H"
    and fl: "framing_lines U body v (can_have_body H m (subject inc)) ls e"
    and ch: "\<forall>v \<in> set (values_of TRANSFER_ENCODING ls). is_chunked_value H v"
    and nb: "\<not> can_have_body H m (subject inc) \<longrightarrow> encoder_is_eof e"
    and U: "\<forall>v \<in> U. \<forall>k. body = Some (Known k) \<longrightarrow> content_length_parse v = Some k"
    and b: "body \<noteq> None" "\<forall>n. enc_kind e = ELength n \<longrightarrow> n \<le> MAX_LEN"
    and inc: "version inc = wire_version v"
      "hm_get_all H (headers inc) TRANSFER_ENCODING = values_of TRANSFER_ENCODING ls"
      "hm_get_all H (headers inc) CONTENT_LENGTH = values_of CONTENT_LENGTH ls"
    and st: "status_is_informational H (subject inc) \<longrightarrow> subject inc = 101"
  shows "\<exists>up. client_decoder H inc m = Ok (Some (decoder_of (enc_kind e), up))"
proof -
  have sok: "status_is_informational H s \<longleftrightarrow> 100 \<le> s \<and> s \<le> 199"
    "status_is_success H s \<longleftrightarrow> 200 \<le> s \<and> s \<le> 299" for s
    using assms(3) by (simp_all add: status_ok_def) arith+
  have st': "\<not> (subject inc = 100 \<or> 102 \<le> subject inc \<and> subject inc \<le> 199)"
    using st unfolding sok by arith
  show ?thesis
  proof (cases "can_have_body H m (subject inc)")
    case False
    with nb have "decoder_of (enc_kind e) = ZERO" by (simp add: encoder_is_eof_def ZERO_def)
    moreover from False consider "m = Some ''HEAD''" | "m = Some ''CONNECT''" "status_is_success H (subject inc)"
      | "status_is_informational H (subject inc)" | "subject inc = 204" | "subject inc = 304"
      unfolding can_have_body_def can_chunked_def by argo
    then have "\<exists>up. client_decoder H inc m = Ok (Some (ZERO, up))"
      using st' by cases (simp_all add: client_decoder_def sok, blast+)
    ultimately show ?thesis by simp
  next
    case True
    note ck = header_map_okD(6) [OF assms(1)]
    from True have go: "client_decoder H inc m =
        (if values_of TRANSFER_ENCODING ls \<noteq> [] then
           (if version inc = HTTP_10 then Err transfer_encoding_unexpected
            else if transfer_encoding_is_chunked H (headers inc) then Ok (Some (CHUNKED, False))
            else Ok (Some (CLOSE_DELIMITED, False)))
         else case content_length_parse_all H (headers inc) of
                Some len \<Rightarrow> map_sum id (\<lambda>d. Some (d, False)) (checked_new len)
              | None \<Rightarrow>
                  if values_of CONTENT_LENGTH ls \<noteq> [] then Err content_length_invalid
                  else Ok (Some (CLOSE_DELIMITED, False)))"
    proof -
      from True have "subject inc \<noteq> 101" "subject inc \<noteq> 204" "subject inc \<noteq> 304" "m \<noteq> Some ''HEAD''"
        "\<not> (m = Some ''CONNECT'' \<and> 200 \<le> subject inc \<and> subject inc \<le> 299)"
        unfolding can_have_body_def can_chunked_def sok by (auto split: if_split_asm)
      with st' show ?thesis by (simp only: client_decoder_def ck inc simp_thms if_False)
    qed
    show ?thesis
    proof (cases "enc_kind e")
      case EChunked
      with fl True have te: "values_of TRANSFER_ENCODING ls \<noteq> []" "v \<noteq> HTTP_10"
        by (simp_all add: framing_lines_def)
      then have "is_chunked_value H (last (values_of TRANSFER_ENCODING ls))" using ch by simp
      with te EChunked inc show ?thesis
        by (intro exI [of _ False]) (simp add: go wire_version_def transfer_encoding_is_chunked_def is_chunked_def)
    next
      case (ELength n)
      with fl True obtain w where w: "values_of CONTENT_LENGTH ls = [w]" "values_of TRANSFER_ENCODING ls = []"
        "declared U body w (encoder_length n)"
        by (auto simp: framing_lines_def)
      have "content_length_parse w = Some n"
        using w(3) U b(1) by (auto simp: declared_def encoder_ctor_defs split: option.splits body_length.splits)
      from content_length_single [OF assms(2) this] w inc b(2) ELength show ?thesis
        by (intro exI [of _ False]) (simp add: go content_length_parse_all_def checked_new_def)
    next
      case ECloseDelimited
      with fl True have "values_of CONTENT_LENGTH ls = []" "values_of TRANSFER_ENCODING ls = []"
        by (simp_all add: framing_lines_def)
      with inc ECloseDelimited show ?thesis by (intro exI [of _ False]) (simp add: go content_length_parse_all_none)
    qed
  qed
qed

lemma server_encode_Ok_status:
  assumes "server_encode H date msg dst = Some (head', dst', Ok e)"
  shows "status_is_informational H (subject (enc_head msg)) \<longrightarrow> subject (enc_head msg) = 101 \<or>
    enc_req_method msg = Some ''CONNECT'' \<and> status_is_success H (subject (enc_head msg))"
proof -
  obtain head body ret is_last wrote_len where p: "server_prepare H msg = (head, body, ret, is_last, wrote_len)"
    by (metis surj_pair)
  with assms obtain res where "(case res of Err e \<Rightarrow> Err e | Ok encoder \<Rightarrow> map_sum id (\<lambda>_. encoder) ret) = Ok e"
    by (auto simp: server_encode_def Let_def split: option.split_asm)
  then have "ret = Ok ()" by (cases res; cases ret; simp)
  with p show ?thesis by (auto simp: server_prepare_def Let_def split: if_splits)
qed

text \<open>What the fields of a response head say to the client.\<close>

definition carries :: "('hm, 'uri, 'z) http_scheme \<Rightarrow> version \<Rightarrow> nat \<Rightarrow> field list \<Rightarrow> 'hm response_head \<Rightarrow> bool" where
  "carries H v status ls inc \<longleftrightarrow>
     version inc = wire_version v \<and> subject inc = status \<and>
     hm_get_all H (headers inc) TRANSFER_ENCODING = values_of TRANSFER_ENCODING ls \<and>
     hm_get_all H (headers inc) CONTENT_LENGTH = values_of CONTENT_LENGTH ls"



end
