(* ===== verification/Conn_State.thy ===== *)
theory Conn_State
  imports Decode Encode Client_Role
begin

text \<open>
  The state of an HTTP/1 connection (\<open>State\<close>, \<open>Reading\<close>, \<open>Writing\<close> and \<open>KA\<close> of
  \<^verbatim>\<open>src/src/proto/h1/conn.rs\<close>): which messages may be read and written, and when the connection
  can be used for another pair of messages. \<open>'up\<close> identifies the channel of a pending upgrade.
\<close>

section \<open>Keep-alive status\<close>

datatype ka = Idle | Busy | Disabled

definition ka_default :: ka where "ka_default = Busy"

text \<open>\<open>BitAndAssign\<close>: a remote that refuses keep-alive disables it.\<close>

definition ka_and :: "ka \<Rightarrow> bool \<Rightarrow> ka" where
  "ka_and k enabled = (if \<not> enabled then Disabled else k)"

section \<open>State\<close>

datatype reading = RInit | RContinue decoder | RBody decoder | RKeepAlive | RClosed

datatype writing = WInit | WBody encoder | WKeepAlive | WClosed

record ('hm, 'cfg, 'up) state =
  st_allow_half_close :: bool
  st_cached_headers :: "'hm option"
  st_error :: "error option"
  st_keep_alive :: ka
  st_method :: "string option"
  st_h1_parser_config :: 'cfg
  st_h1_header_read_timeout :: "nat option"
  st_h1_header_read_timeout_fut :: "nat option"
  st_h1_header_read_timeout_running :: bool
  st_preserve_header_case :: bool
  st_title_case_headers :: bool
  st_h09_responses :: bool
  st_notify_read :: bool
  st_reading :: reading
  st_writing :: writing
  st_upgrade :: "'up option"
  st_version :: version

definition state_close :: "('hm, 'cfg, 'up) state \<Rightarrow> ('hm, 'cfg, 'up) state" where
  "state_close s = s\<lparr>st_reading := RClosed, st_writing := WClosed, st_keep_alive := Disabled\<rparr>"

definition state_close_read :: "('hm, 'cfg, 'up) state \<Rightarrow> ('hm, 'cfg, 'up) state" where
  "state_close_read s = s\<lparr>st_reading := RClosed, st_keep_alive := Disabled\<rparr>"

definition state_close_write :: "('hm, 'cfg, 'up) state \<Rightarrow> ('hm, 'cfg, 'up) state" where
  "state_close_write s = s\<lparr>st_writing := WClosed, st_keep_alive := Disabled\<rparr>"

definition wants_keep_alive :: "('hm, 'cfg, 'up) state \<Rightarrow> bool" where
  "wants_keep_alive s = (case st_keep_alive s of Disabled \<Rightarrow> False | _ \<Rightarrow> True)"

definition state_is_idle :: "('hm, 'cfg, 'up) state \<Rightarrow> bool" where
  "state_is_idle s = (case st_keep_alive s of Idle \<Rightarrow> True | _ \<Rightarrow> False)"

definition state_is_read_closed :: "('hm, 'cfg, 'up) state \<Rightarrow> bool" where
  "state_is_read_closed s = (case st_reading s of RClosed \<Rightarrow> True | _ \<Rightarrow> False)"

definition state_is_write_closed :: "('hm, 'cfg, 'up) state \<Rightarrow> bool" where
  "state_is_write_closed s = (case st_writing s of WClosed \<Rightarrow> True | _ \<Rightarrow> False)"

definition state_disable_keep_alive :: "('hm, 'cfg, 'up) state \<Rightarrow> ('hm, 'cfg, 'up) state" where
  "state_disable_keep_alive s = s\<lparr>st_keep_alive := Disabled\<rparr>"

definition state_busy :: "('hm, 'cfg, 'up) state \<Rightarrow> ('hm, 'cfg, 'up) state" where
  "state_busy s = (case st_keep_alive s of Disabled \<Rightarrow> s | _ \<Rightarrow> s\<lparr>st_keep_alive := Busy\<rparr>)"

definition state_idle ::
    "('inc, 'out, 'hm, 'cfg) transaction \<Rightarrow> ('hm, 'cfg, 'up) state \<Rightarrow> ('hm, 'cfg, 'up) state" where
  "state_idle T s =
     (let s = s\<lparr>st_method := None, st_keep_alive := Idle\<rparr>
      in if state_is_idle s then
           (let s = s\<lparr>st_reading := RInit, st_writing := WInit\<rparr>
            in if \<not> should_read_first T then s\<lparr>st_notify_read := True\<rparr> else s)
         else state_close s)"

definition state_try_keep_alive ::
    "('inc, 'out, 'hm, 'cfg) transaction \<Rightarrow> ('hm, 'cfg, 'up) state \<Rightarrow> ('hm, 'cfg, 'up) state" where
  "state_try_keep_alive T s =
     (case (st_reading s, st_writing s) of
        (RKeepAlive, WKeepAlive) \<Rightarrow>
          (case st_keep_alive s of Busy \<Rightarrow> state_idle T s | _ \<Rightarrow> state_close s)
      | (RClosed, WKeepAlive) \<Rightarrow> state_close s
      | (RKeepAlive, WClosed) \<Rightarrow> state_close s
      | _ \<Rightarrow> s)"

text \<open>\<open>crate::upgrade::pending()\<close> makes a channel; \<open>ch\<close> is its identity.\<close>

definition prepare_upgrade :: "'up \<Rightarrow> ('hm, 'cfg, 'up) state \<Rightarrow> ('hm, 'cfg, 'up) state \<times> 'up" where
  "prepare_upgrade ch s = (s\<lparr>st_upgrade := Some ch\<rparr>, ch)"

lemmas state_defs [hyper_defs] =
  state_close_def state_close_read_def state_close_write_def wants_keep_alive_def state_is_idle_def
  state_is_read_closed_def state_is_write_closed_def state_disable_keep_alive_def state_busy_def
  ka_and_def

section \<open>The life of a connection\<close>

text \<open>
  What the rest of the system may rely on: each direction is before its message, inside it, past
  it, or closed for good, and the connection is reused only by the step \<open>life_reuse\<close>, which needs
  both messages to be complete and keep-alive to be on.
\<close>

datatype side = SInit | SOpen | SDone | SClosed

type_synonym life_state = "side \<times> side \<times> ka"

inductive life :: "life_state \<Rightarrow> life_state \<Rightarrow> bool" where
  life_read_head: "r' \<noteq> SInit \<Longrightarrow> k' = Disabled \<or> k' = Busy \<and> k \<noteq> Disabled \<Longrightarrow>
    life (SInit, w, k) (r', w, k')"
| life_read_body: "r' \<in> {SDone, SClosed} \<Longrightarrow> life (SOpen, w, k) (r', w, k)"
| life_write_head: "w' \<noteq> SInit \<Longrightarrow> k' = k \<or> k' = Disabled \<or> k' = Busy \<and> k \<noteq> Disabled \<Longrightarrow>
    life (r, SInit, k) (r, w', k')"
| life_write_body: "w' \<in> {SDone, SClosed} \<Longrightarrow> life (r, SOpen, k) (r, w', k)"
| life_close_read: "life (r, w, k) (SClosed, w, Disabled)"
| life_close_write: "life (r, w, k) (r, SClosed, Disabled)"
| life_disable: "life (r, w, k) (r, w, Disabled)"
| life_reuse: "life (SDone, SDone, Busy) (SInit, SInit, Idle)"

inductive_cases life_toE: "life a (r', w', k')"

fun read_side :: "reading \<Rightarrow> side" where
  "read_side RInit = SInit"
| "read_side (RContinue _) = SOpen"
| "read_side (RBody _) = SOpen"
| "read_side RKeepAlive = SDone"
| "read_side RClosed = SClosed"

fun write_side :: "writing \<Rightarrow> side" where
  "write_side WInit = SInit"
| "write_side (WBody _) = SOpen"
| "write_side WKeepAlive = SDone"
| "write_side WClosed = SClosed"

definition life_of :: "('hm, 'cfg, 'up) state \<Rightarrow> life_state" where
  "life_of s = (read_side (st_reading s), write_side (st_writing s), st_keep_alive s)"

text \<open>A closed side and disabled keep-alive are final.\<close>

lemma life_final:
  assumes "life\<^sup>*\<^sup>* a b"
  shows "(fst a = SClosed \<longrightarrow> fst b = SClosed) \<and> (fst (snd a) = SClosed \<longrightarrow> fst (snd b) = SClosed) \<and>
    (snd (snd a) = Disabled \<longrightarrow> snd (snd b) = Disabled)"
  using assms by induction (auto elim!: life.cases)

text \<open>A direction starts over only through a reuse of the connection.\<close>

lemma life_restart:
  assumes "life\<^sup>*\<^sup>* a b" "fst a \<noteq> SInit \<and> fst b = SInit \<or> fst (snd a) \<noteq> SInit \<and> fst (snd b) = SInit"
  shows "life\<^sup>*\<^sup>* a (SDone, SDone, Busy) \<and> life\<^sup>*\<^sup>* (SInit, SInit, Idle) b"
  using assms
proof (induction rule: rtranclp_induct)
  case (step b c)
  from step.hyps(2) consider "b = (SDone, SDone, Busy)" "c = (SInit, SInit, Idle)"
    | "fst c = SInit \<longrightarrow> fst b = SInit" "fst (snd c) = SInit \<longrightarrow> fst (snd b) = SInit"
    by cases auto
  then show ?case
  proof cases
    case 1
    with step.hyps(1) show ?thesis by simp
  next
    case 2
    with step show ?thesis by (auto intro: rtranclp.rtrancl_into_rtrancl)
  qed
qed auto

text \<open>An idle connection is between messages on both sides and remembers no method.\<close>

definition idle_ok :: "('hm, 'cfg, 'up) state \<Rightarrow> bool" where
  "idle_ok s \<longleftrightarrow> (st_keep_alive s = Idle \<longrightarrow> st_reading s = RInit \<and> st_writing s = WInit \<and> st_method s = None)"

lemma state_idle_eq:
  "state_idle T s = s\<lparr>st_method := None, st_keep_alive := Idle, st_reading := RInit, st_writing := WInit,
     st_notify_read := (\<not> should_read_first T \<or> st_notify_read s)\<rparr>"
  by (simp add: state_idle_def state_is_idle_def Let_def)

text \<open>The connection is reused exactly when both messages are complete and keep-alive is on.\<close>

lemma state_try_keep_alive_cases:
  "state_try_keep_alive T s = s \<and> \<not> (st_reading s = RKeepAlive \<and> st_writing s = WKeepAlive) \<or>
   state_try_keep_alive T s = state_close s \<and> st_reading s \<in> {RKeepAlive, RClosed} \<and>
     st_writing s \<in> {WKeepAlive, WClosed} \<or>
   state_try_keep_alive T s = state_idle T s \<and> st_reading s = RKeepAlive \<and> st_writing s = WKeepAlive \<and>
     st_keep_alive s = Busy"
  by (auto simp: state_try_keep_alive_def split: reading.split writing.split ka.split)

lemma state_try_keep_alive_idle_ok: "idle_ok s \<Longrightarrow> idle_ok (state_try_keep_alive T s)"
  using state_try_keep_alive_cases [of T s] by (auto simp: idle_ok_def state_close_def state_idle_eq)

lemmas life_once = r_into_rtranclp [where r = life]
lemmas life_trans = rtranclp_trans [where r = life]

lemma life_of_close: "life\<^sup>*\<^sup>* (life_of s) (life_of (state_close s))"
  using life_trans [OF life_once [OF life_close_read] life_once [OF life_close_write]]
  by (simp add: life_of_def state_close_def)

lemma life_of_try_keep_alive: "life\<^sup>*\<^sup>* (life_of s) (life_of (state_try_keep_alive T s))"
  using state_try_keep_alive_cases [of T s] life_of_close [of s] life_once [OF life_reuse]
  by (auto simp: life_of_def state_idle_eq)

end
