(* ===== verification/Conn.thy ===== *)
theory Conn
  imports Conn_State Codec Buffered
begin

text \<open>
  The HTTP/1 connection (\<open>Conn\<close> of \<^verbatim>\<open>src/src/proto/h1/conn.rs\<close>): reading heads and bodies, writing
  heads and bodies, flushing, keep-alive, and the answers to requests that cannot be parsed.

  What the connection is generic over or calls from other crates is the record \<open>conn_env\<close>: the
  transport, the allocator's choices, the buffers of the \<open>bytes\<close> crate, the clock, the role and
  the \<open>http\<close> crate. Each operation takes the connection and returns it updated; an outer \<open>None\<close>
  stands for a panic.
\<close>

section \<open>State\<close>

record ('io, 'b, 'tk, 'ch, 'inc, 'out, 'hm, 'uri, 'cfg) conn_env =
  e_io :: "'io transport"
  e_spare :: "'io \<Rightarrow> bytes \<Rightarrow> nat \<Rightarrow> nat"
  e_cap :: "bytes \<Rightarrow> nat"
  e_bytes :: "('b, 'tk, 'ch) bytes_crate"
  e_cvec :: "cursor \<Rightarrow> nat \<Rightarrow> bytes list"
  e_rt :: runtime
  e_tx :: "('inc, 'out, 'hm, 'cfg) transaction"
  e_http :: "('hm, 'uri) http"

record ('io, 'b, 'tk, 'ch, 'hm, 'cfg, 'up) conn =
  c_io :: "('io, ('b, 'tk, 'ch) encoded_buf) buffered"
  c_state :: "('hm, 'cfg, 'up) state"

text \<open>\<open>cfg\<close> is \<open>ParserConfig::default()\<close>.\<close>

definition conn_new ::
    "('io, 'b, 'tk, 'ch, 'inc, 'out, 'hm, 'uri, 'cfg) conn_env \<Rightarrow> 'cfg \<Rightarrow> 'io
     \<Rightarrow> ('io, 'b, 'tk, 'ch, 'hm, 'cfg, 'up) conn" where
  "conn_new E cfg io =
     \<lparr>c_io = buffered_new (e_io E) io,
      c_state =
        \<lparr>st_allow_half_close = False, st_cached_headers = None, st_error = None, st_keep_alive = Busy,
         st_method = None, st_h1_parser_config = cfg, st_h1_header_read_timeout = None,
         st_h1_header_read_timeout_fut = None, st_h1_header_read_timeout_running = False,
         st_preserve_header_case = False, st_title_case_headers = False, st_h09_responses = False,
         st_notify_read = False, st_reading = RInit, st_writing = WInit, st_upgrade = None,
         st_version = HTTP_11\<rparr>\<rparr>"

abbreviation on_state ::
    "(('hm, 'cfg, 'up) state \<Rightarrow> ('hm, 'cfg, 'up) state) \<Rightarrow> ('io, 'b, 'tk, 'ch, 'hm, 'cfg, 'up) conn
     \<Rightarrow> ('io, 'b, 'tk, 'ch, 'hm, 'cfg, 'up) conn" where
  "on_state f c \<equiv> c\<lparr>c_state := f (c_state c)\<rparr>"

section \<open>Configuration and queries\<close>

definition conn_set_flush_pipeline where
  "conn_set_flush_pipeline c enabled = c\<lparr>c_io := set_flush_pipeline (c_io c) enabled\<rparr>"

definition conn_set_write_strategy_queue where
  "conn_set_write_strategy_queue c = c\<lparr>c_io := set_write_strategy_queue (c_io c)\<rparr>"

definition conn_set_write_strategy_flatten where
  "conn_set_write_strategy_flatten c = c\<lparr>c_io := set_write_strategy_flatten (c_io c)\<rparr>"

definition conn_set_max_buf_size where
  "conn_set_max_buf_size c mx = map_option (\<lambda>io. c\<lparr>c_io := io\<rparr>) (set_max_buf_size (c_io c) mx)"

definition conn_set_read_buf_exact_size where
  "conn_set_read_buf_exact_size c sz = c\<lparr>c_io := set_read_buf_exact_size (c_io c) sz\<rparr>"

definition set_h1_parser_config where
  "set_h1_parser_config c cfg = on_state (\<lambda>s. s\<lparr>st_h1_parser_config := cfg\<rparr>) c"

definition set_title_case_headers where
  "set_title_case_headers c = on_state (\<lambda>s. s\<lparr>st_title_case_headers := True\<rparr>) c"

definition set_preserve_header_case where
  "set_preserve_header_case c = on_state (\<lambda>s. s\<lparr>st_preserve_header_case := True\<rparr>) c"

definition set_h09_responses where
  "set_h09_responses c = on_state (\<lambda>s. s\<lparr>st_h09_responses := True\<rparr>) c"

definition set_http1_header_read_timeout where
  "set_http1_header_read_timeout c val = on_state (\<lambda>s. s\<lparr>st_h1_header_read_timeout := Some val\<rparr>) c"

definition set_allow_half_close where
  "set_allow_half_close c = on_state (\<lambda>s. s\<lparr>st_allow_half_close := True\<rparr>) c"

definition conn_into_inner where
  "conn_into_inner c = buffered_into_inner (c_io c)"

definition pending_upgrade ::
    "('io, 'b, 'tk, 'ch, 'hm, 'cfg, 'up) conn \<Rightarrow> ('io, 'b, 'tk, 'ch, 'hm, 'cfg, 'up) conn \<times> 'up option" where
  "pending_upgrade c = (on_state (\<lambda>s. s\<lparr>st_upgrade := None\<rparr>) c, st_upgrade (c_state c))"

definition is_read_closed where "is_read_closed c = state_is_read_closed (c_state c)"

definition is_write_closed where "is_write_closed c = state_is_write_closed (c_state c)"

definition can_read_head ::
    "('io, 'b, 'tk, 'ch, 'inc, 'out, 'hm, 'uri, 'cfg) conn_env
     \<Rightarrow> ('io, 'b, 'tk, 'ch, 'hm, 'cfg, 'up) conn \<Rightarrow> bool" where
  "can_read_head E c =
     (case st_reading (c_state c) of
        RInit \<Rightarrow>
          (if should_read_first (e_tx E) then True
           else case st_writing (c_state c) of WInit \<Rightarrow> False | _ \<Rightarrow> True)
      | _ \<Rightarrow> False)"

definition can_read_body :: "('io, 'b, 'tk, 'ch, 'hm, 'cfg, 'up) conn \<Rightarrow> bool" where
  "can_read_body c =
     (case st_reading (c_state c) of RBody _ \<Rightarrow> True | RContinue _ \<Rightarrow> True | _ \<Rightarrow> False)"

definition should_error_on_eof where
  "should_error_on_eof E c \<longleftrightarrow> should_error_on_parse_eof (e_tx E) \<and> \<not> state_is_idle (c_state c)"

definition H2_PREFACE :: bytes where
  "H2_PREFACE = ascii ''PRI * HTTP/2.0'' @ CRLF @ CRLF @ ascii ''SM'' @ CRLF @ CRLF"

definition has_h2_prefix :: "('io, 'b, 'tk, 'ch, 'hm, 'cfg, 'up) conn \<Rightarrow> bool" where
  "has_h2_prefix c \<longleftrightarrow>
     24 \<le> length (read_buf (c_io c)) \<and> take 24 (read_buf (c_io c)) = H2_PREFACE"

definition is_mid_message :: "('io, 'b, 'tk, 'ch, 'hm, 'cfg, 'up) conn \<Rightarrow> bool" where
  "is_mid_message c =
     (case (st_reading (c_state c), st_writing (c_state c)) of (RInit, WInit) \<Rightarrow> False | _ \<Rightarrow> True)"

definition can_write_head ::
    "('io, 'b, 'tk, 'ch, 'inc, 'out, 'hm, 'uri, 'cfg) conn_env
     \<Rightarrow> ('io, 'b, 'tk, 'ch, 'hm, 'cfg, 'up) conn \<Rightarrow> bool" where
  "can_write_head E c =
     (if \<not> should_read_first (e_tx E) \<and> st_reading (c_state c) = RClosed then False
      else case st_writing (c_state c) of
             WInit \<Rightarrow> can_headers_buf (encoded_buf_ops (e_bytes E)) (c_io c)
           | _ \<Rightarrow> False)"

definition can_write_body :: "('io, 'b, 'tk, 'ch, 'hm, 'cfg, 'up) conn \<Rightarrow> bool" where
  "can_write_body c = (case st_writing (c_state c) of WBody _ \<Rightarrow> True | _ \<Rightarrow> False)"

definition can_buffer_body where
  "can_buffer_body E c = can_buffer (encoded_buf_ops (e_bytes E)) (c_io c)"

definition close_read where "close_read c = on_state state_close_read c"

definition close_write where "close_write c = on_state state_close_write c"

definition disable_keep_alive :: "('io, 'b, 'tk, 'ch, 'hm, 'cfg, 'up) conn \<Rightarrow> ('io, 'b, 'tk, 'ch, 'hm, 'cfg, 'up) conn" where
  "disable_keep_alive c =
     (if state_is_idle (c_state c) then on_state state_close c else on_state state_disable_keep_alive c)"

definition take_error ::
    "('io, 'b, 'tk, 'ch, 'hm, 'cfg, 'up) conn \<Rightarrow> ('io, 'b, 'tk, 'ch, 'hm, 'cfg, 'up) conn \<times> (error + unit)" where
  "take_error c =
     (on_state (\<lambda>s. s\<lparr>st_error := None\<rparr>) c,
      case st_error (c_state c) of Some err \<Rightarrow> Err err | None \<Rightarrow> Ok ())"

definition on_upgrade ::
    "'up \<Rightarrow> ('io, 'b, 'tk, 'ch, 'hm, 'cfg, 'up) conn \<Rightarrow> ('io, 'b, 'tk, 'ch, 'hm, 'cfg, 'up) conn \<times> 'up" where
  "on_upgrade ch c = (case prepare_upgrade ch (c_state c) of (s, rx) \<Rightarrow> (c\<lparr>c_state := s\<rparr>, rx))"

definition wants_read_again ::
    "('io, 'b, 'tk, 'ch, 'hm, 'cfg, 'up) conn \<Rightarrow> ('io, 'b, 'tk, 'ch, 'hm, 'cfg, 'up) conn \<times> bool" where
  "wants_read_again c = (on_state (\<lambda>s. s\<lparr>st_notify_read := False\<rparr>) c, st_notify_read (c_state c))"

section \<open>Keep-alive\<close>

definition maybe_notify ::
    "('io, 'b, 'tk, 'ch, 'inc, 'out, 'hm, 'uri, 'cfg) conn_env
     \<Rightarrow> ('io, 'b, 'tk, 'ch, 'hm, 'cfg, 'up) conn \<Rightarrow> ('io, 'b, 'tk, 'ch, 'hm, 'cfg, 'up) conn" where
  "maybe_notify E c =
     (if st_reading (c_state c) \<noteq> RInit then c
      else if can_write_body c then c
      else if read_blocked (c_io c) then c
      else if read_buf (c_io c) \<noteq> [] then on_state (\<lambda>s. s\<lparr>st_notify_read := True\<rparr>) c
      else case poll_read_from_io (e_io E) (e_spare E) (c_io c) of
             (io, Ready (Ok n)) \<Rightarrow>
               (let c = c\<lparr>c_io := io\<rparr>
                in if n = 0 then
                     (if state_is_idle (c_state c) then on_state state_close c else close_read c)
                   else on_state (\<lambda>s. s\<lparr>st_notify_read := True\<rparr>) c)
           | (io, Pending) \<Rightarrow> c\<lparr>c_io := io\<rparr>
           | (io, Ready (Err e)) \<Rightarrow>
               (let c = on_state state_close (c\<lparr>c_io := io\<rparr>)
                in on_state (\<lambda>s. s\<lparr>st_error := Some (new_io e), st_notify_read := True\<rparr>) c))"

definition conn_try_keep_alive ::
    "('io, 'b, 'tk, 'ch, 'inc, 'out, 'hm, 'uri, 'cfg) conn_env
     \<Rightarrow> ('io, 'b, 'tk, 'ch, 'hm, 'cfg, 'up) conn \<Rightarrow> ('io, 'b, 'tk, 'ch, 'hm, 'cfg, 'up) conn" where
  "conn_try_keep_alive E c = maybe_notify E (on_state (state_try_keep_alive (e_tx E)) c)"

section \<open>Writing\<close>

definition fix_keep_alive ::
    "('io, 'b, 'tk, 'ch, 'inc, 'out, 'hm, 'uri, 'cfg) conn_env
     \<Rightarrow> ('io, 'b, 'tk, 'ch, 'hm, 'cfg, 'up) conn \<Rightarrow> ('out, 'hm) message_head
     \<Rightarrow> ('io, 'b, 'tk, 'ch, 'hm, 'cfg, 'up) conn \<times> ('out, 'hm) message_head" where
  "fix_keep_alive E c head =
     (let H = e_http E;
          outgoing_is_keep_alive =
            (case hm_get_all H (headers head) CONNECTION of
               [] \<Rightarrow> False
             | v # _ \<Rightarrow> connection_keep_alive H v)
      in if \<not> outgoing_is_keep_alive then
           (case version head of
              HTTP_10 \<Rightarrow> (on_state state_disable_keep_alive c, head)
            | HTTP_11 \<Rightarrow>
                (c, if wants_keep_alive (c_state c)
                    then head\<lparr>headers := hm_insert H (headers head) CONNECTION (ascii ''keep-alive'')\<rparr>
                    else head)
            | _ \<Rightarrow> (c, head))
         else (c, head))"

definition enforce_version where
  "enforce_version E c head =
     (if st_version (c_state c) = HTTP_10
      then (case fix_keep_alive E c head of (c, head) \<Rightarrow> (c, head\<lparr>version := HTTP_10\<rparr>))
      else (c, head))"

definition encode_head ::
    "('io, 'b, 'tk, 'ch, 'inc, 'out, 'hm, 'uri, 'cfg) conn_env
     \<Rightarrow> ('io, 'b, 'tk, 'ch, 'hm, 'cfg, 'up) conn \<Rightarrow> ('out, 'hm) message_head \<Rightarrow> body_length option
     \<Rightarrow> (('io, 'b, 'tk, 'ch, 'hm, 'cfg, 'up) conn \<times> encoder option) option" where
  "encode_head E c head body =
     (let c = (if \<not> should_read_first (e_tx E) then on_state state_busy c else c);
          (c, head) = enforce_version E c head
      in case t_encode (e_tx E)
                \<lparr>enc_head = head, enc_body = body, enc_keep_alive = wants_keep_alive (c_state c),
                 enc_req_method = st_method (c_state c),
                 enc_title_case_headers = st_title_case_headers (c_state c)\<rparr> (headers_buf (c_io c)) of
           None \<Rightarrow> None
         | Some (head, method, buf, res) \<Rightarrow>
             (let c = on_state (\<lambda>s. s\<lparr>st_method := method\<rparr>) (c\<lparr>c_io := set_headers_buf (c_io c) buf\<rparr>)
              in case res of
                   Ok encoder \<Rightarrow>
                     Some (on_state (\<lambda>s. s\<lparr>st_cached_headers := Some (headers head)\<rparr>) c, Some encoder)
                 | Err err \<Rightarrow>
                     Some (on_state (\<lambda>s. s\<lparr>st_error := Some err, st_writing := WClosed\<rparr>) c, None)))"

definition write_head ::
    "('io, 'b, 'tk, 'ch, 'inc, 'out, 'hm, 'uri, 'cfg) conn_env
     \<Rightarrow> ('io, 'b, 'tk, 'ch, 'hm, 'cfg, 'up) conn \<Rightarrow> ('out, 'hm) message_head \<Rightarrow> body_length option
     \<Rightarrow> ('io, 'b, 'tk, 'ch, 'hm, 'cfg, 'up) conn option" where
  "write_head E c head body =
     (case encode_head E c head body of
        None \<Rightarrow> None
      | Some (c, None) \<Rightarrow> Some c
      | Some (c, Some encoder) \<Rightarrow>
          Some (on_state (\<lambda>s. s\<lparr>st_writing :=
            (if \<not> encoder_is_eof encoder then WBody encoder
             else if encoder_is_last encoder then WClosed
             else WKeepAlive)\<rparr>) c))"

definition write_full_msg ::
    "('io, 'b, 'tk, 'ch, 'inc, 'out, 'hm, 'uri, 'cfg) conn_env
     \<Rightarrow> ('io, 'b, 'tk, 'ch, 'hm, 'cfg, 'up) conn \<Rightarrow> ('out, 'hm) message_head \<Rightarrow> 'b
     \<Rightarrow> ('io, 'b, 'tk, 'ch, 'hm, 'cfg, 'up) conn option" where
  "write_full_msg E c head body =
     (case encode_head E c head (Some (Known (as_u64 (b_remaining (buf_b (e_bytes E)) body)))) of
        None \<Rightarrow> None
      | Some (c, None) \<Rightarrow> Some c
      | Some (c, Some encoder) \<Rightarrow>
          map_option
            (\<lambda>w. on_state (\<lambda>s. s\<lparr>st_writing := (if encoder_is_last encoder then WClosed else WKeepAlive)\<rparr>)
                   (c\<lparr>c_io := (c_io c)\<lparr>write_buf := w\<rparr>\<rparr>))
            (if \<not> encoder_is_eof encoder
             then danger_full_buf (e_cap E) (e_bytes E) encoder body (write_buf (c_io c))
             else Some (write_buf (c_io c))))"

text \<open>\<open>self.io.buffer(..)\<close> of an encoded buffer.\<close>

definition conn_buffer where
  "conn_buffer E c buf =
     map_option (\<lambda>io. c\<lparr>c_io := io\<rparr>)
       (buffered_buffer (e_cap E) (encoded_buf_ops (e_bytes E)) id (c_io c) buf)"

definition write_body ::
    "('io, 'b, 'tk, 'ch, 'inc, 'out, 'hm, 'uri, 'cfg) conn_env
     \<Rightarrow> ('io, 'b, 'tk, 'ch, 'hm, 'cfg, 'up) conn \<Rightarrow> 'b \<Rightarrow> ('io, 'b, 'tk, 'ch, 'hm, 'cfg, 'up) conn option" where
  "write_body E c chunk =
     (case st_writing (c_state c) of
        WBody encoder \<Rightarrow> do {
          (encoder, buf) \<leftarrow> encode (e_bytes E) encoder chunk;
          c \<leftarrow> conn_buffer E c buf;
          Some (on_state (\<lambda>s. s\<lparr>st_writing :=
            (if encoder_is_eof encoder then (if encoder_is_last encoder then WClosed else WKeepAlive)
             else WBody encoder)\<rparr>) c) }
      | _ \<Rightarrow> None)"

definition write_body_and_end ::
    "('io, 'b, 'tk, 'ch, 'inc, 'out, 'hm, 'uri, 'cfg) conn_env
     \<Rightarrow> ('io, 'b, 'tk, 'ch, 'hm, 'cfg, 'up) conn \<Rightarrow> 'b \<Rightarrow> ('io, 'b, 'tk, 'ch, 'hm, 'cfg, 'up) conn option" where
  "write_body_and_end E c chunk =
     (case st_writing (c_state c) of
        WBody encoder \<Rightarrow> do {
          (w, can_keep_alive) \<leftarrow> encode_and_end (e_cap E) (e_bytes E) encoder chunk (write_buf (c_io c));
          Some (on_state (\<lambda>s. s\<lparr>st_writing := (if can_keep_alive then WKeepAlive else WClosed)\<rparr>)
                  (c\<lparr>c_io := (c_io c)\<lparr>write_buf := w\<rparr>\<rparr>)) }
      | _ \<Rightarrow> None)"

definition end_body ::
    "('io, 'b, 'tk, 'ch, 'inc, 'out, 'hm, 'uri, 'cfg) conn_env
     \<Rightarrow> ('io, 'b, 'tk, 'ch, 'hm, 'cfg, 'up) conn
     \<Rightarrow> (('io, 'b, 'tk, 'ch, 'hm, 'cfg, 'up) conn \<times> (error + unit)) option" where
  "end_body E c =
     (case st_writing (c_state c) of
        WBody encoder \<Rightarrow>
          (case encoder_end encoder of
             Ok end \<Rightarrow> do {
               c \<leftarrow> (case end of Some buf \<Rightarrow> conn_buffer E c buf | None \<Rightarrow> Some c);
               Some (on_state (\<lambda>s. s\<lparr>st_writing :=
                 (if encoder_is_last encoder \<or> is_close_delimited encoder then WClosed else WKeepAlive)\<rparr>) c,
                 Ok ()) }
           | Err _ \<Rightarrow>
               Some (on_state (\<lambda>s. s\<lparr>st_writing := WClosed\<rparr>) c,
                     Err (new_user_body (CauseHyper new_body_write_aborted))))
      | _ \<Rightarrow> Some (c, Ok ()))"

section \<open>Reading\<close>

text \<open>
  The parse context borrows from the state: its initial values, and the parts that are written
  back.
\<close>

definition parse_context :: "('hm, 'cfg, 'up) state \<Rightarrow> ('hm, 'cfg) parse_ctx" where
  "parse_context s =
     \<lparr>cached_headers = st_cached_headers s, req_method = st_method s,
      h1_parser_config = st_h1_parser_config s, h1_header_read_timeout = st_h1_header_read_timeout s,
      h1_header_read_timeout_fut = st_h1_header_read_timeout_fut s,
      h1_header_read_timeout_running = st_h1_header_read_timeout_running s,
      preserve_header_case = st_preserve_header_case s, h09_responses = st_h09_responses s\<rparr>"

definition restore_context :: "('hm, 'cfg, 'up) state \<Rightarrow> ('hm, 'cfg) parse_ctx \<Rightarrow> ('hm, 'cfg, 'up) state" where
  "restore_context s ctx =
     s\<lparr>st_cached_headers := cached_headers ctx, st_method := req_method ctx,
       st_h1_header_read_timeout_fut := h1_header_read_timeout_fut ctx,
       st_h1_header_read_timeout_running := h1_header_read_timeout_running ctx\<rparr>"

text \<open>The connection after an error that could not be answered, or after the answer was written.\<close>

definition on_parse_error ::
    "('io, 'b, 'tk, 'ch, 'inc, 'out, 'hm, 'uri, 'cfg) conn_env
     \<Rightarrow> ('io, 'b, 'tk, 'ch, 'hm, 'cfg, 'up) conn \<Rightarrow> error
     \<Rightarrow> (('io, 'b, 'tk, 'ch, 'hm, 'cfg, 'up) conn \<times> (error + unit)) option" where
  "on_parse_error E c err =
     (if st_writing (c_state c) = WInit then
        (if has_h2_prefix c then Some (c, Err new_version_h2)
         else case t_on_error (e_tx E) err of
                Some msg \<Rightarrow> do {
                  c \<leftarrow> write_head E (on_state (\<lambda>s. s\<lparr>st_cached_headers := None\<rparr>) c) msg None;
                  Some (on_state (\<lambda>s. s\<lparr>st_error := Some err\<rparr>) c, Ok ()) }
              | None \<Rightarrow> Some (c, Err err))
      else Some (c, Err err))"

definition on_read_head_error ::
    "('io, 'b, 'tk, 'ch, 'inc, 'out, 'hm, 'uri, 'cfg) conn_env
     \<Rightarrow> ('io, 'b, 'tk, 'ch, 'hm, 'cfg, 'up) conn \<Rightarrow> error
     \<Rightarrow> (('io, 'b, 'tk, 'ch, 'hm, 'cfg, 'up) conn \<times> (error + 'z) option poll) option" where
  "on_read_head_error E c e =
     (let must_error = should_error_on_eof E c;
          c = close_read c;
          c = c\<lparr>c_io := consume_leading_lines (c_io c)\<rparr>;
          was_mid_parse = (is_parse e \<or> read_buf (c_io c) \<noteq> [])
      in if was_mid_parse \<or> must_error then
           map_option (\<lambda>(c, res). (c, case res of Ok _ \<Rightarrow> Pending | Err e \<Rightarrow> Ready (Some (Err e))))
             (on_parse_error E c e)
         else Some (close_write c, Ready None))"

text \<open>What \<open>poll_read_head\<close> does with a parsed head.\<close>

definition head_received ::
    "('io, 'b, 'tk, 'ch, 'inc, 'out, 'hm, 'uri, 'cfg) conn_env
     \<Rightarrow> ('io, 'b, 'tk, 'ch, 'hm, 'cfg, 'up) conn \<Rightarrow> ('inc, 'hm) parsed_message
     \<Rightarrow> ('io, 'b, 'tk, 'ch, 'hm, 'cfg, 'up) conn \<times> wants" where
  "head_received E c msg =
     (let s = state_busy ((c_state c)\<lparr>st_h09_responses := False\<rparr>);
          s = s\<lparr>st_keep_alive := ka_and (st_keep_alive s) (pm_keep_alive msg),
                st_version := version (pm_head msg)\<rparr>;
          wants = (if pm_wants_upgrade msg then WANTS_UPGRADE else WANTS_EMPTY)
      in if pm_decode msg = ZERO then
           (let c = c\<lparr>c_state := s\<lparr>st_reading := RKeepAlive\<rparr>\<rparr>
            in (if \<not> should_read_first (e_tx E) then conn_try_keep_alive E c else c, wants))
         else if pm_expect_continue msg then
           (c\<lparr>c_state := s\<lparr>st_reading := RContinue (decoder_new (pm_decode msg))\<rparr>\<rparr>,
            wants_add wants WANTS_EXPECT)
         else (c\<lparr>c_state := s\<lparr>st_reading := RBody (decoder_new (pm_decode msg))\<rparr>\<rparr>, wants))"

definition conn_poll_read_head ::
    "('io, 'b, 'tk, 'ch, 'inc, 'out, 'hm, 'uri, 'cfg) conn_env
     \<Rightarrow> ('io, 'b, 'tk, 'ch, 'hm, 'cfg, 'up) conn
     \<Rightarrow> (('io, 'b, 'tk, 'ch, 'hm, 'cfg, 'up) conn \<times>
         (error + ('inc, 'hm) message_head \<times> decoded_length \<times> wants) option poll) option" where
  "conn_poll_read_head E c =
     (case buffered_parse (e_io E) (e_spare E) (e_rt E) (parse_headers (e_rt E) (t_parse (e_tx E)))
             (c_io c) (parse_context (c_state c)) of
        None \<Rightarrow> None
      | Some (io, ctx, p) \<Rightarrow>
          let c = c\<lparr>c_io := io, c_state := restore_context (c_state c) ctx\<rparr>
          in case p of
               Pending \<Rightarrow> Some (c, Pending)
             | Ready (Err e) \<Rightarrow> on_read_head_error E c e
             | Ready (Ok msg) \<Rightarrow>
                 (case head_received E c msg of
                    (c, wants) \<Rightarrow> Some (c, Ready (Some (Ok (pm_head msg, pm_decode msg, wants))))))"

text \<open>\<open>poll_read_body\<close> in state \<open>Reading::Body\<close>.\<close>

definition read_body_decoded ::
    "('io, 'b, 'tk, 'ch, 'inc, 'out, 'hm, 'uri, 'cfg) conn_env \<Rightarrow> decoder
     \<Rightarrow> ('io, 'b, 'tk, 'ch, 'hm, 'cfg, 'up) conn
     \<Rightarrow> (('io, 'b, 'tk, 'ch, 'hm, 'cfg, 'up) conn \<times> (io_error + bytes) option poll) option" where
  "read_body_decoded E decoder c =
     (case decode (buffered_read_mem (e_io E) (e_spare E)) decoder (c_io c) of
        None \<Rightarrow> None
      | Some (decoder, io, p) \<Rightarrow>
          let c = on_state (\<lambda>s. s\<lparr>st_reading := RBody decoder\<rparr>) (c\<lparr>c_io := io\<rparr>)
          in case p of
               Pending \<Rightarrow> Some (c, Pending)
             | Ready (Ok chunk) \<Rightarrow>
                 if decoder_is_eof decoder then
                   Some (conn_try_keep_alive E (on_state (\<lambda>s. s\<lparr>st_reading := RKeepAlive\<rparr>) c),
                         Ready (if chunk \<noteq> [] then Some (Ok chunk) else None))
                 else if chunk = [] then
                   Some (conn_try_keep_alive E (on_state (\<lambda>s. s\<lparr>st_reading := RClosed\<rparr>) c), Ready None)
                 else Some (c, Ready (Some (Ok chunk)))
             | Ready (Err e) \<Rightarrow>
                 Some (conn_try_keep_alive E (on_state (\<lambda>s. s\<lparr>st_reading := RClosed\<rparr>) c),
                       Ready (Some (Err e))))"

definition CONTINUE :: bytes where
  "CONTINUE = ascii ''HTTP/1.1 100 Continue'' @ CRLF @ CRLF"

definition poll_read_body ::
    "('io, 'b, 'tk, 'ch, 'inc, 'out, 'hm, 'uri, 'cfg) conn_env
     \<Rightarrow> ('io, 'b, 'tk, 'ch, 'hm, 'cfg, 'up) conn
     \<Rightarrow> (('io, 'b, 'tk, 'ch, 'hm, 'cfg, 'up) conn \<times> (io_error + bytes) option poll) option" where
  "poll_read_body E c =
     (case st_reading (c_state c) of
        RBody decoder \<Rightarrow> read_body_decoded E decoder c
      | RContinue decoder \<Rightarrow>
          (let c = (if st_writing (c_state c) = WInit
                    then c\<lparr>c_io := set_headers_buf (c_io c) (headers_buf (c_io c) @ CONTINUE)\<rparr> else c);
               c = on_state (\<lambda>s. s\<lparr>st_reading := RBody decoder\<rparr>) c
           in read_body_decoded E decoder c)
      | _ \<Rightarrow> None)"

definition force_io_read ::
    "('io, 'b, 'tk, 'ch, 'inc, 'out, 'hm, 'uri, 'cfg) conn_env
     \<Rightarrow> ('io, 'b, 'tk, 'ch, 'hm, 'cfg, 'up) conn
     \<Rightarrow> ('io, 'b, 'tk, 'ch, 'hm, 'cfg, 'up) conn \<times> (io_error + nat) poll" where
  "force_io_read E c =
     (case poll_read_from_io (e_io E) (e_spare E) (c_io c) of
        (io, Ready (Err e)) \<Rightarrow> (on_state state_close (c\<lparr>c_io := io\<rparr>), Ready (Err e))
      | (io, p) \<Rightarrow> (c\<lparr>c_io := io\<rparr>, p))"

definition require_empty_read ::
    "('io, 'b, 'tk, 'ch, 'inc, 'out, 'hm, 'uri, 'cfg) conn_env
     \<Rightarrow> ('io, 'b, 'tk, 'ch, 'hm, 'cfg, 'up) conn
     \<Rightarrow> ('io, 'b, 'tk, 'ch, 'hm, 'cfg, 'up) conn \<times> (error + unit) poll" where
  "require_empty_read E c =
     (if read_buf (c_io c) \<noteq> [] then (c, Ready (Err new_unexpected_message))
      else case force_io_read E c of
             (c, Pending) \<Rightarrow> (c, Pending)
           | (c, Ready (Err e)) \<Rightarrow> (c, Ready (Err (new_io e)))
           | (c, Ready (Ok num_read)) \<Rightarrow>
               if num_read = 0 then
                 (on_state state_close_read c,
                  Ready (if should_error_on_eof E c then Err new_incomplete else Ok ()))
               else (c, Ready (Err new_unexpected_message)))"

definition mid_message_detect_eof ::
    "('io, 'b, 'tk, 'ch, 'inc, 'out, 'hm, 'uri, 'cfg) conn_env
     \<Rightarrow> ('io, 'b, 'tk, 'ch, 'hm, 'cfg, 'up) conn
     \<Rightarrow> ('io, 'b, 'tk, 'ch, 'hm, 'cfg, 'up) conn \<times> (error + unit) poll" where
  "mid_message_detect_eof E c =
     (if st_allow_half_close (c_state c) \<or> read_buf (c_io c) \<noteq> [] then (c, Pending)
      else case force_io_read E c of
             (c, Pending) \<Rightarrow> (c, Pending)
           | (c, Ready (Err e)) \<Rightarrow> (c, Ready (Err (new_io e)))
           | (c, Ready (Ok num_read)) \<Rightarrow>
               if num_read = 0 then (on_state state_close_read c, Ready (Err new_incomplete))
               else (c, Ready (Ok ())))"

definition poll_read_keep_alive ::
    "('io, 'b, 'tk, 'ch, 'inc, 'out, 'hm, 'uri, 'cfg) conn_env
     \<Rightarrow> ('io, 'b, 'tk, 'ch, 'hm, 'cfg, 'up) conn
     \<Rightarrow> ('io, 'b, 'tk, 'ch, 'hm, 'cfg, 'up) conn \<times> (error + unit) poll" where
  "poll_read_keep_alive E c =
     (if is_read_closed c then (c, Pending)
      else if is_mid_message c then mid_message_detect_eof E c
      else require_empty_read E c)"

section \<open>Flushing and closing\<close>

definition conn_poll_flush ::
    "('io, 'b, 'tk, 'ch, 'inc, 'out, 'hm, 'uri, 'cfg) conn_env
     \<Rightarrow> ('io, 'b, 'tk, 'ch, 'hm, 'cfg, 'up) conn
     \<Rightarrow> (('io, 'b, 'tk, 'ch, 'hm, 'cfg, 'up) conn \<times> (io_error + unit) poll) option" where
  "conn_poll_flush E c =
     (case buffered_poll_flush (e_io E) (encoded_buf_ops (e_bytes E)) (e_cvec E)
             (encoded_buf_chunks_vectored (e_bytes E)) (c_io c) of
        None \<Rightarrow> None
      | Some (io, Ready (Ok _)) \<Rightarrow> Some (conn_try_keep_alive E (c\<lparr>c_io := io\<rparr>), Ready (Ok ()))
      | Some (io, p) \<Rightarrow> Some (c\<lparr>c_io := io\<rparr>, p))"

definition conn_poll_shutdown ::
    "('io, 'b, 'tk, 'ch, 'inc, 'out, 'hm, 'uri, 'cfg) conn_env
     \<Rightarrow> ('io, 'b, 'tk, 'ch, 'hm, 'cfg, 'up) conn
     \<Rightarrow> ('io, 'b, 'tk, 'ch, 'hm, 'cfg, 'up) conn \<times> (io_error + unit) poll" where
  "conn_poll_shutdown E c =
     (case io_shutdown (e_io E) (b_io (c_io c)) of
        (io, p) \<Rightarrow> (c\<lparr>c_io := (c_io c)\<lparr>b_io := io\<rparr>\<rparr>, p))"

definition poll_drain_or_close_read ::
    "('io, 'b, 'tk, 'ch, 'inc, 'out, 'hm, 'uri, 'cfg) conn_env
     \<Rightarrow> ('io, 'b, 'tk, 'ch, 'hm, 'cfg, 'up) conn \<Rightarrow> ('io, 'b, 'tk, 'ch, 'hm, 'cfg, 'up) conn option" where
  "poll_drain_or_close_read E c =
     map_option (\<lambda>(c, _). case st_reading (c_state c) of
                            RInit \<Rightarrow> c
                          | RKeepAlive \<Rightarrow> c
                          | _ \<Rightarrow> close_read c)
       (poll_read_body E c)"

end
