(* ===== verification/Conn_Life.thy ===== *)
theory Conn_Life
  imports Conn
begin

text \<open>
  The operations of a connection as a step relation, guarded by the conditions that the dispatcher
  checks before it calls them, and the refinement of the abstract life of a connection: closed
  directions stay closed, disabled keep-alive stays disabled, and a connection is used again only
  after both messages are complete.
\<close>

section \<open>Steps\<close>

text \<open>
  The dispatcher never writes an empty piece of a body (it discards empty chunks, and a \<open>Body\<close> made
  from empty data has no data to take), and a piece has fewer bytes than \<open>usize\<close> can count.
\<close>

definition a_chunk :: "('io, 'b, 'tk, 'ch, 'inc, 'out, 'hm, 'uri, 'cfg) conn_env \<Rightarrow> 'b \<Rightarrow> bool" where
  "a_chunk E b \<longleftrightarrow> 0 < b_remaining (buf_b (e_bytes E)) b \<and> b_remaining (buf_b (e_bytes E)) b < 2 ^ 64"

inductive conn_step ::
    "('io, 'b, 'tk, 'ch, 'inc, 'out, 'hm, 'uri, 'cfg) conn_env
     \<Rightarrow> ('io, 'b, 'tk, 'ch, 'hm, 'cfg, 'up) conn \<Rightarrow> ('io, 'b, 'tk, 'ch, 'hm, 'cfg, 'up) conn \<Rightarrow> bool"
  for E where
  step_read_head: "can_read_head E c \<Longrightarrow> conn_poll_read_head E c = Some (c', p) \<Longrightarrow> conn_step E c c'"
| step_read_body: "can_read_body c \<Longrightarrow> poll_read_body E c = Some (c', q) \<Longrightarrow> conn_step E c c'"
| step_drain: "can_read_body c \<Longrightarrow> poll_drain_or_close_read E c = Some c' \<Longrightarrow> conn_step E c c'"
| step_read_keep_alive: "\<not> can_read_head E c \<Longrightarrow> \<not> can_read_body c \<Longrightarrow>
    poll_read_keep_alive E c = (c', k) \<Longrightarrow> conn_step E c c'"
| step_write_head: "can_write_head E c \<Longrightarrow> write_head E c head body = Some c' \<Longrightarrow> conn_step E c c'"
| step_write_full: "can_write_head E c \<Longrightarrow> a_chunk E b \<Longrightarrow> write_full_msg E c head b = Some c' \<Longrightarrow> conn_step E c c'"
| step_write_body: "can_write_body c \<Longrightarrow> a_chunk E b \<Longrightarrow> write_body E c b = Some c' \<Longrightarrow> conn_step E c c'"
| step_write_body_and_end: "can_write_body c \<Longrightarrow> a_chunk E b \<Longrightarrow> write_body_and_end E c b = Some c' \<Longrightarrow> conn_step E c c'"
| step_end_body: "end_body E c = Some (c', res) \<Longrightarrow> conn_step E c c'"
| step_flush: "conn_poll_flush E c = Some (c', f) \<Longrightarrow> conn_step E c c'"
| step_shutdown: "conn_poll_shutdown E c = (c', f) \<Longrightarrow> conn_step E c c'"
| step_close_read: "conn_step E c (close_read c)"
| step_close_write: "conn_step E c (close_write c)"
| step_disable_keep_alive: "conn_step E c (disable_keep_alive c)"
| step_take_error: "take_error c = (c', r) \<Longrightarrow> conn_step E c c'"
| step_wants_read_again: "wants_read_again c = (c', again) \<Longrightarrow> conn_step E c c'"
| step_on_upgrade: "on_upgrade ch c = (c', rx) \<Longrightarrow> conn_step E c c'"
| step_pending_upgrade: "pending_upgrade c = (c', tx) \<Longrightarrow> conn_step E c c'"

section \<open>Each operation refines the life of a connection\<close>

abbreviation lives :: "('io, 'b, 'tk, 'ch, 'hm, 'cfg, 'up) conn \<Rightarrow> ('io, 'b, 'tk, 'ch, 'hm, 'cfg, 'up) conn \<Rightarrow> bool" where
  "lives c c' \<equiv> life\<^sup>*\<^sup>* (life_of (c_state c)) (life_of (c_state c'))"

lemma life_of_frame [simp]:
  "life_of (s\<lparr>st_error := e\<rparr>) = life_of s"
  "life_of (s\<lparr>st_notify_read := n\<rparr>) = life_of s"
  "life_of (s\<lparr>st_upgrade := u\<rparr>) = life_of s"
  "life_of (s\<lparr>st_cached_headers := h\<rparr>) = life_of s"
  "life_of (restore_context s ctx) = life_of s"
  by (simp_all add: life_of_def restore_context_def)

lemma lives_close: "c_state c' = state_close (c_state c) \<Longrightarrow> lives c c'"
  using life_of_close [of "c_state c"] by simp

lemma lives_close_read: "c_state c' = state_close_read (c_state c) \<Longrightarrow> lives c c'"
  using life_once [OF life_close_read] by (simp add: life_of_def state_close_read_def)

lemma lives_close_write: "c_state c' = state_close_write (c_state c) \<Longrightarrow> lives c c'"
  using life_once [OF life_close_write] by (simp add: life_of_def state_close_write_def)

lemma lives_maybe_notify: "lives c (maybe_notify E c)"
proof -
  obtain io p where p: "poll_read_from_io (e_io E) (e_spare E) (c_io c) = (io, p)" by fastforce
  show ?thesis
    using p life_of_close [of "c_state c"] lives_close_read [of "close_read c" c]
    by (auto simp: maybe_notify_def close_read_def Let_def split: poll.splits sum.splits)
qed

lemma lives_try_keep_alive: "lives c (conn_try_keep_alive E c)"
  using life_trans [OF life_of_try_keep_alive [of "c_state c" "e_tx E"]]
    lives_maybe_notify [of "on_state (state_try_keep_alive (e_tx E)) c" E]
  by (simp add: conn_try_keep_alive_def)

text \<open>Writing a head may refresh or give up keep-alive, and closes the side when it fails.\<close>

lemma encode_head_life:
  assumes "encode_head E c head body = Some (c', r)"
  shows "st_reading (c_state c') = st_reading (c_state c)"
    and "r = None \<Longrightarrow> st_writing (c_state c') = WClosed"
    and "r \<noteq> None \<Longrightarrow> st_writing (c_state c') = st_writing (c_state c)"
    and "st_keep_alive (c_state c') = st_keep_alive (c_state c) \<or> st_keep_alive (c_state c') = Disabled \<or>
      st_keep_alive (c_state c') = Busy \<and> st_keep_alive (c_state c) \<noteq> Disabled"
proof -
  let ?c1 = "if \<not> should_read_first (e_tx E) then on_state state_busy c else c"
  obtain c2 head2 where v: "enforce_version E ?c1 head = (c2, head2)" by fastforce
  have 1: "st_reading (c_state ?c1) = st_reading (c_state c)" "st_writing (c_state ?c1) = st_writing (c_state c)"
    "st_keep_alive (c_state ?c1) = st_keep_alive (c_state c) \<or>
     st_keep_alive (c_state ?c1) = Busy \<and> st_keep_alive (c_state c) \<noteq> Disabled"
    by (auto simp: state_busy_def split: ka.split)
  have 2: "st_reading (c_state c2) = st_reading (c_state ?c1)" "st_writing (c_state c2) = st_writing (c_state ?c1)"
    "st_keep_alive (c_state c2) = st_keep_alive (c_state ?c1) \<or> st_keep_alive (c_state c2) = Disabled"
    using v by (auto simp: enforce_version_def fix_keep_alive_def Let_def state_disable_keep_alive_def
        split: if_splits version.splits prod.splits)
  have 3: "st_reading (c_state c') = st_reading (c_state c2) \<and> st_keep_alive (c_state c') = st_keep_alive (c_state c2) \<and>
      (r = None \<longrightarrow> st_writing (c_state c') = WClosed) \<and>
      (r \<noteq> None \<longrightarrow> st_writing (c_state c') = st_writing (c_state c2))"
    using assms v by (auto simp: encode_head_def Let_def split: option.split_asm sum.split_asm prod.split_asm)
  from 1 2 3 show "st_reading (c_state c') = st_reading (c_state c)"
    "r = None \<Longrightarrow> st_writing (c_state c') = WClosed"
    "r \<noteq> None \<Longrightarrow> st_writing (c_state c') = st_writing (c_state c)" by metis+
  from 1(3) 2(3) 3 show "st_keep_alive (c_state c') = st_keep_alive (c_state c) \<or>
      st_keep_alive (c_state c') = Disabled \<or>
      st_keep_alive (c_state c') = Busy \<and> st_keep_alive (c_state c) \<noteq> Disabled" by metis
qed

lemma write_side_head:
  assumes "st_writing (c_state c) = WInit" "st_reading (c_state c') = st_reading (c_state c)"
    and "write_side (st_writing (c_state c')) \<noteq> SInit"
    and "st_keep_alive (c_state c') = st_keep_alive (c_state c) \<or> st_keep_alive (c_state c') = Disabled \<or>
      st_keep_alive (c_state c') = Busy \<and> st_keep_alive (c_state c) \<noteq> Disabled"
  shows "lives c c'"
  using assms life_once [OF life_write_head] by (simp add: life_of_def)

lemma lives_write_head:
  assumes "st_writing (c_state c) = WInit" "write_head E c head body = Some c'"
  shows "lives c c'"
proof -
  from assms(2) obtain c1 r where e: "encode_head E c head body = Some (c1, r)"
    by (auto simp: write_head_def split: option.split_asm)
  show ?thesis
    using e assms(2) encode_head_life [OF e]
    by (intro write_side_head [OF assms(1)])
      (auto simp: write_head_def split: option.split_asm if_splits)
qed

lemma lives_write_full_msg:
  assumes "st_writing (c_state c) = WInit" "write_full_msg E c head b = Some c'"
  shows "lives c c'"
proof -
  let ?body = "Some (Known (as_u64 (b_remaining (buf_b (e_bytes E)) b)))"
  from assms(2) obtain c1 r where e: "encode_head E c head ?body = Some (c1, r)"
    by (auto simp: write_full_msg_def split: option.split_asm)
  show ?thesis
    using e assms(2) encode_head_life [OF e]
    by (intro write_side_head [OF assms(1)])
      (auto simp: write_full_msg_def split: option.split_asm if_splits)
qed

lemma conn_buffer_state: "conn_buffer E c buf = Some c' \<Longrightarrow> c_state c' = c_state c"
  by (auto simp: conn_buffer_def)

lemma write_side_body:
  assumes "st_writing (c_state c) = WBody e" "st_reading (c_state c') = st_reading (c_state c)"
    and "st_keep_alive (c_state c') = st_keep_alive (c_state c)" "st_writing (c_state c') \<noteq> WInit"
  shows "lives c c'"
  using assms life_once [OF life_write_body [of SDone]] life_once [OF life_write_body [of SClosed]]
  by (cases "st_writing (c_state c')") (simp_all add: life_of_def)

lemma lives_write_body: "write_body E c b = Some c' \<Longrightarrow> lives c c'"
proof (cases "st_writing (c_state c)")
  case (WBody e)
  assume "write_body E c b = Some c'"
  with WBody show ?thesis
    by (intro write_side_body [OF WBody])
      (auto simp: write_body_def conn_buffer_state split: Option.bind_split_asm if_splits)
qed (simp_all add: write_body_def)

lemma lives_write_body_and_end: "write_body_and_end E c b = Some c' \<Longrightarrow> lives c c'"
proof (cases "st_writing (c_state c)")
  case (WBody e)
  assume "write_body_and_end E c b = Some c'"
  with WBody show ?thesis
    by (intro write_side_body [OF WBody])
      (auto simp: write_body_and_end_def split: Option.bind_split_asm if_splits)
qed (simp_all add: write_body_and_end_def)

lemma lives_end_body: "end_body E c = Some (c', res) \<Longrightarrow> lives c c'"
proof (cases "st_writing (c_state c)")
  case (WBody e)
  assume "end_body E c = Some (c', res)"
  with WBody show ?thesis
    by (intro write_side_body [OF WBody])
      (auto simp: end_body_def conn_buffer_state
        split: Option.bind_split_asm sum.split_asm option.split_asm if_splits)
qed (simp_all add: end_body_def)

lemma lives_on_parse_error:
  assumes "on_parse_error E c err = Some (c', res)"
  shows "lives c c'"
proof -
  let ?c = "on_state (\<lambda>s. s\<lparr>st_cached_headers := None\<rparr>) c"
  have eq: "life_of (c_state ?c) = life_of (c_state c)" by simp
  from assms consider "c' = c"
    | msg c1 where "st_writing (c_state c) = WInit" "write_head E ?c msg None = Some c1"
        "c' = on_state (\<lambda>s. s\<lparr>st_error := Some err\<rparr>) c1"
    by (auto simp: on_parse_error_def split: if_split_asm option.split_asm Option.bind_split_asm)
  then show ?thesis
  proof cases
    case 2
    with lives_write_head [of ?c E msg None c1] eq show ?thesis by simp
  qed simp
qed

lemma lives_on_read_head_error:
  assumes "on_read_head_error E c e = Some (c', p)"
  shows "lives c c'"
proof -
  let ?c = "(close_read c)\<lparr>c_io := consume_leading_lines (c_io (close_read c))\<rparr>"
  have "lives c ?c" by (rule lives_close_read) (simp add: close_read_def)
  moreover have "lives ?c c'"
    using assms lives_close_write [of "close_write ?c" ?c]
    by (auto simp: on_read_head_error_def Let_def close_write_def split: if_split_asm
        dest: lives_on_parse_error)
  ultimately show ?thesis by (rule life_trans)
qed

lemma read_side_head:
  assumes "st_reading (c_state c) = RInit" "st_writing (c_state c') = st_writing (c_state c)"
    and "read_side (st_reading (c_state c')) \<noteq> SInit"
    and "st_keep_alive (c_state c') = Disabled \<or>
      st_keep_alive (c_state c') = Busy \<and> st_keep_alive (c_state c) \<noteq> Disabled"
  shows "lives c c'"
  using assms life_once [OF life_read_head] by (simp add: life_of_def)

lemma lives_head_received:
  assumes "st_reading (c_state c) = RInit" "head_received E c msg = (c', w)"
  shows "lives c c'"
proof -
  define s where "s = (let s = state_busy ((c_state c)\<lparr>st_h09_responses := False\<rparr>)
    in s\<lparr>st_keep_alive := ka_and (st_keep_alive s) (pm_keep_alive msg), st_version := version (pm_head msg)\<rparr>)"
  have s: "lives c (c\<lparr>c_state := s\<lparr>st_reading := r\<rparr>\<rparr>)" if "read_side r \<noteq> SInit" for r
    by (rule read_side_head [OF assms(1)])
      (use that in \<open>auto simp: s_def Let_def state_busy_def ka_and_def split: ka.split\<close>)
  consider "c' = c\<lparr>c_state := s\<lparr>st_reading := RKeepAlive\<rparr>\<rparr>"
    | "c' = conn_try_keep_alive E (c\<lparr>c_state := s\<lparr>st_reading := RKeepAlive\<rparr>\<rparr>)"
    | d where "c' = c\<lparr>c_state := s\<lparr>st_reading := RContinue d\<rparr>\<rparr>"
    | d where "c' = c\<lparr>c_state := s\<lparr>st_reading := RBody d\<rparr>\<rparr>"
    using assms(2) unfolding head_received_def Let_def s_def by (auto split: if_split_asm)
  then show ?thesis
  proof cases
    case 1
    show ?thesis unfolding 1 by (rule s) simp
  next
    case 2
    show ?thesis unfolding 2 by (rule life_trans [OF s lives_try_keep_alive]) simp
  next
    case 3
    show ?thesis unfolding 3 by (rule s) simp
  next
    case 4
    show ?thesis unfolding 4 by (rule s) simp
  qed
qed

lemma lives_poll_read_head:
  assumes "can_read_head E c" "conn_poll_read_head E c = Some (c', p)"
  shows "lives c c'"
proof -
  from assms(2) obtain io ctx q where
    q: "buffered_parse (e_io E) (e_spare E) (e_rt E) (parse_headers (e_rt E) (t_parse (e_tx E)))
      (c_io c) (parse_context (c_state c)) = Some (io, ctx, q)"
    by (auto simp: conn_poll_read_head_def split: option.split_asm)
  let ?c = "c\<lparr>c_io := io, c_state := restore_context (c_state c) ctx\<rparr>"
  have eq: "life_of (c_state ?c) = life_of (c_state c)" by simp
  have init: "st_reading (c_state ?c) = RInit"
    using assms(1) by (auto simp: can_read_head_def restore_context_def split: reading.split_asm)
  from q assms(2) have "c' = ?c \<or> (\<exists>e. on_read_head_error E ?c e = Some (c', p)) \<or>
      (\<exists>msg w. head_received E ?c msg = (c', w))"
    by (auto simp: conn_poll_read_head_def Let_def split: poll.split_asm sum.split_asm prod.split_asm)
  with eq lives_on_read_head_error [of E ?c _ c' p] lives_head_received [OF init, of E _ c'] show ?thesis
    by auto
qed

lemma lives_read_body_decoded:
  assumes "read_side (st_reading (c_state c)) = SOpen" "read_body_decoded E d c = Some (c', p)"
  shows "lives c c'"
proof -
  from assms(2) obtain d1 io q where
    q: "decode (buffered_read_mem (e_io E) (e_spare E)) d (c_io c) = Some (d1, io, q)"
    by (auto simp: read_body_decoded_def split: option.split_asm)
  let ?c = "on_state (\<lambda>s. s\<lparr>st_reading := RBody d1\<rparr>) (c\<lparr>c_io := io\<rparr>)"
  have go: "lives c (conn_try_keep_alive E (on_state (\<lambda>s. s\<lparr>st_reading := r\<rparr>) ?c))"
    if "r = RKeepAlive \<or> r = RClosed" for r
    using that assms(1) life_once [OF life_read_body [of SDone]] life_once [OF life_read_body [of SClosed]]
    by (intro life_trans [OF _ lives_try_keep_alive]) (auto simp: life_of_def)
  have "life_of (c_state ?c) = life_of (c_state c)" using assms(1) by (simp add: life_of_def)
  with q assms(2) go [of RKeepAlive] go [of RClosed] show ?thesis
    by (auto simp: read_body_decoded_def Let_def split: poll.split_asm sum.split_asm if_split_asm)
qed

lemma lives_poll_read_body:
  assumes "poll_read_body E c = Some (c', p)"
  shows "lives c c'"
proof (cases "st_reading (c_state c)")
  case (RBody d)
  with assms lives_read_body_decoded [of c E d c' p] show ?thesis by (simp add: poll_read_body_def)
next
  case (RContinue d)
  let ?c = "if st_writing (c_state c) = WInit
    then c\<lparr>c_io := set_headers_buf (c_io c) (headers_buf (c_io c) @ CONTINUE)\<rparr> else c"
  let ?c = "on_state (\<lambda>s. s\<lparr>st_reading := RBody d\<rparr>) ?c"
  have "life_of (c_state ?c) = life_of (c_state c)" using RContinue by (simp add: life_of_def)
  moreover have "lives ?c c'"
    using RContinue assms by (intro lives_read_body_decoded [of ?c E d]) (simp_all add: poll_read_body_def Let_def)
  ultimately show ?thesis by simp
qed (use assms in \<open>simp_all add: poll_read_body_def\<close>)

lemma lives_force_io_read:
  assumes "force_io_read E c = (c', p)"
  shows "lives c c'"
  using assms life_of_close [of "c_state c"]
  by (auto simp: force_io_read_def split: prod.split_asm poll.split_asm sum.split_asm)

lemma lives_poll_read_keep_alive:
  assumes "poll_read_keep_alive E c = (c', p)"
  shows "lives c c'"
proof -
  obtain c1 q where f: "force_io_read E c = (c1, q)" by fastforce
  note f' = lives_force_io_read [OF f] life_trans [OF lives_force_io_read [OF f] lives_close_read [of "on_state state_close_read c1"]]
  from assms consider "c' = c" | "mid_message_detect_eof E c = (c', p)" | "require_empty_read E c = (c', p)"
    by (auto simp: poll_read_keep_alive_def split: if_split_asm)
  then show ?thesis
  proof cases
    case 2
    with f f' show ?thesis
      by (auto simp: mid_message_detect_eof_def split: poll.split_asm sum.split_asm if_split_asm)
  next
    case 3
    with f f' show ?thesis
      by (auto simp: require_empty_read_def split: poll.split_asm sum.split_asm if_split_asm)
  qed simp
qed

lemma lives_poll_flush:
  assumes "conn_poll_flush E c = Some (c', p)"
  shows "lives c c'"
proof -
  from assms obtain io q where
    "buffered_poll_flush (e_io E) (encoded_buf_ops (e_bytes E)) (e_cvec E)
      (encoded_buf_chunks_vectored (e_bytes E)) (c_io c) = Some (io, q)"
    by (auto simp: conn_poll_flush_def split: option.split_asm)
  with assms lives_try_keep_alive [of "c\<lparr>c_io := io\<rparr>" E] show ?thesis
    by (auto simp: conn_poll_flush_def split: poll.split_asm sum.split_asm)
qed

lemma lives_drain:
  assumes "poll_drain_or_close_read E c = Some c'"
  shows "lives c c'"
proof -
  from assms obtain c1 p where b: "poll_read_body E c = Some (c1, p)"
    by (auto simp: poll_drain_or_close_read_def)
  with assms have "c' = c1 \<or> c' = close_read c1"
    by (cases "st_reading (c_state c1)") (simp_all add: poll_drain_or_close_read_def)
  with lives_poll_read_body [OF b] life_trans [OF lives_poll_read_body [OF b] lives_close_read [of "close_read c1"]] show ?thesis
    by (auto simp: close_read_def)
qed

lemma can_write_head_init: "can_write_head E c \<Longrightarrow> st_writing (c_state c) = WInit"
  by (auto simp: can_write_head_def split: writing.split_asm if_split_asm)

text \<open>Every operation refines the abstract life.\<close>

lemma conn_step_lives:
  assumes "conn_step E c c'"
  shows "lives c c'"
  using assms
proof cases
  case step_disable_keep_alive
  then show ?thesis
    using life_of_close [of "c_state c"] life_once [OF life_disable]
    by (auto simp: disable_keep_alive_def state_disable_keep_alive_def life_of_def)
next
  case step_close_read
  then show ?thesis by (intro lives_close_read) (simp add: close_read_def)
next
  case step_close_write
  then show ?thesis by (intro lives_close_write) (simp add: close_write_def)
qed (auto intro: lives_poll_read_head lives_poll_read_body lives_drain lives_poll_read_keep_alive
    lives_write_head lives_write_full_msg lives_write_body lives_write_body_and_end lives_end_body
    lives_poll_flush can_write_head_init
    simp: conn_poll_shutdown_def take_error_def wants_read_again_def on_upgrade_def prepare_upgrade_def
      pending_upgrade_def split: prod.split_asm)

lemma conn_steps_live: "(conn_step E)\<^sup>*\<^sup>* c c' \<Longrightarrow> lives c c'"
  by (induction rule: rtranclp_induct) (auto intro: life_trans dest: conn_step_lives)

text \<open>The queries of a connection, read off its life.\<close>

lemma life_of_queries:
  "is_read_closed c \<longleftrightarrow> fst (life_of (c_state c)) = SClosed"
  "is_write_closed c \<longleftrightarrow> fst (snd (life_of (c_state c))) = SClosed"
  "wants_keep_alive (c_state c) \<longleftrightarrow> snd (snd (life_of (c_state c))) \<noteq> Disabled"
  by (auto simp: is_read_closed_def is_write_closed_def state_defs life_of_def
      split: reading.split writing.split ka.split)

end
