(* ===== verification/Role_Laws.thy ===== *)
theory Role_Laws
  imports Client_Role
begin

text \<open>
  What a connection relies on from its role, as the locale \<open>role_laws\<close>: parsing takes a prefix from
  the buffer and leaves the header-read timer alone, encoding only appends to the destination, and
  what it refuses is the caller's fault. Both roles satisfy it.
\<close>

locale role_laws =
  fixes T :: "('inc, 'out, 'hm, 'cfg) transaction"
  assumes parse_prefix: "t_parse T ctx bs = Some (ctx', bs', res) \<Longrightarrow> \<exists>pre. bs = pre @ bs'"
    and parse_timer: "t_parse T ctx bs = Some (ctx', bs', res) \<Longrightarrow>
      h1_header_read_timeout_running ctx' = h1_header_read_timeout_running ctx"
    and encode_appends: "t_encode T msg dst = Some (head', m, dst', r) \<Longrightarrow> \<exists>x. dst' = dst @ x"
    and encode_error: "t_encode T msg dst = Some (head', m, dst', Err e) \<Longrightarrow> is_user e"

section \<open>The server\<close>

context header_name_writer
begin

lemma encode_header_loop_grows:
  "encode_header_loop H W env drained a = Some (Ok a') \<Longrightarrow> good (ea_writer a) \<Longrightarrow> grows a a'"
proof (induction drained arbitrary: a)
  case Nil
  then show ?case by (simp add: grows_def)
next
  case (Cons d drained)
  obtain opt v where d: "d = (opt, v)" by fastforce
  define a1 where "a1 = (case opt of
      Some n \<Rightarrow> (handle_is_name_written (a\<lparr>ea_cur_name := Some n\<rparr>))\<lparr>ea_is_name_written := False\<rparr>
    | None \<Rightarrow> a)"
  have a1: "good (ea_writer a1)" "\<exists>x. ea_dst a1 = ea_dst a @ x"
    using Cons.prems(2) by (auto simp: a1_def handle_is_name_written_def split: option.split)
  from Cons.prems(1) obtain n a2 where "ea_cur_name a1 = Some n"
    and e: "encode_header H W env n v a1 = Ok a2" "encode_header_loop H W env drained a2 = Some (Ok a')"
    by (auto simp: d a1_def [symmetric] Let_def split: option.split_asm sum.split_asm)
  from encode_header_grows [OF a1(1) e(1)] have "grows a1 a2" .
  with Cons.IH [OF e(2)] a1(2) show ?case by (auto simp: grows_def)
qed

lemma encode_default_length_grows:
  assumes "good (ea_writer a)"
  shows "grows a (encode_default_length H W env a)"
proof -
  from encode_default_length_ok [OF assms, of H env] obtain ls w' e where
    "encode_default_length H W env a =
      a\<lparr>ea_writer := w', ea_dst := ea_dst a @ concat (map render ls), ea_encoder := e\<rparr>" "good w'"
    by blast
  then show ?thesis by (simp add: grows_def)
qed

lemma encode_headers_grows:
  assumes "good w" "encode_headers H W date env drained base is_last wrote_len w = Some (dst', Ok e)"
  shows "\<exists>x. dst' = base @ x"
proof -
  let ?a0 = "\<lparr>ea_dst = base, ea_encoder = encoder_length 0, ea_wrote_date = False,
      ea_wrote_len = wrote_len, ea_cur_name = None, ea_is_name_written = False,
      ea_must_write_chunked = False, ea_prev_con_len = None, ea_is_last = is_last, ea_writer = w\<rparr>"
  from assms(2) obtain a1 where l: "encode_header_loop H W env drained ?a0 = Some (Ok a1)"
    by (auto simp: encode_headers_def Let_def split: option.splits sum.splits)
  from encode_header_loop_grows [OF l] assms(1) have 1: "good (ea_writer a1)" "\<exists>x. ea_dst a1 = base @ x"
    by (auto simp: grows_def)
  define a2 where "a2 = handle_is_name_written a1"
  have 2: "good (ea_writer a2)" "\<exists>x. ea_dst a2 = base @ x"
    using 1 by (auto simp: a2_def handle_is_name_written_def)
  define a3 where "a3 = (if \<not> ea_wrote_len a2 then encode_default_length H W env a2 else a2)"
  have 3: "good (ea_writer a3)" "\<exists>x. ea_dst a3 = base @ x"
    using 2 encode_default_length_grows [OF 2(1), of H env] by (auto simp: a3_def grows_def)
  define a4 where "a4 = (if \<not> can_have_body H (ee_method env) (ee_status env)
    then a3\<lparr>ea_encoder := encoder_length 0\<rparr> else a3)"
  have "good (ea_writer a4)" "\<exists>x. ea_dst a4 = base @ x" using 3 by (auto simp: a4_def)
  moreover then have "\<exists>x. ea_dst (encode_date W date a4) = ea_dst a4 @ x"
    using write_colon [of "ea_writer a4" "ea_dst a4" DATE]
    by (auto simp: encode_date_def split: prod.split)
  moreover have "dst' = ea_dst (encode_date W date a4)"
    using assms(2) l unfolding a4_def a3_def a2_def encode_headers_def Let_def
    by (simp split del: if_split)
  ultimately show ?thesis by auto
qed

end

lemma server_encode_block_grows:
  assumes "server_encode_block H date t head env base is_last wrote_len = Some (dst', Ok e)"
  shows "\<exists>x. dst' = base @ x"
proof -
  let ?d = "hm_drain H (headers head)"
  from assms consider m where "encode_headers H (orig_case_writer H) date env ?d base is_last wrote_len
        \<lparr>oc_map = m, oc_current = None, oc_title_case_headers = t\<rparr> = Some (dst', Ok e)"
    | "encode_headers H lowercase_writer date env ?d base is_last wrote_len () = Some (dst', Ok e)"
    by (auto simp: server_encode_block_def Let_def split: option.splits if_splits)
  then show ?thesis
  proof cases
    case 1
    from original.encode_headers_grows [OF orig_case_init 1] show ?thesis .
  next
    case 2
    from lowercase.encode_headers_grows [OF TrueI 2] show ?thesis .
  qed
qed

lemma server_encode_appends:
  assumes "server_encode H date msg dst = Some (head', dst', res)"
  shows "\<exists>x. dst' = dst @ x"
proof -
  obtain head body ret is_last wrote_len where p: "server_prepare H msg = (head, body, ret, is_last, wrote_len)"
    by (metis surj_pair)
  let ?env = "\<lparr>ee_version = version head, ee_status = subject head, ee_method = enc_req_method msg,
      ee_body = body, ee_orig_len = length dst\<rparr>"
  from assms p obtain line r where
    b: "server_encode_block H date (enc_title_case_headers msg) head ?env (dst @ line) is_last wrote_len =
      Some (dst', r)"
    by (auto simp: server_encode_def Let_def split: option.splits)
  show ?thesis
  proof (cases r)
    case (Inl e)
    from server_encode_block_Err [OF _ b [unfolded Inl]] show ?thesis by simp
  next
    case (Inr e)
    from server_encode_block_grows [OF b [unfolded Inr]] show ?thesis by auto
  qed
qed

lemma server_parse_head_timer:
  assumes "server_parse_head H ctx s m u v is = Some (ctx', r)"
  shows "h1_header_read_timeout_running ctx' = h1_header_read_timeout_running ctx"
proof -
  have *: "map_option f z = Some (ctx', r) \<Longrightarrow> (\<And>x. z = Some x \<Longrightarrow> f x = (ctx', r) \<Longrightarrow> thesis) \<Longrightarrow> thesis"
    for f :: "'x \<Rightarrow> _" and z thesis by (cases z) auto
  from assms show ?thesis
    unfolding server_parse_head_def Let_def
    by (elim *) (auto split: sum.split_asm if_split_asm)
qed

interpretation server_role: role_laws "server_transaction H P date" for H P date
proof
  fix ctx :: "('a, 'd) parse_ctx" and bs ctx' bs' res
  assume "t_parse (server_transaction H P date) ctx bs = Some (ctx', bs', res)"
  then have p: "server_parse H P ctx bs = Some (ctx', bs', res)" by (simp add: server_transaction_def)
  from p have "bs' = bs \<and> ctx' = ctx \<or> (\<exists>len s m u v is r. bs' = drop len bs \<and>
      server_parse_head H ctx s m u v is = Some (ctx', r))"
    unfolding server_parse_def
    by (auto simp: Let_def split: prod.split_asm sum.split_asm hp_status.split_asm Option.bind_split_asm
        if_split_asm option.split_asm)
  then show "\<exists>pre. bs = pre @ bs'"
    and "h1_header_read_timeout_running ctx' = h1_header_read_timeout_running ctx"
    by (metis append_take_drop_id self_append_conv2, metis server_parse_head_timer)
next
  fix msg :: "(nat, 'a) encode_msg" and dst head' m dst' res
  assume "t_encode (server_transaction H P date) msg dst = Some (head', m, dst', res)"
  then have "server_encode H date msg dst = Some (head', dst', res)" by (auto simp: server_transaction_def)
  then show "\<exists>x. dst' = dst @ x" by (rule server_encode_appends)
next
  fix msg :: "(nat, 'a) encode_msg" and dst head' m dst' e
  assume "t_encode (server_transaction H P date) msg dst = Some (head', m, dst', Err e)"
  then have "server_encode H date msg dst = Some (head', dst', Err e)" by (auto simp: server_transaction_def)
  from server_encode_err [OF this] show "is_user e"
    by (auto simp: is_user_def error_new_defs)
qed

section \<open>The client\<close>

lemma write_headers_appends:
  "\<exists>x. write_headers H hs dst = dst @ x"
  "\<exists>x. write_headers_title_case H hs dst = dst @ x"
  "\<exists>x. write_headers_original_case H hs orig dst t = dst @ x"
proof -
  have "\<exists>x. write_headers_loop fs dst = dst @ x" for fs dst
    by (induction fs dst rule: write_headers_loop.induct) auto
  then show "\<exists>x. write_headers H hs dst = dst @ x" by (simp add: write_headers_def)
  have "\<exists>x. write_headers_title_case_loop fs dst = dst @ x" for fs dst
  proof (induction fs dst rule: write_headers_title_case_loop.induct)
    case (2 name val fs dst)
    then show ?case by (auto simp: title_case_append [of dst])
  qed simp
  then show "\<exists>x. write_headers_title_case H hs dst = dst @ x" by (simp add: write_headers_title_case_def)
  have v: "\<exists>x. original_case_values n ti ns vs dst = dst @ x" for n ti ns vs dst
  proof (induction vs arbitrary: ns dst)
    case (Cons val vs)
    let ?d = "case ns of orig_name # _ \<Rightarrow> dst @ orig_name | [] \<Rightarrow> if ti then title_case dst n else dst @ n"
    let ?e = "if val = [] then ?d @ ascii '':'' @ CRLF else ?d @ header_sep @ val @ CRLF"
    have "\<exists>y. ?d = dst @ y" using title_case_append [of dst n] by (auto split: list.split)
    then obtain z where d: "?d = dst @ z" by blast
    have "\<exists>y. ?e = dst @ y" unfolding d by (cases "val = []") auto
    then obtain y where "?e = dst @ y" by blast
    moreover obtain x where "original_case_values n ti (tl ns) vs (dst @ y) = (dst @ y) @ x"
      using Cons.IH by blast
    ultimately show ?case by (simp only: original_case_values.simps Let_def) simp
  qed simp
  have "\<exists>x. foldl (\<lambda>dst name. original_case_values (ascii name) t (case_map_get_all H orig name)
      (hm_get_all H hs name) dst) dst ks = dst @ x" for ks
  proof (induction ks arbitrary: dst)
    case (Cons k ks)
    obtain y where "original_case_values (ascii k) t (case_map_get_all H orig k) (hm_get_all H hs k) dst = dst @ y"
      using v by blast
    with Cons.IH [of "dst @ y"] show ?case by auto
  qed simp
  then show "\<exists>x. write_headers_original_case H hs orig dst t = dst @ x"
    by (simp add: write_headers_original_case_def)
qed

lemma client_encode_appends:
  fixes H :: "('hm, 'uri, 'z) http_scheme"
  assumes "client_encode H msg dst = Some (head', m, dst', r)"
  shows "\<exists>x. dst' = dst @ x"
proof -
  let ?w = "\<lambda>(head :: ('hm, 'uri) request_head) d. case ext_case_map (extensions head) of
      Some orig_headers \<Rightarrow> write_headers_original_case H (headers head) orig_headers d (enc_title_case_headers msg)
    | None \<Rightarrow> if enc_title_case_headers msg then write_headers_title_case H (headers head) d
      else write_headers H (headers head) d"
  have w: "\<exists>x. ?w head d = d @ x" for head :: "('hm, 'uri) request_head" and d
    using write_headers_appends [where H = H and hs = "headers head" and dst = d] by (auto split: option.split)
  obtain meth u where u: "subject (enc_head msg) = RequestLine meth u" by (cases "subject (enc_head msg)")
  from assms obtain head line where "dst' = ?w head (dst @ line) @ CRLF"
    by (auto simp: client_encode_def u Let_def split: Option.bind_split_asm)
  moreover obtain x where "?w head (dst @ line) = (dst @ line) @ x" using w [of head "dst @ line"] by blast
  ultimately have "dst' = ((dst @ line) @ x) @ CRLF" by (simp only:)
  then show ?thesis by simp
qed

text \<open>Skipping informational heads takes several prefixes.\<close>

lemma client_parse_frame:
  assumes "client_parse H P ctx bs = Some (ctx', bs', res)"
  shows "(\<exists>pre. bs = pre @ bs') \<and>
    h1_header_read_timeout_running ctx' = h1_header_read_timeout_running ctx"
proof -
  have drop: "\<exists>pre. bs = pre @ bs'" if "\<exists>pre. drop n bs = pre @ bs'" for n and bs bs' :: bytes
    using that by (metis append.assoc append_take_drop_id)
  have "(\<lambda>(((H, P), ctx), bs) (ctx', bs', res). (\<exists>pre. bs = pre @ bs') \<and>
      h1_header_read_timeout_running ctx' = h1_header_read_timeout_running ctx)
    (((H, P), ctx), bs) (ctx', bs', res)"
  proof (rule client_parse.raw_induct [OF _ assms], goal_cases)
    case (1 self H P ctx bs r)
    let ?ctx = "ctx\<lparr>cached_headers := None\<rparr>"
    consider "fst r = ctx" "fst (snd r) = bs"
      | len where "fst r = ?ctx" "fst (snd r) = drop len bs"
      | len where "self H P ?ctx (drop len bs) = Some r"
    proof (cases "client_status_line H P ctx bs")
      case (Some l)
      show ?thesis
      proof (cases "\<exists>len status v indices. l = Ok (Some (len, status, v, indices))")
        case False
        then have "(\<exists>e. l = Err e) \<or> l = Ok None" by (cases l; cases "projr l") auto
        with 1(2) Some that(1) show ?thesis by auto
      next
        case True
        then obtain len status v indices where l: "l = Ok (Some (len, status, v, indices))" by blast
        define acc0 where "acc0 = \<lparr>rs_keep_alive = (v = HTTP_11),
          rs_case_map = (if preserve_header_case ctx then Some (case_map_default H) else None),
          rs_headers = (case cached_headers ctx of Some hs \<Rightarrow> hs | None \<Rightarrow> hm_new H)\<rparr>"
        note step = 1(2) [unfolded Some l option.case sum.case prod.case Let_def, folded acc0_def]
        from step obtain res where res: "client_headers H (take len bs) indices acc0 = Some res"
          by (auto split: if_split_asm option.split_asm)
        show ?thesis
        proof (cases res)
          case (Inl e)
          with step res that(2) [of len] show ?thesis by (auto split: if_split_asm)
        next
          case (Inr acc)
          let ?d = "client_decoder H \<lparr>version = v, subject = status, headers = rs_headers acc,
            extensions = extensions_default\<lparr>ext_case_map := rs_case_map acc\<rparr>\<rparr> (req_method ?ctx)"
          consider e where "?d = Err e" | "?d = Ok None" | x y where "?d = Ok (Some (x, y))"
            by (metis not_None_eq sum.exhaust surj_pair)
          then show ?thesis
            using step res Inr that(2) [of len] that(3) [of len] by cases (auto split: if_split_asm)
        qed
      qed
    qed (use 1(2) in simp)
    then show ?case
    proof cases
      case 1
      then show ?thesis by (cases r) simp
    next
      case 2
      then show ?thesis by (cases r) (simp add: exI [of _ "take len bs"])
    next
      case 3
      from 1(1) [OF this] drop [of len bs "fst (snd r)"] show ?thesis by (cases r) auto
    qed
  qed
  then show ?thesis by simp
qed

interpretation client_role: role_laws "client_transaction H P" for H P
proof
  fix ctx :: "('a, 'd) parse_ctx" and bs ctx' bs' res
  assume "t_parse (client_transaction H P) ctx bs = Some (ctx', bs', res)"
  then have "client_parse H P ctx bs = Some (ctx', bs', res)" by (simp add: client_transaction_def)
  from client_parse_frame [OF this] show "\<exists>pre. bs = pre @ bs'"
    and "h1_header_read_timeout_running ctx' = h1_header_read_timeout_running ctx" by auto
next
  fix msg :: "('b request_line, 'a) encode_msg" and dst head' m dst' r
  assume "t_encode (client_transaction H P) msg dst = Some (head', m, dst', r)"
  then show "\<exists>x. dst' = dst @ x" by (simp add: client_transaction_def client_encode_appends)
next
  fix msg :: "('b request_line, 'a) encode_msg" and dst head' m dst' e
  assume "t_encode (client_transaction H P) msg dst = Some (head', m, dst', Err e)"
  then show "is_user e"
    by (auto simp: client_transaction_def client_encode_def Let_def split: request_line.split_asm Option.bind_split_asm)
qed

end
