(* ===== verification/Conn_Wire.thy ===== *)
theory Conn_Wire
  imports Conn_Life Role_Laws
begin

text \<open>
  What a connection sends. The bytes that the transport has accepted, followed by those that are
  still buffered, are the outgoing stream of a connection. No operation removes or reorders any of
  it, and each write appends exactly the encoding of its argument.
\<close>

definition outgoing ::
    "('io \<Rightarrow> bytes) \<Rightarrow> ('b \<Rightarrow> bytes) \<Rightarrow> ('tk \<Rightarrow> bytes) \<Rightarrow> ('ch \<Rightarrow> bytes)
     \<Rightarrow> ('io, 'b, 'tk, 'ch, 'hm, 'cfg, 'up) conn \<Rightarrow> bytes" where
  "outgoing sent cb ct cc c = pipe sent (encoded_content cb ct cc) (c_io c)"

text \<open>The write buffer is well formed, and a body that is being written is not complete yet.\<close>

definition conn_ok ::
    "('b \<Rightarrow> bytes) \<Rightarrow> ('tk \<Rightarrow> bytes) \<Rightarrow> ('ch \<Rightarrow> bytes) \<Rightarrow> ('io, 'b, 'tk, 'ch, 'hm, 'cfg, 'up) conn \<Rightarrow> bool" where
  "conn_ok cb ct cc c \<longleftrightarrow>
     wb_ok (encoded_content cb ct cc) (\<lambda>_. True) (write_buf (c_io c)) \<and> buffered_ok (c_io c) \<and>
     (\<forall>e. st_writing (c_state c) = WBody e \<longrightarrow> \<not> encoder_is_eof e)"

text \<open>Nothing of an earlier message is waiting in the queue.\<close>

definition queue_empty ::
    "('b \<Rightarrow> bytes) \<Rightarrow> ('tk \<Rightarrow> bytes) \<Rightarrow> ('ch \<Rightarrow> bytes) \<Rightarrow> ('io, 'b, 'tk, 'ch, 'hm, 'cfg, 'up) conn \<Rightarrow> bool" where
  "queue_empty cb ct cc c \<longleftrightarrow> list_content (encoded_content cb ct cc) (wb_queue (write_buf (c_io c))) = []"

locale conn_laws = role_laws "e_tx E"
  for E :: "('io, 'b, 'tk, 'ch, 'inc, 'out, 'hm, 'uri, 'cfg) conn_env" +
  fixes input sent :: "'io \<Rightarrow> bytes"
    and cb :: "'b \<Rightarrow> bytes"
    and ct :: "'tk \<Rightarrow> bytes"
    and cc :: "'ch \<Rightarrow> bytes"
  assumes io: "transport_laws (e_io E) input sent"
    and bytes: "bytes_ok (e_bytes E) cb ct cc"
    and bytes_vec: "bytes_vec_ok (e_bytes E) cb ct cc"
    and cursor_vec: "vec_ok (e_cvec E) cursor_chunk"
    and spare: "spare_ok (e_spare E)"

sublocale conn_laws \<subseteq> fl: flush_env "e_io E" input sent "encoded_buf_ops (e_bytes E)"
    "encoded_content cb ct cc" "\<lambda>_. True" "e_cvec E" "encoded_buf_chunks_vectored (e_bytes E)"
proof -
  show "flush_env (e_io E) input sent (encoded_buf_ops (e_bytes E)) (encoded_content cb ct cc) (\<lambda>_. True)
    (e_cvec E) (encoded_buf_chunks_vectored (e_bytes E))"
    by (intro flush_env.intro flush_env_axioms.intro io encoded_buf_laws [OF bytes]
        encoded_vec_ok [OF bytes_vec] cursor_vec)
qed

section \<open>Reading leaves the outgoing stream alone\<close>

lemma pipe_read_buf [simp]:
  "pipe sent cnt (b\<lparr>read_buf := x\<rparr>) = pipe sent cnt b"
  "buffered_ok (b\<lparr>read_buf := x\<rparr>) = buffered_ok b"
  by (simp_all add: pipe_def buffered_ok_def)

text \<open>What every read of the reader keeps, decoding keeps.\<close>

definition keeps :: "'r mem_reader \<Rightarrow> ('r \<Rightarrow> bool) \<Rightarrow> bool" where
  "keeps rd I \<longleftrightarrow> (\<forall>r n r' p. I r \<longrightarrow> rd r n = (r', p) \<longrightarrow> I r')"

lemma with_byte_keeps: "keeps rd I \<Longrightarrow> with_byte rd r f = (r1, q) \<Longrightarrow> I r \<Longrightarrow> I r1"
  unfolding keeps_def with_byte_def
  by (auto split: prod.split_asm poll.split_asm sum.split_asm list.split_asm)

lemma step_keeps:
  assumes "keeps rd I" "step rd st r sz = (r1, sz1, buf, q)" "I r"
  shows "I r1"
proof -
  note byte = with_byte_keeps [OF assms(1) _ assms(3)]
  have rd: "rd r n = (r', p) \<Longrightarrow> I r'" for n r' p using assms(1,3) unfolding keeps_def by blast
  show ?thesis
    using assms(2,3)
    by (cases st) (auto simp: plain_step_def read_size_def read_body_def Let_def dest: byte rd
        split: prod.split_asm poll.split_asm sum.split_asm if_split_asm)
qed

lemma chunked_loop_keeps:
  assumes "keeps rd I" "chunked_loop rd st sz r = Some (st', sz', r', p)" "I r"
  shows "I r'"
proof -
  have "(\<lambda>(((rd', st), sz), r) (st', sz', r', p). keeps rd' I \<longrightarrow> I r \<longrightarrow> I r') (((rd, st), sz), r) (st', sz', r', p)"
  proof (rule chunked_loop.raw_induct [OF _ assms(2)], goal_cases)
    case (1 self rd' st sz r y)
    obtain r1 sz1 buf q where s: "step rd' st r sz = (r1, sz1, buf, q)" by (metis surj_pair)
    have "keeps rd' I \<longrightarrow> I r \<longrightarrow> I r1" using step_keeps s by metis
    with 1(2) 1(1) [of rd' _ sz1 r1] s show ?case
      by (auto split: poll.split_asm sum.split_asm if_split_asm option.split_asm)
  qed
  with assms(1,3) show ?thesis by simp
qed

lemma decode_keeps:
  assumes "keeps rd I" "decode rd d r = Some (d', r', p)" "I r"
  shows "I r'"
proof (cases "dec_kind d")
  case (DChunked st sz)
  with assms(2) obtain st' sz' where "chunked_loop rd st sz r = Some (st', sz', r', p)"
    by (auto simp: decode_def)
  from chunked_loop_keeps [OF assms(1) this assms(3)] show ?thesis .
qed (use assms in \<open>auto simp: decode_def Let_def keeps_def
      split: if_split_asm prod.split_asm poll.split_asm sum.split_asm\<close>)

context conn_laws
begin

lemma poll_read_from_io_sent:
  assumes "poll_read_from_io (e_io E) (e_spare E) b = (b', p)"
  shows "sent (b_io b') = sent (b_io b)"
  using assms fl.read_ok fl.read_pending fl.read_fail
  by (fastforce simp: poll_read_from_io_def Let_def split: res_splits)

lemma poll_read_from_io_ok:
  assumes "poll_read_from_io (e_io E) (e_spare E) b = (b', p)" "buffered_ok b"
  shows "pipe sent cnt b' = pipe sent cnt b \<and> write_buf b' = write_buf b \<and> buffered_ok b'"
  using poll_read_from_io_sent [OF assms(1)] poll_read_from_io_frame [OF assms(1)]
    fl.poll_read_from_io_spec(1) [OF spare assms(2,1)]
  by (simp add: pipe_def)

lemma buffered_read_mem_ok:
  assumes "buffered_read_mem (e_io E) (e_spare E) b n = (b', p)" "buffered_ok b"
  shows "pipe sent cnt b' = pipe sent cnt b \<and> write_buf b' = write_buf b \<and> buffered_ok b'"
proof -
  obtain b1 q where q: "poll_read_from_io (e_io E) (e_spare E) b = (b1, q)" by fastforce
  show ?thesis
    using assms q poll_read_from_io_ok [OF q assms(2), of cnt]
    by (auto simp: buffered_read_mem_def Let_def split: if_split_asm poll.split_asm sum.split_asm)
qed

lemma maybe_notify_ok:
  assumes "buffered_ok (c_io c)"
  shows "pipe sent cnt (c_io (maybe_notify E c)) = pipe sent cnt (c_io c) \<and>
    write_buf (c_io (maybe_notify E c)) = write_buf (c_io c) \<and> buffered_ok (c_io (maybe_notify E c)) \<and>
    st_writing (c_state (maybe_notify E c)) \<in> {st_writing (c_state c), WClosed}"
proof -
  obtain b1 q where q: "poll_read_from_io (e_io E) (e_spare E) (c_io c) = (b1, q)" by fastforce
  show ?thesis
    using q poll_read_from_io_ok [OF q assms, of cnt] assms
    by (auto simp: maybe_notify_def close_read_def state_close_def state_close_read_def Let_def
        split: poll.split sum.split)
qed

lemma try_keep_alive_ok:
  assumes "conn_ok cb ct cc c"
  shows "outgoing sent cb ct cc (conn_try_keep_alive E c) = outgoing sent cb ct cc c \<and>
    conn_ok cb ct cc (conn_try_keep_alive E c) \<and>
    write_buf (c_io (conn_try_keep_alive E c)) = write_buf (c_io c) \<and>
    (st_writing (c_state (conn_try_keep_alive E c)) = st_writing (c_state c) \<or>
     \<not> can_write_body (conn_try_keep_alive E c))"
proof -
  let ?c = "on_state (state_try_keep_alive (e_tx E)) c"
  have w: "st_writing (c_state ?c) = st_writing (c_state c) \<or> st_writing (c_state ?c) \<in> {WClosed, WInit}"
    using state_try_keep_alive_cases [of "e_tx E" "c_state c"] by (auto simp: state_close_def state_idle_eq)
  have "buffered_ok (c_io ?c)" using assms by (simp add: conn_ok_def)
  from maybe_notify_ok [OF this, of "encoded_content cb ct cc"] w assms show ?thesis
    by (auto simp: conn_try_keep_alive_def outgoing_def conn_ok_def can_write_body_def)
qed

lemma read_body_decoded_ok:
  assumes "conn_ok cb ct cc c" "read_body_decoded E d c = Some (c', p)"
  shows "outgoing sent cb ct cc c' = outgoing sent cb ct cc c \<and> conn_ok cb ct cc c' \<and>
    (st_writing (c_state c') = st_writing (c_state c) \<or> \<not> can_write_body c')"
proof -
  let ?rd = "buffered_read_mem (e_io E) (e_spare E)"
  let ?cnt = "encoded_content cb ct cc"
  let ?I = "\<lambda>b. pipe sent ?cnt b = pipe sent ?cnt (c_io c) \<and> write_buf b = write_buf (c_io c) \<and> buffered_ok b"
  have k: "keeps ?rd ?I"
    unfolding keeps_def using buffered_read_mem_ok [where cnt = ?cnt] by (metis (no_types, lifting))
  from assms(2) obtain d1 io q where
    q: "decode ?rd d (c_io c) = Some (d1, io, q)" by (auto simp: read_body_decoded_def split: option.split_asm)
  have "?I (c_io c)" using assms(1) by (simp add: conn_ok_def)
  note I = decode_keeps [OF k q this]
  have c1: "conn_ok cb ct cc (on_state (\<lambda>s. s\<lparr>st_reading := r\<rparr>) (c\<lparr>c_io := io\<rparr>)) \<and>
      outgoing sent cb ct cc (on_state (\<lambda>s. s\<lparr>st_reading := r\<rparr>) (c\<lparr>c_io := io\<rparr>)) = outgoing sent cb ct cc c \<and>
      st_writing (c_state (on_state (\<lambda>s. s\<lparr>st_reading := r\<rparr>) (c\<lparr>c_io := io\<rparr>))) = st_writing (c_state c)" for r
    using I assms(1) by (simp add: conn_ok_def outgoing_def)
  have "c' = on_state (\<lambda>s. s\<lparr>st_reading := RBody d1\<rparr>) (c\<lparr>c_io := io\<rparr>) \<or>
      (\<exists>r. c' = conn_try_keep_alive E (on_state (\<lambda>s. s\<lparr>st_reading := r\<rparr>) (c\<lparr>c_io := io\<rparr>)))"
    using assms(2) q
    by (auto simp: read_body_decoded_def Let_def split: poll.split_asm sum.split_asm if_split_asm)
  with c1 try_keep_alive_ok show ?thesis by metis
qed

lemma set_headers_buf_ok:
  assumes "conn_ok cb ct cc c" "queue_empty cb ct cc c"
  shows "outgoing sent cb ct cc (c\<lparr>c_io := set_headers_buf (c_io c) (headers_buf (c_io c) @ x)\<rparr>) =
      outgoing sent cb ct cc c @ x \<and>
    conn_ok cb ct cc (c\<lparr>c_io := set_headers_buf (c_io c) (headers_buf (c_io c) @ x)\<rparr>)"
  using assms
  by (auto simp: outgoing_def conn_ok_def queue_empty_def set_headers_buf_def headers_buf_def pipe_def
      wb_content_def wb_ok_def buffered_ok_def cursor_defs)

lemma can_headers_buf_queue:
  assumes "conn_ok cb ct cc c" "can_headers_buf (encoded_buf_ops (e_bytes E)) (c_io c)"
  shows "queue_empty cb ct cc c"
  using assms fl.list_laws(1) [of "wb_queue (write_buf (c_io c))"]
  by (simp add: conn_ok_def wb_ok_def can_headers_buf_def queue_empty_def)

text \<open>
  The body of a request that waits for \<open>100 Continue\<close> may only be read while nothing of the previous
  response is queued.
\<close>

lemma poll_read_body_ok:
  assumes "conn_ok cb ct cc c" "poll_read_body E c = Some (c', p)"
    and "\<forall>d. st_reading (c_state c) = RContinue d \<longrightarrow> st_writing (c_state c) = WInit \<longrightarrow> queue_empty cb ct cc c"
  shows "outgoing sent cb ct cc c' = outgoing sent cb ct cc c @
      (case st_reading (c_state c) of
         RContinue _ \<Rightarrow> if st_writing (c_state c) = WInit then CONTINUE else []
       | _ \<Rightarrow> []) \<and>
    conn_ok cb ct cc c' \<and> (st_writing (c_state c') = st_writing (c_state c) \<or> \<not> can_write_body c')"
proof (cases "st_reading (c_state c)")
  case (RBody d)
  with read_body_decoded_ok [OF assms(1), of d c' p] assms(2) show ?thesis by (simp add: poll_read_body_def)
next
  case (RContinue d)
  let ?c1 = "c\<lparr>c_io := set_headers_buf (c_io c) (headers_buf (c_io c) @ CONTINUE)\<rparr>"
  let ?c0 = "if st_writing (c_state c) = WInit then ?c1 else c"
  let ?c2 = "on_state (\<lambda>s. s\<lparr>st_reading := RBody d\<rparr>) ?c0"
  have "conn_ok cb ct cc ?c2"
    using assms(1,3) RContinue set_headers_buf_ok [OF assms(1), of CONTINUE] by (auto simp: conn_ok_def)
  moreover have "read_body_decoded E d ?c2 = Some (c', p)"
    using assms(2) RContinue by (simp add: poll_read_body_def Let_def)
  ultimately have "outgoing sent cb ct cc c' = outgoing sent cb ct cc ?c2 \<and> conn_ok cb ct cc c' \<and>
      (st_writing (c_state c') = st_writing (c_state ?c2) \<or> \<not> can_write_body c')"
    by (rule read_body_decoded_ok)
  moreover have "outgoing sent cb ct cc ?c2 = outgoing sent cb ct cc c @
      (if st_writing (c_state c) = WInit then CONTINUE else [])"
    using assms(3) RContinue set_headers_buf_ok [OF assms(1), of CONTINUE] by (auto simp: outgoing_def)
  moreover have "st_writing (c_state ?c2) = st_writing (c_state c)" by simp
  ultimately show ?thesis using RContinue by simp
qed (use assms in \<open>simp_all add: poll_read_body_def\<close>)

section \<open>Writing appends\<close>

lemma enforce_version_io: "enforce_version E c head = (c', head') \<Longrightarrow> c_io c' = c_io c"
  by (auto simp: enforce_version_def fix_keep_alive_def Let_def
      split: if_split_asm version.split_asm prod.split_asm)

lemma encode_head_ok:
  assumes "conn_ok cb ct cc c" "queue_empty cb ct cc c" "st_writing (c_state c) = WInit"
    and "encode_head E c head body = Some (c', r)"
  shows "\<exists>x. outgoing sent cb ct cc c' = outgoing sent cb ct cc c @ x \<and> conn_ok cb ct cc c'"
proof -
  let ?c1 = "if \<not> should_read_first (e_tx E) then on_state state_busy c else c"
  obtain c2 head2 where v: "enforce_version E ?c1 head = (c2, head2)" by fastforce
  have io2: "c_io c2 = c_io c" using enforce_version_io [OF v] by simp
  from assms(4) v obtain msg head3 m buf res where
    t: "t_encode (e_tx E) msg (headers_buf (c_io c2)) = Some (head3, m, buf, res)"
      "c_io c' = set_headers_buf (c_io c2) buf"
    by (auto simp: encode_head_def Let_def split: option.split_asm sum.split_asm prod.split_asm)
  from encode_appends [OF t(1)] obtain x where "buf = headers_buf (c_io c) @ x" unfolding io2 by blast
  with t(2) io2 have c': "c_io c' = set_headers_buf (c_io c) (headers_buf (c_io c) @ x)" by simp
  have "st_writing (c_state c') \<in> {WInit, WClosed}"
    using encode_head_life(2,3) [OF assms(4)] assms(3) by (cases r) auto
  with set_headers_buf_ok [OF assms(1,2), of x] c' show ?thesis
    by (intro exI [of _ x]) (auto simp: outgoing_def conn_ok_def)
qed

lemma write_head_ok:
  assumes "conn_ok cb ct cc c" "queue_empty cb ct cc c" "st_writing (c_state c) = WInit"
    and "write_head E c head body = Some c'"
  shows "\<exists>x. outgoing sent cb ct cc c' = outgoing sent cb ct cc c @ x \<and> conn_ok cb ct cc c'"
proof -
  from assms(4) obtain c1 r where e: "encode_head E c head body = Some (c1, r)"
    by (auto simp: write_head_def split: option.split_asm)
  with assms(4) have "c_io c' = c_io c1 \<and> (\<forall>e. st_writing (c_state c') = WBody e \<longrightarrow>
      \<not> encoder_is_eof e \<or> st_writing (c_state c1) = WBody e)"
    by (auto simp: write_head_def split: option.split_asm if_splits)
  moreover from encode_head_ok [OF assms(1-3) e] obtain x where
    "outgoing sent cb ct cc c1 = outgoing sent cb ct cc c @ x" "conn_ok cb ct cc c1" by blast
  ultimately have "outgoing sent cb ct cc c' = outgoing sent cb ct cc c @ x" "conn_ok cb ct cc c'"
    unfolding outgoing_def conn_ok_def by metis+
  then show ?thesis by blast
qed

lemma danger_full_buf_ok:
  assumes "wb_ok (encoded_content cb ct cc) (\<lambda>_. True) w" "cb m \<noteq> []" "length (cb m) < 2 ^ 64"
    and "danger_full_buf cap (e_bytes E) e m w = Some w'"
  shows "wb_ok (encoded_content cb ct cc) (\<lambda>_. True) w' \<and>
    (\<exists>x. wb_content (encoded_content cb ct cc) w' = wb_content (encoded_content cb ct cc) w @ x)"
proof -
  note piece = buffer_pieces [OF bytes assms(1)]
  show ?thesis
  proof (cases "enc_kind e")
    case EChunked
    let ?t = "CRLF @ ascii ''0'' @ CRLF @ CRLF"
    from assms(4) EChunked obtain cs where
      "buffer_chain cap (e_bytes E) w (mk_chain (e_bytes E) cs m ?t) = Some w'"
      by (auto simp: danger_full_buf_def split: Option.bind_split_asm)
    with piece(3) [of "mk_chain (e_bytes E) cs m ?t" cap] bytes_okD(6) [OF bytes] assms(2) show ?thesis by auto
  qed (use piece(1) [of m cap] assms(2,4) in \<open>auto simp: danger_full_buf_def\<close>)
qed

lemma write_full_msg_ok:
  assumes "conn_ok cb ct cc c" "queue_empty cb ct cc c" "st_writing (c_state c) = WInit"
    and "write_full_msg E c head b = Some c'" "cb b \<noteq> []" "length (cb b) < 2 ^ 64"
  shows "\<exists>x. outgoing sent cb ct cc c' = outgoing sent cb ct cc c @ x \<and> conn_ok cb ct cc c'"
proof -
  let ?body = "Some (Known (as_u64 (b_remaining (buf_b (e_bytes E)) b)))"
  from assms(4) obtain c1 r where e: "encode_head E c head ?body = Some (c1, r)"
    by (auto simp: write_full_msg_def split: option.split_asm)
  from encode_head_ok [OF assms(1-3) e] obtain x where
    x: "outgoing sent cb ct cc c1 = outgoing sent cb ct cc c @ x" "conn_ok cb ct cc c1" by blast
  show ?thesis
  proof (cases r)
    case None
    with e assms(4) x show ?thesis by (auto simp: write_full_msg_def)
  next
    case (Some enc)
    let ?w = "write_buf (c_io c1)" and ?cnt = "encoded_content cb ct cc"
    from e assms(4) Some obtain w where
      w0: "(if \<not> encoder_is_eof enc then danger_full_buf (e_cap E) (e_bytes E) enc b ?w else Some ?w) = Some w"
        "c' = on_state (\<lambda>s. s\<lparr>st_writing := (if encoder_is_last enc then WClosed else WKeepAlive)\<rparr>)
           (c1\<lparr>c_io := (c_io c1)\<lparr>write_buf := w\<rparr>\<rparr>)"
      by (auto simp: write_full_msg_def split del: if_split)
    then have w: "w = ?w \<or> danger_full_buf (e_cap E) (e_bytes E) enc b ?w = Some w"
        "c_io c' = (c_io c1)\<lparr>write_buf := w\<rparr>" "\<not> can_write_body c'"
      by (auto simp: can_write_body_def split: if_split_asm)
    have "wb_ok ?cnt (\<lambda>_. True) w \<and> (\<exists>y. wb_content ?cnt w = wb_content ?cnt ?w @ y)"
      using w(1) danger_full_buf_ok [OF _ assms(5,6)] x(2) by (auto simp: conn_ok_def)
    then obtain y where "wb_ok ?cnt (\<lambda>_. True) w" "wb_content ?cnt w = wb_content ?cnt ?w @ y" by blast
    with w(2,3) x show ?thesis
      by (intro exI [of _ "x @ y"])
        (auto simp: outgoing_def conn_ok_def pipe_def buffered_ok_def can_write_body_def)
  qed
qed

lemma conn_buffer_ok:
  assumes "conn_ok cb ct cc c" "encoded_content cb ct cc buf \<noteq> []"
  shows "\<exists>c'. conn_buffer E c buf = Some c' \<and> conn_ok cb ct cc c' \<and> c_state c' = c_state c \<and>
    outgoing sent cb ct cc c' = outgoing sent cb ct cc c @ encoded_content cb ct cc buf"
proof -
  have "wb_ok (encoded_content cb ct cc) (\<lambda>_. True) (write_buf (c_io c))" using assms(1) by (simp add: conn_ok_def)
  from write_buf_buffer_ok [OF encoded_buf_laws [OF bytes] this TrueI assms(2), of id "e_cap E"]
  show ?thesis
    using assms(1) by (auto simp: conn_buffer_def buffered_buffer_def conn_ok_def outgoing_def pipe_def buffered_ok_def)
qed

lemma wire_step_nonempty: "m \<noteq> [] \<Longrightarrow> k \<noteq> ELength 0 \<Longrightarrow> snd (wire_step k m) \<noteq> []"
  by (cases k) (auto simp: CRLF_def unat_eq_0)

text \<open>One piece of a body.\<close>

lemma write_body_ok:
  assumes "conn_ok cb ct cc c" "st_writing (c_state c) = WBody e" "cb b \<noteq> []" "length (cb b) < 2 ^ 64"
  shows "\<exists>c'. write_body E c b = Some c' \<and> conn_ok cb ct cc c' \<and>
    outgoing sent cb ct cc c' = outgoing sent cb ct cc c @ snd (wire_step (enc_kind e) (cb b)) \<and>
    st_writing (c_state c') =
      (let e' = e\<lparr>enc_kind := fst (wire_step (enc_kind e) (cb b))\<rparr>
       in if encoder_is_eof e' then (if enc_is_last e then WClosed else WKeepAlive) else WBody e')"
proof -
  from encode_refines [OF bytes assms(4), of e] obtain buf where
    b: "encode (e_bytes E) e b = Some (e\<lparr>enc_kind := fst (wire_step (enc_kind e) (cb b))\<rparr>, buf)"
      "encoded_content cb ct cc buf = snd (wire_step (enc_kind e) (cb b))" by blast
  have "enc_kind e \<noteq> ELength 0" using assms(1,2) by (auto simp: conn_ok_def encoder_is_eof_def)
  with wire_step_nonempty [OF assms(3)] b(2) conn_buffer_ok [OF assms(1), of buf] obtain c1 where
    "conn_buffer E c buf = Some c1" "conn_ok cb ct cc c1" "c_state c1 = c_state c"
    "outgoing sent cb ct cc c1 = outgoing sent cb ct cc c @ snd (wire_step (enc_kind e) (cb b))" by auto
  with b assms(2) show ?thesis
    by (auto simp: write_body_def Let_def conn_ok_def outgoing_def encoder_is_last_def)
qed

lemma end_body_ok:
  assumes "conn_ok cb ct cc c" "st_writing (c_state c) = WBody e"
  shows "\<exists>c' res. end_body E c = Some (c', res) \<and> conn_ok cb ct cc c' \<and>
    (case wire_end (enc_kind e) of
       None \<Rightarrow> outgoing sent cb ct cc c' = outgoing sent cb ct cc c \<and> is_write_closed c' \<and>
         res = Err (new_user_body (CauseHyper new_body_write_aborted))
     | Some t \<Rightarrow> outgoing sent cb ct cc c' = outgoing sent cb ct cc c @ t \<and> res = Ok () \<and>
         (is_write_closed c' \<longleftrightarrow> enc_is_last e \<or> is_close_delimited e))"
proof (cases "encoder_end e :: not_eof + ('b, 'tk, 'ch) encoded_buf option")
  case (Inl x)
  then have "wire_end (enc_kind e) = None" using encoder_end_refines(1) by blast
  with Inl assms show ?thesis
    by (auto simp: end_body_def conn_ok_def outgoing_def is_write_closed_def state_is_write_closed_def)
next
  case (Inr x)
  show ?thesis
  proof (cases x)
    case None
    then have "wire_end (enc_kind e) = Some []" using Inr encoder_end_refines(2) by blast
    with Inr None assms show ?thesis
      by (auto simp: end_body_def conn_ok_def outgoing_def is_write_closed_def state_is_write_closed_def
          encoder_is_last_def split: if_splits)
  next
    case (Some buf)
    then have t: "wire_end (enc_kind e) = Some (encoded_content cb ct cc buf)"
      using Inr encoder_end_refines(3) by blast
    moreover have "encoded_content cb ct cc buf \<noteq> []"
      using Inr Some by (auto simp: encoder_end_def ascii_def split: encoder_kind.split_asm if_split_asm)
    ultimately show ?thesis
      using Inr Some assms conn_buffer_ok [OF assms(1), of buf]
      by (auto simp: end_body_def conn_ok_def outgoing_def is_write_closed_def state_is_write_closed_def
          encoder_is_last_def split: if_splits)
  qed
qed

lemma flush_ok:
  assumes "conn_ok cb ct cc c"
  shows "\<exists>c' p. conn_poll_flush E c = Some (c', p) \<and> conn_ok cb ct cc c' \<and>
    outgoing sent cb ct cc c' = outgoing sent cb ct cc c \<and>
    (st_writing (c_state c') = st_writing (c_state c) \<or> \<not> can_write_body c')"
proof -
  have "wb_ok (encoded_content cb ct cc) (\<lambda>_. True) (write_buf (c_io c))" using assms by (simp add: conn_ok_def)
  from fl.poll_flush_ok [OF this] obtain io p where
    f: "buffered_poll_flush (e_io E) (encoded_buf_ops (e_bytes E)) (e_cvec E)
      (encoded_buf_chunks_vectored (e_bytes E)) (c_io c) = Some (io, p)" "fl.flushed_from (c_io c) io" by blast
  then have c1: "conn_ok cb ct cc (c\<lparr>c_io := io\<rparr>)"
    "outgoing sent cb ct cc (c\<lparr>c_io := io\<rparr>) = outgoing sent cb ct cc c"
    using assms by (auto simp: fl.flushed_from_def conn_ok_def outgoing_def same_read_def buffered_ok_def)
  show ?thesis
    using f(1) c1 try_keep_alive_ok [OF c1(1)]
    by (auto simp: conn_poll_flush_def split: poll.split sum.split)
qed

end

end
