(* ===== verification/Conn_Parse.thy ===== *)
theory Conn_Parse
  imports Conn_Wire
begin

text \<open>
  Reading a head: the loop of \<open>Buffered::parse\<close> always returns, leaves the write side alone, takes
  only a prefix of the input, and never reports a header timeout, because nothing ever starts the
  timer.
\<close>

section \<open>The parse loop\<close>

definition reads_keep :: "'io transport \<Rightarrow> ('io \<Rightarrow> bytes \<Rightarrow> nat \<Rightarrow> nat) \<Rightarrow> (('io, 'b) buffered \<Rightarrow> bool) \<Rightarrow> bool" where
  "reads_keep IO spare I \<longleftrightarrow>
     (\<forall>b b' p. I b \<longrightarrow> poll_read_from_io IO spare b = (b', p) \<longrightarrow> I b') \<and>
     (\<forall>b x. I b \<longrightarrow> I (b\<lparr>read_buf := x\<rparr>))"

definition timer_kept ::
    "(('hm, 'cfg) parse_ctx \<Rightarrow> bytes \<Rightarrow> (('hm, 'cfg) parse_ctx \<times> bytes \<times> (parse + 'm option)) option) \<Rightarrow> bool" where
  "timer_kept ph \<longleftrightarrow> (\<forall>ctx bs ctx' bs' r. ph ctx bs = Some (ctx', bs', r) \<longrightarrow>
     h1_header_read_timeout_running ctx' = h1_header_read_timeout_running ctx)"

lemma not_header_timeout [simp]:
  "error_of_parse e \<noteq> new_header_timeout" "new_too_large \<noteq> new_header_timeout"
  "new_io x \<noteq> new_header_timeout" "new_incomplete \<noteq> new_header_timeout"
  by (simp_all add: error_of_parse_def new_header_timeout_def new_too_large_def new_io_def
      new_incomplete_def error_new_def error_with_def)

lemma buffered_parse_keeps:
  assumes "buffered_parse IO spare rt ph b ctx = Some (b', ctx', p)"
    and "reads_keep IO spare I" "timer_kept ph" "I b"
  shows "I b' \<and> (\<not> h1_header_read_timeout_running ctx \<longrightarrow>
      \<not> h1_header_read_timeout_running ctx' \<and> p \<noteq> Ready (Err new_header_timeout))"
proof -
  let ?n = "h1_header_read_timeout_running"
  have "(\<lambda>(((((IO, spare), rt), ph), b), ctx) (b', ctx', p). reads_keep IO spare I \<longrightarrow> timer_kept ph \<longrightarrow> I b \<longrightarrow>
      I b' \<and> (\<not> ?n ctx \<longrightarrow> \<not> ?n ctx' \<and> p \<noteq> Ready (Err new_header_timeout)))
    (((((IO, spare), rt), ph), b), ctx) (b', ctx', p)"
  proof (rule buffered_parse.raw_induct [OF _ assms(1)], goal_cases)
    case (1 self IO spare rt ph b ctx y)
    have "I (fst y) \<and> (\<not> ?n ctx \<longrightarrow> \<not> ?n (fst (snd y)) \<and> snd (snd y) \<noteq> Ready (Err new_header_timeout))"
      if k: "reads_keep IO spare I" "timer_kept ph" "I b"
    proof -
      from 1(2) obtain ctx1 buf res where ph: "ph ctx (read_buf b) = Some (ctx1, buf, res)"
        by (auto split: option.split_asm)
      let ?b = "b\<lparr>read_buf := buf\<rparr>"
      have b: "I ?b" "?n ctx1 = ?n ctx" using k ph unfolding reads_keep_def timer_kept_def by blast+
      obtain b2 q where q: "poll_read_from_io IO spare ?b = (b2, q)" by fastforce
      have b2: "I b2" using k b q unfolding reads_keep_def by blast
      have rec: "self IO spare rt ph b2 ctx1 = Some y \<Longrightarrow> I (fst y) \<and>
          (\<not> ?n ctx1 \<longrightarrow> \<not> ?n (fst (snd y)) \<and> snd (snd y) \<noteq> Ready (Err new_header_timeout))"
        using 1(1) [of IO spare rt ph b2 ctx1 y] k b2 by (simp add: split_beta)
      show ?thesis
        using 1(2) ph b b2 q rec
        by (auto simp: Let_def split: sum.split_asm option.split_asm if_split_asm poll.split_asm)
    qed
    then show ?case by (cases y) auto
  qed
  with assms(2-4) show ?thesis by simp
qed

text \<open>While a head is incomplete the read buffer stays below its limit.\<close>

lemma poll_read_from_io_pending:
  "poll_read_from_io IO spare b = (b', Pending) \<Longrightarrow>
   read_buf b' = read_buf b \<and> read_buf_strategy b' = read_buf_strategy b"
  by (auto simp: poll_read_from_io_def Let_def split: res_splits)

lemma buffered_parse_bounded:
  assumes "buffered_parse IO spare rt ph b ctx = Some (b', ctx', p)"
  shows "p = Pending \<longrightarrow> length (read_buf b') < unat (strategy_max (read_buf_strategy b'))"
proof -
  have "(\<lambda>(((((IO, spare), rt), ph), b), ctx) (b', ctx', p). p = Pending \<longrightarrow>
      length (read_buf b') < unat (strategy_max (read_buf_strategy b')))
    (((((IO, spare), rt), ph), b), ctx) (b', ctx', p)"
  proof (rule buffered_parse.raw_induct [OF _ assms], goal_cases)
    case (1 self IO spare rt ph b ctx y)
    from 1(2) obtain ctx1 buf res where ph: "ph ctx (read_buf b) = Some (ctx1, buf, res)"
      by (auto split: option.split_asm)
    let ?b = "b\<lparr>read_buf := buf\<rparr>"
    obtain b2 q where q: "poll_read_from_io IO spare ?b = (b2, q)" by fastforce
    have rec: "self IO spare rt ph b2 ctx1 = Some y \<Longrightarrow> snd (snd y) = Pending \<longrightarrow>
        length (read_buf (fst y)) < unat (strategy_max (read_buf_strategy (fst y)))"
      using 1(1) [of IO spare rt ph b2 ctx1 y] by (simp add: split_beta)
    have pend: "q = Pending \<Longrightarrow> read_buf b2 = buf \<and> read_buf_strategy b2 = read_buf_strategy b"
      using poll_read_from_io_pending [of IO spare ?b b2] q by simp
    have "snd (snd y) = Pending \<longrightarrow>
        length (read_buf (fst y)) < unat (strategy_max (read_buf_strategy (fst y)))"
      using 1(2) ph q rec pend
      by (auto simp: Let_def split: sum.split_asm option.split_asm if_split_asm poll.split_asm)
    then show ?case by (cases y) auto
  qed
  then show ?thesis by simp
qed

lemma parse_headers_timer:
  assumes "role_laws T"
  shows "timer_kept (parse_headers rt (t_parse T))"
proof -
  have "h1_header_read_timeout_running ctx' = h1_header_read_timeout_running ctx"
    if "parse_headers rt (t_parse T) ctx bs = Some (ctx', bs', r)" for ctx bs ctx' bs' r
    using that by (auto simp: parse_headers_def Let_def split: if_split_asm option.split_asm
        dest!: role_laws.parse_timer [OF assms])
  then show ?thesis by (simp add: timer_kept_def)
qed

context transport_laws
begin

text \<open>Every round of the loop that does not return takes bytes from the transport.\<close>

lemma buffered_parse_returns:
  assumes "spare_ok spare" "\<And>ctx bs. ph ctx bs \<noteq> None" "buffered_ok b"
  shows "\<exists>b' ctx' p. buffered_parse IO spare rt ph b ctx = Some (b', ctx', p)"
  using assms(3)
proof (induction "length (input (b_io b))" arbitrary: b ctx rule: less_induct)
  case less
  from assms(2) [of ctx "read_buf b"] obtain ctx1 buf res where
    ph: "ph ctx (read_buf b) = Some (ctx1, buf, res)" by auto
  let ?b = "b\<lparr>read_buf := buf\<rparr>"
  obtain b2 q where q: "poll_read_from_io IO spare ?b = (b2, q)" by fastforce
  have ok: "buffered_ok ?b" using less.prems by (simp add: buffered_ok_def)
  show ?case
  proof (cases "\<exists>n. q = Ready (Ok n) \<and> n \<noteq> 0")
    case True
    then obtain n where n: "q = Ready (Ok n)" "n \<noteq> 0" by blast
    with poll_read_from_io_spec(3) [OF assms(1) ok q n(1)] have
      "length (input (b_io b2)) < length (input (b_io b))" by auto
    from less.hyps [OF this poll_read_from_io_spec(1) [OF assms(1) ok q], of ctx1] ph q n show ?thesis
      by (subst buffered_parse.simps) (auto simp: Let_def split: sum.split option.split)
  next
    case False
    with ph q show ?thesis
      by (subst buffered_parse.simps)
        (auto simp: Let_def split: sum.split option.split poll.split)
  qed
qed

end

section \<open>Every operation only appends to the outgoing stream\<close>

lemma consume_leading_lines_eq:
  "consume_leading_lines b = b\<lparr>read_buf := drop (leading_lines (read_buf b)) (read_buf b)\<rparr>"
  by (cases b) (simp add: consume_leading_lines_def)

lemma head_received_state:
  assumes "head_received E c msg = (c', w)"
  shows "\<exists>s. st_writing s = st_writing (c_state c) \<and>
    st_h1_header_read_timeout_running s = st_h1_header_read_timeout_running (c_state c) \<and>
    st_error s = st_error (c_state c) \<and>
    (c' = c\<lparr>c_state := s\<rparr> \<or> c' = conn_try_keep_alive E (c\<lparr>c_state := s\<rparr>))"
proof -
  define s where "s = (let s = state_busy ((c_state c)\<lparr>st_h09_responses := False\<rparr>)
    in s\<lparr>st_keep_alive := ka_and (st_keep_alive s) (pm_keep_alive msg), st_version := version (pm_head msg)\<rparr>)"
  have s: "st_writing s = st_writing (c_state c)" "st_error s = st_error (c_state c)"
    "st_h1_header_read_timeout_running s = st_h1_header_read_timeout_running (c_state c)"
    by (auto simp: s_def Let_def state_busy_def split: ka.split)
  have "\<exists>r. c' = c\<lparr>c_state := s\<lparr>st_reading := r\<rparr>\<rparr> \<or>
      c' = conn_try_keep_alive E (c\<lparr>c_state := s\<lparr>st_reading := r\<rparr>\<rparr>)"
    using assms unfolding head_received_def Let_def s_def by (auto split: if_split_asm)
  then obtain r where "c' = c\<lparr>c_state := s\<lparr>st_reading := r\<rparr>\<rparr> \<or>
      c' = conn_try_keep_alive E (c\<lparr>c_state := s\<lparr>st_reading := r\<rparr>\<rparr>)" by blast
  with s show ?thesis by (intro exI [of _ "s\<lparr>st_reading := r\<rparr>"]) simp
qed

context conn_laws
begin

lemma parse_loop_ok:
  assumes "conn_ok cb ct cc c"
    and "buffered_parse (e_io E) (e_spare E) rt (parse_headers rt (t_parse (e_tx E))) (c_io c) ctx = Some (io, ctx', p)"
  shows "pipe sent (encoded_content cb ct cc) io = pipe sent (encoded_content cb ct cc) (c_io c) \<and>
    write_buf io = write_buf (c_io c) \<and> buffered_ok io"
    and "\<not> h1_header_read_timeout_running ctx \<Longrightarrow>
      \<not> h1_header_read_timeout_running ctx' \<and> p \<noteq> Ready (Err new_header_timeout)"
proof -
  let ?cnt = "encoded_content cb ct cc"
  let ?I = "\<lambda>b. pipe sent ?cnt b = pipe sent ?cnt (c_io c) \<and> write_buf b = write_buf (c_io c) \<and> buffered_ok b"
  have "reads_keep (e_io E) (e_spare E) ?I"
    unfolding reads_keep_def using poll_read_from_io_ok [where cnt = ?cnt]
    by (metis (no_types, lifting) pipe_read_buf buffered.update_convs(4) buffered.select_convs(6)
        buffered.surjective)
  moreover have "timer_kept (parse_headers rt (t_parse (e_tx E)))"
    by (rule parse_headers_timer) (rule role_laws_axioms)
  moreover have "?I (c_io c)" using assms(1) by (simp add: conn_ok_def)
  ultimately have "?I io \<and> (\<not> h1_header_read_timeout_running ctx \<longrightarrow>
      \<not> h1_header_read_timeout_running ctx' \<and> p \<noteq> Ready (Err new_header_timeout))"
    by (rule buffered_parse_keeps [OF assms(2)])
  then show "pipe sent ?cnt io = pipe sent ?cnt (c_io c) \<and> write_buf io = write_buf (c_io c) \<and> buffered_ok io"
    and "\<not> h1_header_read_timeout_running ctx \<Longrightarrow>
      \<not> h1_header_read_timeout_running ctx' \<and> p \<noteq> Ready (Err new_header_timeout)" by simp_all
qed

lemma on_parse_error_ok:
  assumes "conn_ok cb ct cc c" "st_writing (c_state c) = WInit \<longrightarrow> queue_empty cb ct cc c"
    and "on_parse_error E c err = Some (c', res)"
  shows "\<exists>x. outgoing sent cb ct cc c' = outgoing sent cb ct cc c @ x \<and> conn_ok cb ct cc c'"
proof -
  let ?c = "on_state (\<lambda>s. s\<lparr>st_cached_headers := None\<rparr>) c"
  from assms(3) consider "c' = c"
    | msg c1 where "st_writing (c_state c) = WInit" "write_head E ?c msg None = Some c1"
        "c' = on_state (\<lambda>s. s\<lparr>st_error := Some err\<rparr>) c1"
    by (auto simp: on_parse_error_def split: if_split_asm option.split_asm Option.bind_split_asm)
  then show ?thesis
  proof cases
    case 2
    with write_head_ok [of ?c msg None c1] assms(1,2) show ?thesis
      by (auto simp: conn_ok_def queue_empty_def outgoing_def)
  qed (use assms(1) in simp)
qed

lemma on_read_head_error_ok:
  assumes "conn_ok cb ct cc c" "st_writing (c_state c) = WInit \<longrightarrow> queue_empty cb ct cc c"
    and "on_read_head_error E c e = Some (c', p)"
  shows "\<exists>x. outgoing sent cb ct cc c' = outgoing sent cb ct cc c @ x \<and> conn_ok cb ct cc c'"
proof -
  define c1 where "c1 = (close_read c)\<lparr>c_io := consume_leading_lines (c_io (close_read c))\<rparr>"
  obtain x where io: "c_io c1 = (c_io c)\<lparr>read_buf := x\<rparr>"
    by (simp add: c1_def consume_leading_lines_eq close_read_def)
  have c: "conn_ok cb ct cc c1" "st_writing (c_state c1) = WInit \<longrightarrow> queue_empty cb ct cc c1"
    "outgoing sent cb ct cc c1 = outgoing sent cb ct cc c"
    using assms(1,2) by (simp_all add: conn_ok_def queue_empty_def outgoing_def io)
      (simp_all add: c1_def close_read_def state_close_read_def)
  from assms(3) consider "c' = close_write c1" | res where "on_parse_error E c1 e = Some (c', res)"
    by (auto simp: on_read_head_error_def Let_def c1_def [symmetric] split: if_split_asm)
  then show ?thesis
  proof cases
    case 1
    with c show ?thesis by (auto simp: close_write_def state_close_write_def conn_ok_def outgoing_def)
  next
    case 2
    from on_parse_error_ok [OF c(1,2) this] c(3) show ?thesis by simp
  qed
qed

lemma head_received_ok:
  assumes "conn_ok cb ct cc c" "head_received E c msg = (c', w)"
  shows "outgoing sent cb ct cc c' = outgoing sent cb ct cc c \<and> conn_ok cb ct cc c'"
proof -
  from head_received_state [OF assms(2)] obtain s where s: "st_writing s = st_writing (c_state c)"
    "c' = c\<lparr>c_state := s\<rparr> \<or> c' = conn_try_keep_alive E (c\<lparr>c_state := s\<rparr>)" by blast
  then have "conn_ok cb ct cc (c\<lparr>c_state := s\<rparr>)" "outgoing sent cb ct cc (c\<lparr>c_state := s\<rparr>) = outgoing sent cb ct cc c"
    using assms(1) by (simp_all add: conn_ok_def outgoing_def)
  with s(2) try_keep_alive_ok show ?thesis by metis
qed

lemma poll_read_head_ok:
  assumes "conn_ok cb ct cc c" "st_writing (c_state c) = WInit \<longrightarrow> queue_empty cb ct cc c"
    and "conn_poll_read_head E c = Some (c', p)"
  shows "\<exists>x. outgoing sent cb ct cc c' = outgoing sent cb ct cc c @ x \<and> conn_ok cb ct cc c'"
proof -
  from assms(3) obtain io ctx q where
    q: "buffered_parse (e_io E) (e_spare E) (e_rt E) (parse_headers (e_rt E) (t_parse (e_tx E)))
      (c_io c) (parse_context (c_state c)) = Some (io, ctx, q)"
    by (auto simp: conn_poll_read_head_def split: option.split_asm)
  let ?c = "c\<lparr>c_io := io, c_state := restore_context (c_state c) ctx\<rparr>"
  have c: "conn_ok cb ct cc ?c" "st_writing (c_state ?c) = WInit \<longrightarrow> queue_empty cb ct cc ?c"
    "outgoing sent cb ct cc ?c = outgoing sent cb ct cc c"
    using parse_loop_ok(1) [OF assms(1) q] assms(1,2)
    by (simp_all add: conn_ok_def queue_empty_def outgoing_def restore_context_def)
  from q assms(3) have "c' = ?c \<or> (\<exists>e. on_read_head_error E ?c e = Some (c', p)) \<or>
      (\<exists>msg w. head_received E ?c msg = (c', w))"
    by (auto simp: conn_poll_read_head_def Let_def split: poll.split_asm sum.split_asm prod.split_asm)
  with c on_read_head_error_ok [OF c(1,2)] head_received_ok [OF c(1)] show ?thesis by fastforce
qed


lemma force_io_read_ok:
  assumes "conn_ok cb ct cc c" "force_io_read E c = (c', p)"
  shows "outgoing sent cb ct cc c' = outgoing sent cb ct cc c \<and> conn_ok cb ct cc c'"
proof -
  obtain io q where q: "poll_read_from_io (e_io E) (e_spare E) (c_io c) = (io, q)" by fastforce
  have "buffered_ok (c_io c)" using assms(1) by (simp add: conn_ok_def)
  from poll_read_from_io_ok [OF q this, of "encoded_content cb ct cc"] q assms show ?thesis
    by (auto simp: force_io_read_def conn_ok_def outgoing_def state_close_def
        split: poll.split_asm sum.split_asm)
qed

lemma poll_read_keep_alive_ok:
  assumes "conn_ok cb ct cc c" "poll_read_keep_alive E c = (c', p)"
  shows "outgoing sent cb ct cc c' = outgoing sent cb ct cc c \<and> conn_ok cb ct cc c'"
proof -
  obtain c1 q where q: "force_io_read E c = (c1, q)" by fastforce
  have "c' = c \<or> c' = c1 \<or> c' = on_state state_close_read c1"
    using assms(2) q
    by (auto simp: poll_read_keep_alive_def mid_message_detect_eof_def require_empty_read_def
        split: poll.split_asm sum.split_asm if_split_asm)
  with force_io_read_ok [OF assms(1) q] assms(1) show ?thesis
    by (auto simp: conn_ok_def outgoing_def state_close_read_def)
qed

lemma drain_ok:
  assumes "conn_ok cb ct cc c" "poll_drain_or_close_read E c = Some c'"
    and "\<forall>d. st_reading (c_state c) = RContinue d \<longrightarrow> st_writing (c_state c) = WInit \<longrightarrow> queue_empty cb ct cc c"
  shows "\<exists>x. outgoing sent cb ct cc c' = outgoing sent cb ct cc c @ x \<and> conn_ok cb ct cc c'"
proof -
  from assms(2) obtain c1 p where b: "poll_read_body E c = Some (c1, p)"
    by (auto simp: poll_drain_or_close_read_def)
  with assms(2) have "c' = c1 \<or> c' = close_read c1"
    by (cases "st_reading (c_state c1)") (simp_all add: poll_drain_or_close_read_def)
  with poll_read_body_ok [OF assms(1) b assms(3)] show ?thesis
    by (auto simp: close_read_def state_close_read_def conn_ok_def outgoing_def)
qed

text \<open>The last piece of a body, with the end of the body.\<close>

lemma write_body_and_end_ok:
  assumes "conn_ok cb ct cc c" "st_writing (c_state c) = WBody e" "cb b \<noteq> []" "length (cb b) < 2 ^ 64"
  shows "\<exists>c' k. write_body_and_end E c b = Some c' \<and> conn_ok cb ct cc c' \<and>
    wire_step (enc_kind e) (cb b) = (k, snd (wire_step (enc_kind e) (cb b))) \<and>
    outgoing sent cb ct cc c' = outgoing sent cb ct cc c @ snd (wire_step (enc_kind e) (cb b)) @
      (case wire_end k of None \<Rightarrow> [] | Some t \<Rightarrow> t) \<and>
    st_writing (c_state c') =
      (if \<not> enc_is_last e \<and> \<not> is_close_delimited e \<and> wire_end k \<noteq> None then WKeepAlive else WClosed)"
proof -
  let ?w = "write_buf (c_io c)" and ?cnt = "encoded_content cb ct cc"
  have w: "wb_ok ?cnt (\<lambda>_. True) ?w" "enc_kind e \<noteq> ELength 0"
    using assms(1,2) by (auto simp: conn_ok_def encoder_is_eof_def)
  from encode_and_end_content [OF bytes w(1) assms(3,4) w(2), of "e_cap E"] obtain w' ka where
    "encode_and_end (e_cap E) (e_bytes E) e b ?w = Some (w', ka)" "wb_ok ?cnt (\<lambda>_. True) w'"
    "wb_content ?cnt w' = wb_content ?cnt ?w @ snd (wire_step (enc_kind e) (cb b)) @
        (case wire_end (fst (wire_step (enc_kind e) (cb b))) of None \<Rightarrow> [] | Some t \<Rightarrow> t)"
    "ka \<longleftrightarrow> \<not> enc_is_last e \<and> \<not> is_close_delimited e \<and> wire_end (fst (wire_step (enc_kind e) (cb b))) \<noteq> None"
    by blast
  with assms(1,2) show ?thesis
    by (intro exI [of _ "on_state (\<lambda>s. s\<lparr>st_writing := if ka then WKeepAlive else WClosed\<rparr>)
          (c\<lparr>c_io := (c_io c)\<lparr>write_buf := w'\<rparr>\<rparr>)"] exI [of _ "fst (wire_step (enc_kind e) (cb b))"])
      (auto simp: write_body_and_end_def conn_ok_def outgoing_def pipe_def buffered_ok_def)
qed

lemma shutdown_ok:
  assumes "conn_ok cb ct cc c" "conn_poll_shutdown E c = (c', p)"
  shows "outgoing sent cb ct cc c' = outgoing sent cb ct cc c \<and> conn_ok cb ct cc c'"
  using assms fl.shutdown_keeps
  by (auto simp: conn_poll_shutdown_def conn_ok_def outgoing_def pipe_def buffered_ok_def split: prod.split_asm)

end

end
