(* ===== verification/Body_Delivery.thy ===== *)
theory Body_Delivery
  imports Codec Buffered
begin

text \<open>
  Delivery of message bodies: what the decoder finds in a stream, that a sequence of \<open>decode\<close> calls
  reaches the end of every complete body on every transport that does not wait forever, and the
  round trip from encoder to decoder for all three framings.
\<close>

section \<open>The body in a stream\<close>

definition body_of :: "decoder \<Rightarrow> bytes \<Rightarrow> (bytes \<times> bytes) option" where
  "body_of d s =
     (case dec_kind d of
        DLength n \<Rightarrow> if unat n \<le> length s then Some (take (unat n) s, drop (unat n) s) else None
      | DChunked st sz \<Rightarrow> ref_decode st sz s
      | DEof True \<Rightarrow> Some ([], s)
      | DEof False \<Rightarrow> Some (s, []))"

definition decoder_wf :: "decoder \<Rightarrow> bool" where
  "decoder_wf d = (case dec_kind d of DChunked st sz \<Rightarrow> chunk_wf st sz | _ \<Rightarrow> True)"

section \<open>Readers that do not wait forever\<close>

text \<open>\<open>waits r\<close> bounds how often the reader will still report that it is not ready; it never fails.\<close>

locale live_stream = mem_stream rd stream good for rd :: "'r mem_reader" and stream good +
  fixes waits :: "'r \<Rightarrow> nat"
  assumes wait: "good r \<Longrightarrow> rd r n = (r', Pending) \<Longrightarrow> waits r' < waits r"
    and no_wait: "good r \<Longrightarrow> rd r n = (r', Ready (Ok bs)) \<Longrightarrow> waits r' \<le> waits r"
    and no_fail: "rd r n \<noteq> (r', Ready (Err e))"
begin

lemma chunked_loop_waits:
  assumes "good r" "chunked_loop rd st sz r = Some (st', sz', r', p)"
  shows "waits r' \<le> waits r \<and> (p = Pending \<longrightarrow> waits r' < waits r)"
  using assms
proof (induction "length (stream r)" arbitrary: st sz r rule: less_induct)
  case less
  note loop = less.prems(2) [unfolded chunked_loop.simps [of rd st sz r]]
  consider "st = CEnd" | "st = CBody" | "st \<noteq> CEnd" "st \<noteq> CBody" by blast
  then show ?case
  proof cases
    case 1
    with loop show ?thesis by auto
  next
    case 2
    then show ?thesis
      using loop no_wait [OF less.prems(1)] wait [OF less.prems(1)] no_fail
      by (fastforce simp: read_body_def Let_def split: res_splits)
  next
    case 3
    obtain r1 q where rd: "rd r (Suc 0) = (r1, q)" by fastforce
    show ?thesis
    proof (cases "\<exists>b bs. q = Ready (Ok (b # bs))")
      case True
      then obtain b bs where q: "q = Ready (Ok (b # bs))" by blast
      note str = read_byte(2,3) [OF less.prems(1) rd [unfolded q]]
      have w: "waits r1 \<le> waits r" using no_wait [OF less.prems(1) rd [unfolded q]] .
      from less.hyps [of r1, OF _ str(2)] str w loop rd q 3 show ?thesis
        by (fastforce simp: step_control split: sum.split_asm if_split_asm)
    next
      case False
      with loop rd 3 no_wait [OF less.prems(1)] wait [OF less.prems(1)] no_fail show ?thesis
        by (fastforce simp: step_control split: res_splits list.splits)
    qed
  qed
qed

text \<open>
  One call of \<open>decode\<close> on a stream that holds a complete body: it waits, or delivers a next
  non-empty part of the body, or reports its end with exactly the rest of the stream left.
\<close>

lemma decode_progress:
  assumes "good r" "decoder_wf d" "body_of d (stream r) = Some (body, rest)"
    and "decode rd d r = Some (d', r', p)"
  shows "p = Pending \<and> body_of d' (stream r') = Some (body, rest) \<and> waits r' < waits r \<and> good r' \<and> decoder_wf d' \<or>
    (\<exists>bs body'. p = Ready (Ok bs) \<and> bs \<noteq> [] \<and> body = bs @ body' \<and>
       body_of d' (stream r') = Some (body', rest) \<and> waits r' \<le> waits r \<and> good r' \<and> decoder_wf d') \<or>
    p = Ready (Ok []) \<and> body = [] \<and> stream r' = rest \<and> good r'"
proof (cases "dec_kind d")
  case (DChunked st sz)
  with assms(4) obtain st' sz' where l: "chunked_loop rd st sz r = Some (st', sz', r', p)"
    and d': "dec_kind d' = DChunked st' sz'"
    by (auto simp: decode_def)
  have "chunk_wf st sz" using assms(2) DChunked by (simp add: decoder_wf_def)
  note spec = chunked_loop_spec [OF assms(1) this l] and w = chunked_loop_waits [OF assms(1) l]
  consider "p = Pending" | bs where "p = Ready (Ok bs)" | e where "p = Ready (Err e)"
    by (metis poll.exhaust sum.exhaust)
  then show ?thesis
    using spec w no_fail assms(3) DChunked d'
    by cases (auto simp: loop_spec_def body_of_def decoder_wf_def split: if_split_asm)
next
  case (DLength n)
  show ?thesis
  proof (cases "n = 0")
    case True
    with DLength assms show ?thesis by (auto simp: decode_def body_of_def)
  next
    case n: False
    obtain q where rd: "rd r (unat n) = (r', q)"
      using assms(4) DLength n by (auto simp: decode_def Let_def split: res_splits)
    have s: "unat n \<le> length (stream r)" "body = take (unat n) (stream r)" "rest = drop (unat n) (stream r)"
      using assms(3) DLength by (auto simp: body_of_def split: if_splits)
    show ?thesis
    proof (cases q)
      case Pending
      with rd read_pending [OF assms(1)] wait [OF assms(1)] assms(3,4) DLength n show ?thesis
        by (auto simp: decode_def body_of_def decoder_wf_def split: if_splits)
    next
      case (Ready x)
      with rd no_fail obtain bs where q: "q = Ready (Ok bs)" by (cases x) auto
      note rd = rd [unfolded q]
      have len: "length bs \<le> unat n" by (rule read_le [OF rd])
      then have "length bs < 2 ^ 64" using unat_less_u64 [of n] by simp
      then have u: "unat (word_of_nat (length bs) :: u64) = length bs" by (rule unat_of_nat_u64)
      have "bs \<noteq> []" using read_eof [OF assms(1)] rd n s(1) by (auto simp: unat_eq_0 unat_gt_0)
      then have "word_of_nat (length bs) \<noteq> (0 :: u64)" using u by auto
      moreover have "\<not> word_of_nat (length bs) > n" using u len by (simp add: word_less_nat_alt)
      ultimately have d': "dec_kind d' = DLength (n - word_of_nat (length bs))" "p = Ready (Ok bs)"
        using assms(4) DLength n rd by (auto simp: decode_def Let_def)
      moreover have "unat (n - word_of_nat (length bs)) = unat n - length bs"
        using unat_sub_u64 [of "word_of_nat (length bs)" n] u len by simp
      ultimately show ?thesis
        using \<open>bs \<noteq> []\<close> len s read_ok [OF assms(1) rd] no_wait [OF assms(1) rd]
        by (auto simp: body_of_def decoder_wf_def)
    qed
  qed
next
  case (DEof b)
  show ?thesis
  proof (cases b)
    case True
    with DEof assms show ?thesis by (auto simp: decode_def body_of_def)
  next
    case False
    from DEof False assms(4) obtain q where rd: "rd r 8192 = (r', q)"
      by (auto simp: decode_def split: res_splits)
    have s: "body = stream r" "rest = []" using DEof False assms(3) by (simp_all add: body_of_def)
    consider "q = Pending" | bs where "q = Ready (Ok bs)" using rd no_fail by (metis poll.exhaust sum.exhaust)
    then show ?thesis
    proof cases
      case 1
      with rd DEof False assms(3,4) read_pending [OF assms(1)] wait [OF assms(1)] show ?thesis
        by (auto simp: decode_def body_of_def decoder_wf_def)
    next
      case (2 bs)
      note rd = rd [unfolded 2]
      with DEof False assms(4) have d': "dec_kind d' = DEof (bs = [])" "p = Ready (Ok bs)"
        by (auto simp: decode_def)
      show ?thesis
      proof (cases "bs = []")
        case True
        with read_eof [OF assms(1)] read_ok [OF assms(1) rd] rd s d' show ?thesis by simp
      next
        case False
        with read_ok [OF assms(1) rd] no_wait [OF assms(1) rd] s d' show ?thesis
          by (simp add: body_of_def decoder_wf_def)
      qed
    qed
  qed
qed

lemma decode_delivers:
  assumes "good r" "decoder_wf d" "body_of d (stream r) = Some (body, rest)"
  shows "\<exists>d' r'. decode_run rd d r body d' r' \<and> stream r' = rest \<and> good r'"
  using assms
proof (induction "waits r + length body" arbitrary: r d body rule: less_induct)
  case less
  from decode_returns [OF less.prems(1)] obtain d1 r1 p where
    d: "decode rd d r = Some (d1, r1, p)" by (metis surj_pair)
  from decode_progress [OF less.prems this] show ?case
  proof (elim disjE exE conjE)
    assume 1: "p = Pending" "body_of d1 (stream r1) = Some (body, rest)" "waits r1 < waits r" "good r1" "decoder_wf d1"
    with less.hyps [of r1 body d1] show ?thesis using d by (auto intro: run_pending)
  next
    fix bs body'
    assume 2: "p = Ready (Ok bs)" "bs \<noteq> []" "body = bs @ body'" "body_of d1 (stream r1) = Some (body', rest)"
      "waits r1 \<le> waits r" "good r1" "decoder_wf d1"
    then have "waits r1 + length body' < waits r + length body" by (cases bs) auto
    from less.hyps [OF this 2(6,7,4)] 2 d show ?thesis by (auto intro: run_data)
  next
    assume "p = Ready (Ok [])" "body = []" "stream r1 = rest" "good r1"
    with d show ?thesis by (auto intro: run_end)
  qed
qed

end

section \<open>From encoder to decoder\<close>

lemma decoder_new_of:
  "decoder_new CHUNKED = decoder_chunked"
  "decoder_new CLOSE_DELIMITED = decoder_eof"
  "n \<le> MAX_LEN \<Longrightarrow> decoder_new (DecodedLength n) = decoder_length n"
  by (simp_all add: decoder_new_def danger_len_def le_MAX_LEN_iff CHUNKED_def CLOSE_DELIMITED_def)

text \<open>The part of the pieces that the framing lets through.\<close>

fun framed :: "encoder_kind \<Rightarrow> bytes list \<Rightarrow> bytes" where
  "framed (ELength n) ms = take (unat n) (concat ms)"
| "framed _ ms = concat ms"

lemma wire_all_close [simp]: "wire_all ECloseDelimited ms = (ECloseDelimited, concat ms)"
  by (induction ms) auto

lemma body_of_wire:
  assumes "wire_all k ms = (k', w)" "wire_end k' = Some t"
    and "\<forall>m \<in> set ms. m \<noteq> [] \<and> length m < 2 ^ 64"
    and "\<forall>n. k = ELength n \<longrightarrow> n \<le> MAX_LEN" "k = ECloseDelimited \<longrightarrow> rest = []"
  shows "body_of (decoder_new (decoder_of k)) (w @ t @ rest) = Some (framed k ms, rest) \<and>
    decoder_wf (decoder_new (decoder_of k))"
proof (cases k)
  case EChunked
  then have "k' = EChunked" "w = snd (wire_all EChunked ms)"
    using assms(1) wire_all_chunked_fst [of ms] by (simp_all del: wire_all_chunked_fst)
  with EChunked assms(2) ref_decode_chunked_wire [OF assms(3), of rest] show ?thesis
    by (simp add: decoder_new_of body_of_def decoder_chunked_def decoder_wf_def chunk_wf_def chunked_wire_def)
next
  case (ELength n)
  from ELength assms(1) wire_all_length [of n ms] have
    w: "w = take (unat n) (concat ms)" "k' = ELength (n - as_u64 (min (unat n) (length (concat ms))))" by auto
  with assms(2) have 0: "n = as_u64 (min (unat n) (length (concat ms)))" "t = []"
    by (auto simp del: length_concat split: if_split_asm)
  have "min (unat n) (length (concat ms)) < 2 ^ 64" using unat_less_u64 [of n] by simp
  from unat_as_u64 [OF this] 0(1) have "unat n = min (unat n) (length (concat ms))" by metis
  then have "unat n \<le> length (concat ms)" by linarith
  then have "length w = unat n" using w(1) by simp
  with ELength w 0(2) assms(4) show ?thesis
    by (simp add: decoder_new_of decoder_length_def body_of_def decoder_wf_def)
next
  case ECloseDelimited
  with assms(1,2,5) show ?thesis
    by (auto simp: decoder_new_of decoder_eof_def body_of_def decoder_wf_def)
qed

context live_stream
begin

lemma body_roundtrip:
  assumes "good r" "wire_all k ms = (k', w)" "wire_end k' = Some t" "stream r = w @ t @ rest"
    and "\<forall>m \<in> set ms. m \<noteq> [] \<and> length m < 2 ^ 64"
    and "\<forall>n. k = ELength n \<longrightarrow> n \<le> MAX_LEN" "k = ECloseDelimited \<longrightarrow> rest = []"
  shows "\<exists>d' r'. decode_run rd (decoder_new (decoder_of k)) r (framed k ms) d' r' \<and> stream r' = rest"
  using body_of_wire [OF assms(2,3,5-7)] decode_delivers [OF assms(1)] assms(4) by metis

end

section \<open>The readers\<close>

interpretation live_slice: live_stream slice_read_mem "\<lambda>s. s" "\<lambda>_. True" "\<lambda>_. 0"
  by unfold_locales (auto simp: slice_read_mem_def Let_def split: if_splits)

text \<open>
  The reader of a connection does not wait forever when its transport does not: \<open>waits io\<close> bounds the
  number of reads that are not ready, and no read fails.
\<close>

definition transport_live :: "'io transport \<Rightarrow> ('io \<Rightarrow> nat) \<Rightarrow> bool" where
  "transport_live IO waits \<longleftrightarrow>
     (\<forall>io n io' p. io_read IO io n = (io', p) \<longrightarrow>
        waits io' \<le> waits io \<and> (p = Pending \<longrightarrow> waits io' < waits io) \<and> (\<forall>e. p \<noteq> Ready (Err e)))"

lemma transport_liveD:
  "transport_live IO waits \<Longrightarrow> io_read IO io n = (io', p) \<Longrightarrow>
   waits io' \<le> waits io \<and> (p = Pending \<longrightarrow> waits io' < waits io) \<and> (\<forall>e. p \<noteq> Ready (Err e))"
  unfolding transport_live_def by blast

lemma buffered_read_mem_waits:
  assumes "transport_live IO waits" "buffered_read_mem IO spare b n = (b', p)"
  shows "waits (b_io b') \<le> waits (b_io b) \<and> (p = Pending \<longrightarrow> waits (b_io b') < waits (b_io b)) \<and>
    (\<forall>e. p \<noteq> Ready (Err e))"
proof -
  obtain io q where
    "io_read IO (b_io b) (spare (b_io b) (read_buf b) (unat (strategy_next (read_buf_strategy b)))) = (io, q)"
    by fastforce
  from this transport_liveD [OF assms(1) this] assms(2) show ?thesis
    by (cases q) (auto simp: buffered_read_mem_def poll_read_from_io_def Let_def split: if_split_asm sum.split_asm)
qed

context transport_laws
begin

lemma live_buffered:
  assumes "spare_ok spare" "transport_live IO waits"
  shows "live_stream (buffered_read_mem IO spare) (buffered_stream input) buffered_ok (\<lambda>b. waits (b_io b))"
  by (intro live_stream.intro live_stream_axioms.intro buffered_mem_stream assms(1))
    (auto dest!: buffered_read_mem_waits [OF assms(2)])

end

text \<open>The scripted transport waits at most once for every event of its script.\<close>

definition script_waits :: "script \<Rightarrow> nat" where
  "script_waits io = length (sc_in io)"

lemma script_live: "transport_live script_transport script_waits"
  by (auto simp: transport_live_def script_waits_def script_transport_def
      split: list.splits option.splits if_splits)

lemma spare_exact: "spare_ok (\<lambda>io buf n. n)"
  by (simp add: spare_ok_def)

interpretation live_script: live_stream "buffered_read_mem script_transport (\<lambda>io buf n. n)"
    "buffered_stream script_input" buffered_ok "\<lambda>b. script_waits (b_io b)"
  by (rule script.live_buffered [OF spare_exact script_live])

section \<open>Properties\<close>

text \<open>C5: Bodies arrive as they were sent. Whatever pieces a body is written in, and however the
  transport cuts the encoded bytes into reads and waits, the connection's reader decodes it to the
  end and delivers the pieces in order (cut at the announced length for a sized body), for chunked,
  sized and close-delimited framing; the bytes after the body stay in the stream for the next
  message.\<close>

theorem body_arrives:
  assumes "transport_laws IO input sent" "spare_ok spare" "transport_live IO waits"
    and "buffered_ok b" "buffered_stream input b = w @ t @ rest"
    and "wire_all k ms = (k', w)" "wire_end k' = Some t"
    and "\<forall>m \<in> set ms. m \<noteq> [] \<and> length m < 2 ^ 64"
    and "\<forall>n. k = ELength n \<longrightarrow> n \<le> MAX_LEN" "k = ECloseDelimited \<longrightarrow> rest = []"
  shows "\<exists>d' b'. decode_run (buffered_read_mem IO spare) (decoder_new (decoder_of k)) b (framed k ms) d' b' \<and>
    buffered_stream input b' = rest"
  by (rule live_stream.body_roundtrip [OF transport_laws.live_buffered [OF assms(1-3)] assms(4,6,7,5,8-10)])

text \<open>\<open>hello\<close> in two chunks, over a transport that hands out single bytes and waits.\<close>

definition ex_chunks :: "(script, unit) buffered" where
  "ex_chunks = (buffered_new script_transport
     \<lparr>sc_in = [Some (ascii ''2''), None, Some CRLF, Some (ascii ''he''), Some CRLF, Some (ascii ''3''), Some CRLF,
               Some (ascii ''llo''), None, Some CRLF, Some (ascii ''0''), Some CRLF, Some CRLF, Some (ascii ''GET'')],
      sc_out = [], sc_window = 0\<rparr>)"

theorem body_arrives_witness:
  "\<exists>d' b'. decode_run (buffered_read_mem script_transport (\<lambda>io buf n. n)) (decoder_new (decoder_of EChunked))
      ex_chunks (framed EChunked [ascii ''he'', ascii ''llo'']) d' b' \<and>
    buffered_stream script_input b' = ascii ''GET''"
proof (rule body_arrives [OF script.transport_laws_axioms spare_exact script_live])
  show "buffered_ok ex_chunks"
    by (simp add: ex_chunks_def buffered_ok_def buffered_new_def strategy_ok_default)
  have hex: "upper_hex (Suc (Suc 0)) = ascii ''2''" "upper_hex (Suc (Suc (Suc 0))) = ascii ''3''"
    by (simp_all add: upper_hex.simps hex_digit_def ascii_def)
  show "wire_all EChunked [ascii ''he'', ascii ''llo''] = (EChunked, ascii ''2'' @ CRLF @ ascii ''he'' @ CRLF @
      ascii ''3'' @ CRLF @ ascii ''llo'' @ CRLF)"
    using hex by (simp add: ascii_def)
  show "wire_end EChunked = Some (ascii ''0'' @ CRLF @ CRLF)" by simp
  show "buffered_stream script_input ex_chunks = (ascii ''2'' @ CRLF @ ascii ''he'' @ CRLF @
      ascii ''3'' @ CRLF @ ascii ''llo'' @ CRLF) @ (ascii ''0'' @ CRLF @ CRLF) @ ascii ''GET''"
    by (simp add: buffered_stream_def ex_chunks_def buffered_new_def script_input_def)
qed (simp_all add: ascii_def)

text \<open>C6: A body is never cut short or extended silently. When the decoder reports the end of a body, what
  it delivered is exactly the body that the framing delimits in the stream, and the stream goes on
  right after it; a chunked or sized body that the peer breaks off is never reported as complete.\<close>

theorem complete_body_is_exact:
  assumes "transport_laws IO input sent" "spare_ok spare" "buffered_ok b" "decoder_wf d"
    and "decode_run (buffered_read_mem IO spare) d b body d' b'"
  shows "body_of d (buffered_stream input b) = Some (body, buffered_stream input b')"
proof -
  note m = transport_laws.buffered_mem_stream [OF assms(1,2)]
  show ?thesis
  proof (cases "dec_kind d")
    case (DLength n)
    from mem_stream.length_run [OF m assms(5,3) this] DLength show ?thesis by (simp add: body_of_def)
  next
    case (DChunked st sz)
    with assms(4) mem_stream.chunked_run [OF m assms(5,3) DChunked] show ?thesis
      by (simp add: body_of_def decoder_wf_def)
  next
    case (DEof e)
    show ?thesis
    proof (cases e)
      case True
      from assms(5) show ?thesis using DEof True by cases (auto simp: body_of_def decode_def)
    next
      case False
      with mem_stream.eof_run [OF m assms(5,3)] DEof show ?thesis by (simp add: body_of_def)
    qed
  qed
qed

lemma ex_sized_run:
  "decode_run (buffered_read_mem script_transport (\<lambda>io buf n. n)) (decoder_length 2)
     ((buffered_new script_transport \<lparr>sc_in = [], sc_out = [], sc_window = 0\<rparr>) \<lparr>read_buf := [7, 8, 9]\<rparr>)
     ([7, 8] @ []) (decoder_length 0)
     ((buffered_new script_transport \<lparr>sc_in = [], sc_out = [], sc_window = 0\<rparr>) \<lparr>read_buf := [9]\<rparr>)"
proof (rule run_data [where bs = "[7, 8]"])
  show "decode (buffered_read_mem script_transport (\<lambda>io buf n. n)) (decoder_length 2)
     ((buffered_new script_transport \<lparr>sc_in = [], sc_out = [], sc_window = 0\<rparr>) \<lparr>read_buf := [7, 8, 9]\<rparr>) =
     Some (decoder_length 0, (buffered_new script_transport \<lparr>sc_in = [], sc_out = [], sc_window = 0\<rparr>)
       \<lparr>read_buf := [9]\<rparr>, Ready (Ok [7, 8]))"
    by (simp add: decode_def decoder_length_def buffered_read_mem_def Let_def)
qed (auto intro!: run_end simp: decode_def decoder_length_def)

theorem complete_body_is_exact_witness:
  "body_of (decoder_length 2) (buffered_stream script_input
     ((buffered_new script_transport \<lparr>sc_in = [], sc_out = [], sc_window = 0\<rparr> :: (script, unit) buffered)
        \<lparr>read_buf := [7, 8, 9]\<rparr>)) = Some ([7, 8], [9])"
  using complete_body_is_exact [OF script.transport_laws_axioms spare_exact _ _ ex_sized_run]
  by (simp add: decoder_wf_def decoder_length_def buffered_ok_def buffered_new_def strategy_ok_default
      buffered_stream_def script_input_def)

text \<open>The size line of a chunk under the slice reader, digit by digit.\<close>

lemma chunked_loop_digits:
  "list_all is_hex ds \<Longrightarrow>
   (case read_digits sz ds of
      Ok sz' \<Rightarrow> chunked_loop slice_read_mem CSize sz (ds @ inp) = chunked_loop slice_read_mem CSize sz' inp
    | Err e \<Rightarrow> \<exists>st' sz' s'. chunked_loop slice_read_mem CSize sz (ds @ inp) = Some (st', sz', s', Ready (Err e)))"
proof (induction ds arbitrary: sz)
  case (Cons b ds)
  then obtain d where sb: "size_byte sz b = add_digit sz d" using size_byte_hex [of b sz] by auto
  have l: "chunked_loop slice_read_mem CSize sz ((b # ds) @ inp) =
      (case size_byte sz b of
         (sz', Ok st) \<Rightarrow> if st = CEnd then Some (st, sz', ds @ inp, Ready (Ok []))
                          else chunked_loop slice_read_mem st sz' (ds @ inp)
       | (sz', Err e) \<Rightarrow> Some (CSize, sz', ds @ inp, Ready (Err e)))"
    by (subst chunked_loop.simps)
      (simp add: read_size_def with_byte_def slice_read_mem_def split: prod.split sum.split)
  have "snd (add_digit sz d) = Ok CSize \<or> (\<exists>e. snd (add_digit sz d) = Err e)" by (simp add: add_digit_eq(1))
  with sb Cons.prems Cons.IH [of "fst (size_byte sz b)"] l show ?case
    by (auto split: prod.split_asm sum.split_asm)
qed simp

text \<open>C16: Chunk sizes are read exactly or refused. The hexadecimal digits of a chunk size give their
  value when it is below \<open>2 ^ 64\<close>, in either case of the letters and with any number of leading
  zeros; a larger size is the error for an overflow, and never wraps around.\<close>

theorem chunk_size_exact_or_refused:
  assumes "list_all is_hex ds"
  shows "if hex_value 0 ds < 2 ^ 64
    then decode slice_read_mem decoder_chunked (ds @ inp) =
      decode slice_read_mem \<lparr>dec_kind = DChunked CSize (word_of_nat (hex_value 0 ds))\<rparr> inp
    else \<exists>d' rest. decode slice_read_mem decoder_chunked (ds @ inp) = Some (d', rest, Ready (Err size_overflow))"
  using chunked_loop_digits [OF assms, of 0 inp] read_digits_eq [OF assms, of 0]
  by (auto simp: decoder_chunked_def decode_chunked_eq)

theorem chunk_size_exact_or_refused_witness:
  "\<exists>d' rest. decode slice_read_mem decoder_chunked (ascii ''10000000000000000'' @ CRLF) =
     Some (d', rest, Ready (Err size_overflow))"
  using chunk_size_exact_or_refused [of "ascii ''10000000000000000''" CRLF]
  by (simp add: ascii_def is_hex_def hex_val_def)

end
