(* ===== verification/Conn_Stream.thy ===== *)
theory Conn_Stream
  imports Conn_Parse Body_Delivery
begin

text \<open>
  The outgoing stream of a connection over whole runs: every operation only appends to it, the
  pieces of a body appear in it as one well-framed body however writing is interleaved with
  flushing, and the header-read timeout and the order of interim responses, which do not work as
  intended.
\<close>

section \<open>One step\<close>

text \<open>
  An operation that may write to the headers buffer (a head, an interim response, the answer to a
  bad request) keeps the order of the stream only while nothing of the previous message is queued.
  \<open>can_write_head\<close> checks this, reading does not.
\<close>

definition orderly ::
    "('b \<Rightarrow> bytes) \<Rightarrow> ('tk \<Rightarrow> bytes) \<Rightarrow> ('ch \<Rightarrow> bytes) \<Rightarrow> ('io, 'b, 'tk, 'ch, 'hm, 'cfg, 'up) conn \<Rightarrow> bool" where
  "orderly cb ct cc c \<longleftrightarrow>
     (st_writing (c_state c) = WInit \<longrightarrow>
        (case st_reading (c_state c) of RInit \<Rightarrow> queue_empty cb ct cc c | RContinue _ \<Rightarrow> queue_empty cb ct cc c | _ \<Rightarrow> True))"

context conn_laws
begin

lemma a_chunk_content: "a_chunk E b \<Longrightarrow> cb b \<noteq> [] \<and> length (cb b) < 2 ^ 64"
  using bytes_okD(7) [OF bytes, of b] by (simp add: a_chunk_def)

lemma step_appends:
  assumes "conn_step E c c'" "conn_ok cb ct cc c" "orderly cb ct cc c"
  shows "\<exists>x. outgoing sent cb ct cc c' = outgoing sent cb ct cc c @ x \<and> conn_ok cb ct cc c'"
  using assms(1)
proof cases
  case (step_read_head p)
  then have "st_reading (c_state c) = RInit"
    by (auto simp: can_read_head_def split: reading.split_asm)
  with assms(2,3) step_read_head(2) show ?thesis by (intro poll_read_head_ok) (auto simp: orderly_def)
next
  case (step_read_body q)
  with assms(2,3) poll_read_body_ok show ?thesis by (fastforce simp: orderly_def)
next
  case step_drain
  with assms(2,3) drain_ok show ?thesis by (fastforce simp: orderly_def)
next
  case (step_read_keep_alive k)
  with assms(2) poll_read_keep_alive_ok show ?thesis by auto
next
  case (step_write_head head body)
  with can_write_head_init [of E c] can_headers_buf_queue [OF assms(2)] assms(2) show ?thesis
    by (intro write_head_ok) (auto simp: can_write_head_def split: if_split_asm writing.split_asm)
next
  case (step_write_full b head)
  with can_write_head_init [of E c] can_headers_buf_queue [OF assms(2)] assms(2) a_chunk_content show ?thesis
    by (intro write_full_msg_ok) (auto simp: can_write_head_def split: if_split_asm writing.split_asm)
next
  case (step_write_body b)
  then obtain e where "st_writing (c_state c) = WBody e"
    by (auto simp: can_write_body_def split: writing.split_asm)
  with step_write_body write_body_ok [OF assms(2) this] a_chunk_content show ?thesis by fastforce
next
  case (step_write_body_and_end b)
  then obtain e where "st_writing (c_state c) = WBody e"
    by (auto simp: can_write_body_def split: writing.split_asm)
  with step_write_body_and_end write_body_and_end_ok [OF assms(2) this] a_chunk_content show ?thesis by fastforce
next
  case (step_end_body res)
  show ?thesis
  proof (cases "\<exists>e. st_writing (c_state c) = WBody e")
    case True
    then obtain e where "st_writing (c_state c) = WBody e" by blast
    from end_body_ok [OF assms(2) this] step_end_body show ?thesis by (auto split: option.split_asm)
  next
    case False
    with step_end_body assms(2) show ?thesis by (auto simp: end_body_def split: writing.split_asm)
  qed
next
  case (step_flush f)
  with flush_ok [OF assms(2)] show ?thesis by auto
next
  case (step_shutdown f)
  with shutdown_ok [OF assms(2)] show ?thesis by auto
qed (use assms(2) in \<open>auto simp: close_read_def close_write_def disable_keep_alive_def take_error_def
  wants_read_again_def on_upgrade_def prepare_upgrade_def pending_upgrade_def conn_ok_def outgoing_def
  state_defs split: prod.split_asm\<close>)

lemma steps_append:
  assumes "(\<lambda>c c'. orderly cb ct cc c \<and> conn_step E c c')\<^sup>*\<^sup>* c c'" "conn_ok cb ct cc c"
  shows "\<exists>x. outgoing sent cb ct cc c' = outgoing sent cb ct cc c @ x \<and> conn_ok cb ct cc c'"
  using assms by (induction rule: rtranclp_induct) (use step_appends in fastforce)+

end

section \<open>A body, interleaved with flushing and reading\<close>

text \<open>
  The writing of a body as the dispatcher does it: a piece is written while more may follow, and
  between the pieces the connection is flushed and read from.
\<close>

inductive body_run ::
    "('io, 'b, 'tk, 'ch, 'inc, 'out, 'hm, 'uri, 'cfg) conn_env
     \<Rightarrow> ('io, 'b, 'tk, 'ch, 'hm, 'cfg, 'up) conn \<Rightarrow> 'b list \<Rightarrow> ('io, 'b, 'tk, 'ch, 'hm, 'cfg, 'up) conn \<Rightarrow> bool"
  for E where
  body_done: "body_run E c [] c"
| body_piece: "can_write_body c \<Longrightarrow> a_chunk E b \<Longrightarrow> write_body E c b = Some c1 \<Longrightarrow> body_run E c1 bs c'
    \<Longrightarrow> body_run E c (b # bs) c'"
| body_between: "conn_poll_flush E c = Some (c1, p) \<or> can_read_body c \<and> can_write_body c \<and> poll_read_body E c = Some (c1, q)
    \<Longrightarrow> body_run E c1 bs c' \<Longrightarrow> body_run E c bs c'"

context conn_laws
begin

lemma body_between_ok:
  assumes "conn_ok cb ct cc c"
    and "conn_poll_flush E c = Some (c1, p) \<or> can_read_body c \<and> can_write_body c \<and> poll_read_body E c = Some (c1, q)"
  shows "conn_ok cb ct cc c1 \<and> outgoing sent cb ct cc c1 = outgoing sent cb ct cc c \<and>
    (st_writing (c_state c1) = st_writing (c_state c) \<or> \<not> can_write_body c1)"
  using assms(2)
proof
  assume "conn_poll_flush E c = Some (c1, p)"
  with flush_ok [OF assms(1)] show ?thesis by auto
next
  assume r: "can_read_body c \<and> can_write_body c \<and> poll_read_body E c = Some (c1, q)"
  then have "st_writing (c_state c) \<noteq> WInit" by (auto simp: can_write_body_def)
  with poll_read_body_ok [OF assms(1), of c1 q] r show ?thesis by (auto split: reading.split_asm)
qed

lemma body_run_over:
  assumes "body_run E c bs c'" "conn_ok cb ct cc c" "\<not> can_write_body c"
  shows "bs = [] \<and> outgoing sent cb ct cc c' = outgoing sent cb ct cc c \<and> conn_ok cb ct cc c' \<and> \<not> can_write_body c'"
  using assms
proof induction
  case (body_between c c1 p q bs c')
  from body_between_ok [OF body_between.prems(1) body_between.hyps(1)] body_between.IH body_between.prems(2)
  show ?case by (auto simp: can_write_body_def)
qed simp_all

text \<open>Interleaved with whatever else, the pieces appear in order, each as its framing demands.\<close>

lemma body_run_ok:
  assumes "body_run E c bs c'" "conn_ok cb ct cc c" "st_writing (c_state c) = WBody e"
  shows "outgoing sent cb ct cc c' = outgoing sent cb ct cc c @ snd (wire_all (enc_kind e) (map cb bs)) \<and>
    conn_ok cb ct cc c' \<and>
    (\<forall>e'. st_writing (c_state c') = WBody e' \<longrightarrow> e' = e\<lparr>enc_kind := fst (wire_all (enc_kind e) (map cb bs))\<rparr>)"
  using assms
proof (induction arbitrary: e)
  case (body_piece c b c1 bs c')
  let ?k = "fst (wire_step (enc_kind e) (cb b))" and ?w = "snd (wire_step (enc_kind e) (cb b))"
  from write_body_ok [OF body_piece.prems, of b] a_chunk_content [OF body_piece.hyps(2)] body_piece.hyps(3) have
    c1: "conn_ok cb ct cc c1" "outgoing sent cb ct cc c1 = outgoing sent cb ct cc c @ ?w"
      "st_writing (c_state c1) = (let e' = e\<lparr>enc_kind := ?k\<rparr>
         in if encoder_is_eof e' then (if enc_is_last e then WClosed else WKeepAlive) else WBody e')" by auto
  show ?case
  proof (cases "can_write_body c1")
    case True
    with c1(3) have "st_writing (c_state c1) = WBody (e\<lparr>enc_kind := ?k\<rparr>)"
      by (auto simp: can_write_body_def Let_def split: if_split_asm)
    from body_piece.IH [OF c1(1) this] c1(2) show ?thesis by (simp add: split_beta)
  next
    case False
    from body_run_over [OF body_piece.hyps(4) c1(1) False] c1(2) show ?thesis
      by (auto simp: can_write_body_def split_beta split: writing.split_asm)
  qed
next
  case (body_between c c1 p q bs c')
  note c1 = body_between_ok [OF body_between.prems(1) body_between.hyps(1)]
  show ?case
  proof (cases "can_write_body c1")
    case True
    with c1 body_between.IH [of e] body_between.prems(2) show ?thesis by simp
  next
    case False
    from body_run_over [OF body_between.hyps(2) _ False] c1 show ?thesis
      by (auto simp: can_write_body_def split: writing.split_asm)
  qed
qed simp

end

end
