(* ===== verification/Conn_Example.thy ===== *)
theory Conn_Example
  imports Conn_Stream
begin

text \<open>
  A concrete environment of a server connection: byte lists as buffers, the scripted transport, a
  request parser that recognises the requests of a table, and the example header map. It meets
  every hypothesis about the environment, and its runs are computed.
\<close>

definition list_ops :: "bytes buf_ops" where
  "list_ops = \<lparr>b_remaining = length, b_chunk = id, b_advance = (\<lambda>b n. if n \<le> length b then Some (drop n b) else None)\<rparr>"

definition list_vec :: "bytes \<Rightarrow> nat \<Rightarrow> bytes list" where
  "list_vec b n = (if b = [] \<or> n = 0 then [] else [b])"

definition ex_bytes :: "(bytes, bytes, bytes) bytes_crate" where
  "ex_bytes =
     \<lparr>buf_b = list_ops, buf_take = list_ops, buf_chain = list_ops, mk_take = (\<lambda>b n. take n b),
      mk_chain = (\<lambda>cs b s. chunk_size_chunk cs @ b @ s), buf_static = list_ops,
      vec_b = list_vec, vec_take = list_vec, vec_chain = list_vec, vec_static = list_vec\<rparr>"

interpretation list_buf: buf_laws list_ops "\<lambda>b. b" "\<lambda>_. True"
  by unfold_locales (simp_all add: list_ops_def)

lemma list_vec_ok: "vec_ok list_vec (\<lambda>b. b)"
  by (auto simp: vec_ok_def list_vec_def)

lemma ex_bytes_ok: "bytes_ok ex_bytes (\<lambda>b. b) (\<lambda>b. b) (\<lambda>b. b)"
  using list_buf.buf_laws_axioms by (simp add: bytes_ok_def ex_bytes_def)

lemma ex_bytes_vec_ok: "bytes_vec_ok ex_bytes (\<lambda>b. b) (\<lambda>b. b) (\<lambda>b. b)"
  using list_vec_ok by (simp add: bytes_vec_ok_def ex_bytes_def)

text \<open>A parser that knows a table of complete heads.\<close>

fun table_lookup :: "(bytes \<times> hp_request) list \<Rightarrow> bytes \<Rightarrow> (hp_request \<times> nat) option" where
  "table_lookup [] bs = None"
| "table_lookup ((h, q) # tbl) bs =
     (if take (length h) bs = h then Some (q, length h) else table_lookup tbl bs)"

definition table_httparse :: "(bytes \<times> hp_request) list \<Rightarrow> unit httparse" where
  "table_httparse tbl =
     \<lparr>parse_request = (\<lambda>bs mx.
        case table_lookup tbl bs of
          Some (q, n) \<Rightarrow> (q, if length (hq_headers q) \<le> mx then Ok (Complete n) else Err HpTooManyHeaders)
        | None \<Rightarrow> (\<lparr>hq_method = None, hq_path = None, hq_version = None, hq_headers = []\<rparr>, Ok Partial)),
      parse_response = (\<lambda>cfg bs mx.
        (\<lparr>hr_version = None, hr_code = None, hr_headers = []\<rparr>, Ok Partial))\<rparr>"

definition ex_env ::
    "(bytes \<times> hp_request) list
     \<Rightarrow> (script, bytes, bytes, bytes, bytes request_line, nat, ex_map, bytes, unit) conn_env" where
  "ex_env tbl =
     \<lparr>e_io = script_transport, e_spare = (\<lambda>io buf n. n), e_cap = (\<lambda>_. 0), e_bytes = ex_bytes,
      e_cvec = (\<lambda>c n. list_vec (cursor_chunk c) n), e_rt = \<lparr>rt_now = 0, rt_elapsed = (\<lambda>_. True)\<rparr>,
      e_tx = server_transaction ex_http (table_httparse tbl) (ascii ''D''), e_http = ex_http\<rparr>"

lemma ex_conn_laws: "conn_laws (ex_env tbl) script_input sc_out (\<lambda>b. b) (\<lambda>b. b) (\<lambda>b. b)"
proof -
  have "vec_ok (\<lambda>c n. list_vec (cursor_chunk c) n) cursor_chunk"
    by (auto simp: vec_ok_def list_vec_def)
  then show ?thesis
    by (intro conn_laws.intro conn_laws_axioms.intro)
      (simp_all add: ex_env_def server_role.role_laws_axioms script.transport_laws_axioms ex_bytes_ok
        ex_bytes_vec_ok spare_exact)
qed

interpretation ex: conn_laws "ex_env tbl" script_input sc_out "\<lambda>b. b" "\<lambda>b. b" "\<lambda>b. b" for tbl
  by (rule ex_conn_laws)

section \<open>A computed run\<close>

text \<open>
  Two pipelined requests with a body of one byte, of which the second asks for \<open>100 Continue\<close>, and
  the response to the first, with the body \<open>hi\<close>.
\<close>

definition req1 :: bytes where
  "req1 = ascii ''POST / HTTP/1.1'' @ CRLF @ ascii ''Content-Length: 1'' @ CRLF @ CRLF"

definition req2 :: bytes where
  "req2 = ascii ''POST / HTTP/1.1'' @ CRLF @ ascii ''Content-Length: 1'' @ CRLF @
     ascii ''Expect: 100-continue'' @ CRLF @ CRLF"

definition req_table :: "(bytes \<times> hp_request) list" where
  "req_table =
     [(req1, \<lparr>hq_method = Some (ascii ''POST''), hq_path = Some (ascii ''/''), hq_version = Some 1,
               hq_headers = [HpHeader (17, 14) (33, 1)]\<rparr>),
      (req2, \<lparr>hq_method = Some (ascii ''POST''), hq_path = Some (ascii ''/''), hq_version = Some 1,
               hq_headers = [HpHeader (17, 14) (33, 1), HpHeader (36, 6) (44, 12)]\<rparr>)]"

definition resp_head :: "(nat, ex_map) message_head" where
  "resp_head = \<lparr>version = HTTP_11, subject = 200, headers = [], extensions = extensions_default\<rparr>"

definition resp :: bytes where
  "resp = ascii ''HTTP/1.1 200 OK'' @ CRLF @ ascii ''content-length: 2'' @ CRLF @ ascii ''date: D'' @ CRLF @ CRLF"

lemma req_nonempty: "req1 \<noteq> []" "req2 \<noteq> []" "resp \<noteq> []"
  by (simp_all add: req1_def req2_def resp_def ascii_def)

lemma req_table_parse:
  "1 \<le> mx \<Longrightarrow> parse_request (table_httparse req_table) (req1 @ x) mx =
     (\<lparr>hq_method = Some (ascii ''POST''), hq_path = Some (ascii ''/''), hq_version = Some 1,
       hq_headers = [HpHeader (17, 14) (33, 1)]\<rparr>, Ok (Complete 38))"
  "2 \<le> mx \<Longrightarrow> parse_request (table_httparse req_table) (req2 @ x) mx =
     (\<lparr>hq_method = Some (ascii ''POST''), hq_path = Some (ascii ''/''), hq_version = Some 1,
       hq_headers = [HpHeader (17, 14) (33, 1), HpHeader (36, 6) (44, 12)]\<rparr>, Ok (Complete 60))"
  by (simp_all add: table_httparse_def req_table_def)
    (simp_all add: req1_def req2_def ascii_def CRLF_def CR_def LF_def)

lemma req_slices:
  "slice_range req1 (17, 31) = Some (ascii ''Content-Length'')"
  "slice_range req1 (33, 34) = Some (ascii ''1'')"
  "slice_range req2 (17, 31) = Some (ascii ''Content-Length'')"
  "slice_range req2 (33, 34) = Some (ascii ''1'')"
  "slice_range req2 (36, 42) = Some (ascii ''Expect'')"
  "slice_range req2 (44, 56) = Some (ascii ''100-continue'')"
  "length req1 = 38" "length req2 = 60"
  by (simp_all add: slice_range_def req1_def req2_def ascii_def CRLF_def)

lemma req_values:
  "hn_from_bytes ex_http (ascii ''Expect'') = Some EXPECT"
  "content_length_parse (ascii ''1'') = Some 1" "(1 :: u64) \<le> MAX_LEN"
  "uri_parse ex_http (ascii ''/'') = Some (ascii ''/'')" "hm_new ex_http = []"
  "hm_append ex_http m n v = m @ [(n, v)]"
  "eq_ignore_ascii_case (ascii ''100-continue'') (ascii ''100-continue'')"
  by (simp_all add: ex_http_def ex_string_def to_ascii_lowercase_def ascii_def header_name_defs char_of_def bit_0
      content_length_parse_def from_digits_def checked_mul_def checked_add_def eq_ignore_ascii_case_def
      le_MAX_LEN_iff)

lemma req_parse:
  assumes "preserve_header_case ctx = False" "cached_headers ctx = None \<or> cached_headers ctx = Some []"
  shows "server_parse ex_http (table_httparse req_table) ctx (req1 @ x) =
   Some (ctx\<lparr>req_method := Some ''POST'', cached_headers := None\<rparr>, x,
     Ok (Some \<lparr>pm_head = \<lparr>version = HTTP_11, subject = RequestLine ''POST'' (ascii ''/''),
                 headers = [(CONTENT_LENGTH, ascii ''1'')], extensions = extensions_default\<rparr>,
               pm_decode = DecodedLength 1, pm_expect_continue = False, pm_keep_alive = True,
               pm_wants_upgrade = False\<rparr>))"
  "server_parse ex_http (table_httparse req_table) ctx (req2 @ x) =
   Some (ctx\<lparr>req_method := Some ''POST'', cached_headers := None\<rparr>, x,
     Ok (Some \<lparr>pm_head = \<lparr>version = HTTP_11, subject = RequestLine ''POST'' (ascii ''/''),
                 headers = [(CONTENT_LENGTH, ascii ''1''), (EXPECT, ascii ''100-continue'')],
                 extensions = extensions_default\<rparr>,
               pm_decode = DecodedLength 1, pm_expect_continue = True, pm_keep_alive = True,
               pm_wants_upgrade = False\<rparr>))"
  using assms
  by (auto simp: server_parse_def server_parse_head_def req_table_parse req_slices req_values ex_header_values
      MAX_URI_LEN_def MAX_HEADERS_def server_header_def req_append_def checked_new_def extensions_default_def Let_def)

lemma req_table_ok: "httparse_ok (table_httparse req_table)"
proof -
  have "take 38 bs = req1 \<Longrightarrow> 38 \<le> length bs" "take 60 bs = req2 \<Longrightarrow> 60 \<le> length bs" for bs
    using req_slices(7,8) by (metis length_take min.cobounded1)+
  then show ?thesis
    by (auto simp: httparse_ok_def table_httparse_def req_table_def req_slices hp_headers_ok_def
        split: if_split_asm)
qed

text \<open>The states of the run: the script that is left, the buffers, and what changes of the state.\<close>

definition ex_conn ::
    "bytes option list \<Rightarrow> bytes \<Rightarrow> bool \<Rightarrow> bytes \<Rightarrow> (bytes, bytes, bytes) encoded_buf list \<Rightarrow> string option
     \<Rightarrow> reading \<Rightarrow> writing \<Rightarrow> ka \<Rightarrow> bool \<Rightarrow> ex_map option
     \<Rightarrow> (script, bytes, bytes, bytes, ex_map, unit, unit) conn" where
  "ex_conn inp rb decr hdr q m r w k notify cached =
     \<lparr>c_io =
        \<lparr>flush_pipeline = False, b_io = \<lparr>sc_in = inp, sc_out = [], sc_window = 0\<rparr>, read_blocked = False,
         read_buf = rb, read_buf_strategy = Adaptive decr 8192 417792,
         write_buf = \<lparr>wb_headers = \<lparr>cur_bytes = hdr, cur_pos = 0\<rparr>, wb_max_buf_size = DEFAULT_MAX_BUFFER_SIZE,
                      wb_queue = \<lparr>bufs = q\<rparr>, wb_strategy = Queue\<rparr>\<rparr>,
      c_state =
        \<lparr>st_allow_half_close = False, st_cached_headers = cached, st_error = None, st_keep_alive = k,
         st_method = m, st_h1_parser_config = (), st_h1_header_read_timeout = None,
         st_h1_header_read_timeout_fut = None, st_h1_header_read_timeout_running = False,
         st_preserve_header_case = False, st_title_case_headers = False, st_h09_responses = False,
         st_notify_read = notify, st_reading = r, st_writing = w, st_upgrade = None,
         st_version = HTTP_11\<rparr>\<rparr>"

lemma record_small: "n < 4096 \<Longrightarrow> strategy_record (Adaptive decr 8192 mx) n = Adaptive (\<not> decr) 8192 mx"
proof -
  assume n: "n < 4096"
  have "unat (prev_power_of_two 8192) = 2 ^ 12" by (rule unat_prev_power_of_two) simp_all
  then have p: "prev_power_of_two 8192 = 4096" by (simp add: word_unat_eq_iff)
  have "\<not> 8192 \<le> n" using n by (simp add: word_less_nat_alt word_le_nat_alt)
  with n p show ?thesis by (simp add: INIT_BUFFER_SIZE_def max_def word_less_nat_alt word_le_nat_alt)
qed

lemma one_small: "(1 :: u64) < 4096"
  by (simp add: word_less_nat_alt)

lemmas ex_run_defs =
  ex_conn_def ex_env_def server_transaction_def parse_context_def parse_headers_def poll_read_from_io_def
  script_transport_def Let_def req_nonempty req_slices restore_context_def state_busy_def ka_and_def
  record_small one_small ZERO_def decoder_new_of req_values

lemmas ex_body_defs =
  poll_read_body_def read_body_decoded_def decode_def decoder_length_def buffered_read_mem_def
  conn_try_keep_alive_def state_try_keep_alive_def state_idle_eq maybe_notify_def can_write_body_def
  decoder_is_eof_def should_read_first_def set_headers_buf_def headers_buf_def

lemma ex_start:
  "conn_new (ex_env tbl) () \<lparr>sc_in = inp, sc_out = [], sc_window = 0\<rparr> =
   ex_conn inp [] False [] [] None RInit WInit Busy False None"
  by (simp add: ex_run_defs conn_new_def buffered_new_def strategy_default_def with_max_def size_defs
      write_buf_new_def cursor_new_def buf_list_new_def)

lemma ex_read_head1:
  "\<exists>p. conn_poll_read_head (ex_env req_table) (ex_conn (Some req1 # inp) [] d [] [] None RInit WInit Busy n None) =
   Some (ex_conn inp [] (\<not> d) [] [] (Some ''POST'') (RBody (decoder_length 1)) WInit Busy n None, p)"
  by (simp add: conn_poll_read_head_def ex_run_defs buffered_parse.simps req_parse(1) [where x = "[]", simplified]
      head_received_def del: strategy_record.simps)

lemma ex_encode:
  "server_encode ex_http (ascii ''D'') \<lparr>enc_head = resp_head, enc_body = Some (Known 2), enc_keep_alive = True,
     enc_req_method = Some ''POST'', enc_title_case_headers = False\<rparr> [] =
   Some (resp_head, resp, Ok (encoder_length 2))"
  by code_simp

lemma ex_write:
  "write_full_msg (ex_env tbl) (ex_conn inp rb d [] [] (Some ''POST'') r WInit Busy n None) resp_head (ascii ''hi'') =
   Some (ex_conn inp rb d resp [BufExact (ascii ''hi'')] (Some ''POST'') r WKeepAlive Busy n (Some []))"
proof -
  have "as_u64 (length (ascii ''hi'')) = 2" by (simp add: ascii_def as_u64_def)
  then show ?thesis
    by (simp add: write_full_msg_def encode_head_def ex_run_defs ex_bytes_def list_ops_def enforce_version_def
        should_read_first_def wants_keep_alive_def headers_buf_def ex_encode set_headers_buf_def
        encoder_is_eof_def encoder_length_def encoder_new_def danger_full_buf_def buffer_exact_def
        write_buf_buffer_def buf_list_push_def encoder_is_last_def)
      (simp add: resp_head_def)
qed

lemma ex_read_body1:
  "poll_read_body (ex_env tbl)
     (ex_conn (Some (a # req2) # inp) [] d h q m (RBody (decoder_length 1)) WKeepAlive Busy n ch) =
   Some (ex_conn inp req2 (\<not> d) h q None RInit WInit Idle True ch, Ready (Some (Ok [a])))"
  by (simp add: ex_run_defs ex_body_defs del: strategy_record.simps)

lemma ex_read_head2:
  "\<exists>p. conn_poll_read_head (ex_env req_table) (ex_conn inp req2 d h q None RInit WInit Idle n (Some [])) =
   Some (ex_conn inp [] d h q (Some ''POST'') (RContinue (decoder_length 1)) WInit Busy n None, p)"
  by (simp add: conn_poll_read_head_def ex_run_defs buffered_parse.simps req_parse(2) [where x = "[]", simplified]
      head_received_def del: strategy_record.simps)

lemma ex_read_body2:
  "poll_read_body (ex_env tbl) (ex_conn (Some [a] # inp) [] d h q m (RContinue (decoder_length 1)) WInit Busy n ch) =
   Some (ex_conn inp [] (\<not> d) (h @ CONTINUE) q m RKeepAlive WInit Busy n ch, Ready (Some (Ok [a])))"
  by (simp add: ex_run_defs ex_body_defs del: strategy_record.simps)

lemma ex_guards:
  "can_read_head (ex_env tbl) (ex_conn inp rb d h q m RInit w k n ch)"
  "can_read_body (ex_conn inp rb d h q m (RBody x) w k n ch)"
  "can_read_body (ex_conn inp rb d h q m (RContinue x) w k n ch)"
  "can_write_head (ex_env tbl) (ex_conn inp rb d h [] m r WInit k n ch)"
  "a_chunk (ex_env tbl) (ascii ''hi'')"
  by (simp_all add: can_read_head_def can_read_body_def can_write_head_def ex_conn_def ex_env_def
      should_read_first_def server_transaction_def can_headers_buf_def buf_list_remaining_def a_chunk_def
      ex_bytes_def list_ops_def ascii_def)

lemma ex_outgoing:
  "outgoing sc_out (\<lambda>b. b) (\<lambda>b. b) (\<lambda>b. b) (ex_conn inp rb d h q m r w k n ch) =
   h @ concat (map (encoded_content (\<lambda>b. b) (\<lambda>b. b) (\<lambda>b. b)) q)"
  by (simp add: outgoing_def pipe_def ex_conn_def wb_content_def cursor_chunk_def list_content_def)


end
