(* ===== verification/Conn_Timer.thy ===== *)
theory Conn_Timer
  imports Conn_Parse
begin

text \<open>
  The header-read timeout of a connection. The flag that says that the timer is running is read by
  \<open>Buffered::parse\<close> and \<open>role::parse_headers\<close>, and both reset it, but nothing sets it: once it is
  off it stays off, so that the timeout never fires.
\<close>

definition quiet :: "('hm, 'cfg, 'up) state \<Rightarrow> bool" where
  "quiet s \<longleftrightarrow> \<not> st_h1_header_read_timeout_running s \<and> st_error s \<noteq> Some new_header_timeout"

lemma quiet_frame [simp]:
  "quiet (s\<lparr>st_keep_alive := k\<rparr>) = quiet s" "quiet (s\<lparr>st_reading := r\<rparr>) = quiet s"
  "quiet (s\<lparr>st_writing := w\<rparr>) = quiet s" "quiet (s\<lparr>st_notify_read := n\<rparr>) = quiet s"
  "quiet (s\<lparr>st_method := m\<rparr>) = quiet s" "quiet (s\<lparr>st_cached_headers := h\<rparr>) = quiet s"
  "quiet (s\<lparr>st_version := v\<rparr>) = quiet s" "quiet (s\<lparr>st_upgrade := u\<rparr>) = quiet s"
  "quiet (s\<lparr>st_h09_responses := b\<rparr>) = quiet s"
  "quiet s \<Longrightarrow> quiet (s\<lparr>st_error := None\<rparr>)"
  "quiet s \<Longrightarrow> e \<noteq> new_header_timeout \<Longrightarrow> quiet (s\<lparr>st_error := Some e\<rparr>)"
  by (simp_all add: quiet_def)

lemma quiet_states [simp]:
  "quiet (state_close s) = quiet s" "quiet (state_close_read s) = quiet s"
  "quiet (state_close_write s) = quiet s" "quiet (state_disable_keep_alive s) = quiet s"
  "quiet (state_busy s) = quiet s" "quiet (state_idle T s) = quiet s"
  by (simp_all add: state_close_def state_close_read_def state_close_write_def state_disable_keep_alive_def
      state_busy_def state_idle_eq split: ka.split)

lemma quiet_try_keep_alive [simp]: "quiet (state_try_keep_alive T s) = quiet s"
  using state_try_keep_alive_cases [of T s] by auto

lemma new_io_not_timeout [simp]: "new_io e \<noteq> new_header_timeout"
  by simp

lemma quiet_maybe_notify:
  assumes "quiet (c_state c)"
  shows "quiet (c_state (maybe_notify E c))"
proof -
  obtain io p where "poll_read_from_io (e_io E) (e_spare E) (c_io c) = (io, p)" by fastforce
  with assms show ?thesis
    by (auto simp: maybe_notify_def close_read_def Let_def split: poll.split sum.split)
qed

lemma quiet_conn_try_keep_alive: "quiet (c_state c) \<Longrightarrow> quiet (c_state (conn_try_keep_alive E c))"
  by (simp add: conn_try_keep_alive_def quiet_maybe_notify)

lemma quiet_read_body_decoded:
  assumes "quiet (c_state c)" "read_body_decoded E d c = Some (c', p)"
  shows "quiet (c_state c')"
  using assms
  by (auto simp: read_body_decoded_def Let_def intro!: quiet_conn_try_keep_alive
      split: option.split_asm poll.split_asm sum.split_asm if_split_asm)

lemma quiet_poll_read_body:
  assumes "quiet (c_state c)" "poll_read_body E c = Some (c', p)"
  shows "quiet (c_state c')"
  using assms by (auto simp: poll_read_body_def Let_def split: reading.split_asm if_split_asm
      dest!: quiet_read_body_decoded [rotated])

lemma quiet_encode_head:
  assumes "role_laws (e_tx E)" "quiet (c_state c)" "encode_head E c head body = Some (c', r)"
  shows "quiet (c_state c')"
proof -
  let ?c1 = "if \<not> should_read_first (e_tx E) then on_state state_busy c else c"
  obtain c2 head2 where v: "enforce_version E ?c1 head = (c2, head2)" by fastforce
  have "quiet (c_state ?c1)" using assms(2) by simp
  with v have c2: "quiet (c_state c2)"
    by (auto simp: enforce_version_def fix_keep_alive_def Let_def split: if_split_asm version.split_asm)
  have user: "is_user e \<Longrightarrow> e \<noteq> new_header_timeout" for e
    by (auto simp: is_user_def error_new_defs)
  show ?thesis
    using assms(3) v c2 user role_laws.encode_error [OF assms(1)]
    by (auto simp: encode_head_def Let_def split: option.split_asm sum.split_asm)
qed

lemma quiet_write_head:
  assumes "role_laws (e_tx E)" "quiet (c_state c)" "write_head E c head body = Some c'"
  shows "quiet (c_state c')"
proof -
  from assms(3) obtain c1 r where e: "encode_head E c head body = Some (c1, r)"
    by (auto simp: write_head_def split: option.split_asm)
  from e assms(3) quiet_encode_head [OF assms(1,2) e] show ?thesis
    by (auto simp: write_head_def split: option.split_asm)
qed

lemma quiet_write_full_msg:
  assumes "role_laws (e_tx E)" "quiet (c_state c)" "write_full_msg E c head body = Some c'"
  shows "quiet (c_state c')"
proof -
  from assms(3) obtain c1 r where e: "encode_head E c head (Some (Known (as_u64 (b_remaining (buf_b (e_bytes E)) body)))) = Some (c1, r)"
    by (auto simp: write_full_msg_def split: option.split_asm)
  from e assms(3) quiet_encode_head [OF assms(1,2) e] show ?thesis
    by (auto simp: write_full_msg_def split: option.split_asm)
qed

lemma quiet_on_read_head_error:
  assumes "role_laws (e_tx E)" "quiet (c_state c)" "e \<noteq> new_header_timeout"
    and "on_read_head_error E c e = Some (c', p)"
  shows "quiet (c_state c') \<and> p \<noteq> Ready (Some (Err new_header_timeout))"
proof -
  define c1 where "c1 = (close_read c)\<lparr>c_io := consume_leading_lines (c_io (close_read c))\<rparr>"
  have c1: "quiet (c_state c1)" using assms(2) by (simp add: c1_def close_read_def)
  have pe: "quiet (c_state c2) \<and> res \<noteq> Err new_header_timeout" if "on_parse_error E c1 e = Some (c2, res)" for c2 res
    using that c1 assms(3) quiet_write_head [OF assms(1), of "on_state (\<lambda>s. s\<lparr>st_cached_headers := None\<rparr>) c1"]
    by (auto simp: on_parse_error_def new_version_h2_def new_header_timeout_def error_new_def
        split: if_split_asm option.split_asm Option.bind_split_asm)
  from assms(4) consider "c' = close_write c1" "p = Ready None"
    | res where "on_parse_error E c1 e = Some (c', res)"
        "p = (case res of Ok _ \<Rightarrow> Pending | Err e \<Rightarrow> Ready (Some (Err e)))"
    by (auto simp: on_read_head_error_def Let_def c1_def [symmetric] split: if_split_asm)
  then show ?thesis
  proof cases
    case 1
    with c1 show ?thesis by (simp add: close_write_def)
  next
    case (2 res)
    with pe [OF 2(1)] show ?thesis by (cases res) auto
  qed
qed

lemma quiet_poll_read_head:
  assumes "role_laws (e_tx E)" "quiet (c_state c)" "conn_poll_read_head E c = Some (c', p)"
  shows "quiet (c_state c') \<and> p \<noteq> Ready (Some (Err new_header_timeout))"
proof -
  from assms(3) obtain io ctx q where
    q: "buffered_parse (e_io E) (e_spare E) (e_rt E) (parse_headers (e_rt E) (t_parse (e_tx E)))
      (c_io c) (parse_context (c_state c)) = Some (io, ctx, q)"
    by (auto simp: conn_poll_read_head_def split: option.split_asm)
  from buffered_parse_keeps [OF q _ parse_headers_timer [OF assms(1)], where I = "\<lambda>_. True"] assms(2)
  have ctx: "\<not> h1_header_read_timeout_running ctx" "q \<noteq> Ready (Err new_header_timeout)"
    by (simp_all add: reads_keep_def parse_context_def quiet_def)
  let ?c = "c\<lparr>c_io := io, c_state := restore_context (c_state c) ctx\<rparr>"
  have c: "quiet (c_state ?c)" using ctx(1) assms(2) by (simp add: quiet_def restore_context_def)
  from q assms(3) consider "c' = ?c" "p = Pending"
    | e where "q = Ready (Err e)" "on_read_head_error E ?c e = Some (c', p)"
    | msg w where "head_received E ?c msg = (c', w)" "\<exists>x. p = Ready (Some (Ok x))"
    by (auto simp: conn_poll_read_head_def Let_def split: poll.split_asm sum.split_asm prod.split_asm)
  then show ?thesis
  proof cases
    case 1
    with c show ?thesis by simp
  next
    case (2 e)
    with ctx(2) have "e \<noteq> new_header_timeout" by simp
    from quiet_on_read_head_error [OF assms(1) c this 2(2)] show ?thesis .
  next
    case (3 msg w)
    from head_received_state [OF 3(1)] obtain s where
      s: "st_h1_header_read_timeout_running s = st_h1_header_read_timeout_running (c_state ?c)"
        "st_error s = st_error (c_state ?c)"
        "c' = ?c\<lparr>c_state := s\<rparr> \<or> c' = conn_try_keep_alive E (?c\<lparr>c_state := s\<rparr>)" by blast
    then have "quiet (c_state (?c\<lparr>c_state := s\<rparr>))" using c unfolding quiet_def by simp
    with s(3) 3(2) show ?thesis by (auto intro: quiet_conn_try_keep_alive)
  qed
qed

text \<open>Every operation of the connection keeps the timer off.\<close>

lemma quiet_conn_step:
  assumes "role_laws (e_tx E)" "conn_step E c c'" "quiet (c_state c)"
  shows "quiet (c_state c')"
  using assms(2)
proof cases
  case step_drain
  then obtain c1 p where b: "poll_read_body E c = Some (c1, p)"
    by (auto simp: poll_drain_or_close_read_def)
  with step_drain(2) quiet_poll_read_body [OF assms(3) b] show ?thesis
    by (cases "st_reading (c_state c1)") (auto simp: poll_drain_or_close_read_def close_read_def)
next
  case (step_flush f)
  with assms(3) show ?thesis
    by (auto simp: conn_poll_flush_def intro!: quiet_conn_try_keep_alive
        split: option.split_asm poll.split_asm sum.split_asm)
next
  case (step_read_keep_alive k)
  have "quiet (c_state c1)" if "force_io_read E c = (c1, q)" for c1 q
    using that assms(3) by (auto simp: force_io_read_def split: prod.split_asm poll.split_asm sum.split_asm)
  with step_read_keep_alive assms(3) show ?thesis
    by (auto simp: poll_read_keep_alive_def mid_message_detect_eof_def require_empty_read_def
        split: prod.split_asm poll.split_asm sum.split_asm if_split_asm)
qed (use assms(3) in \<open>auto simp: write_body_def write_body_and_end_def end_body_def conn_buffer_state
    conn_poll_shutdown_def close_read_def close_write_def disable_keep_alive_def take_error_def
    wants_read_again_def on_upgrade_def prepare_upgrade_def pending_upgrade_def
    dest: quiet_poll_read_head [OF assms(1)] quiet_poll_read_body quiet_write_head [OF assms(1)]
      quiet_write_full_msg [OF assms(1)]
    split: writing.split_asm Option.bind_split_asm option.split_asm sum.split_asm prod.split_asm\<close>)

lemma quiet_conn_steps:
  assumes "role_laws (e_tx E)" "(conn_step E)\<^sup>*\<^sup>* c c'" "quiet (c_state c)"
  shows "quiet (c_state c')"
  using assms(2,3) by (induction rule: rtranclp_induct) (auto intro: quiet_conn_step [OF assms(1)])

end
