(* ===== verification/Conn_Props.thy ===== *)
theory Conn_Props
  imports Conn_Example Conn_Timer
begin

text \<open>The properties of the HTTP/1 connection, with witnesses in the example environment.\<close>

section \<open>Reading heads\<close>

lemma head_loop_ok:
  assumes "transport_laws IO input sent" "spare_ok spare" "buffered_ok b"
    and "\<And>ctx bs. T ctx bs \<noteq> None" "timer_kept (parse_headers rt T)"
  shows "\<exists>b' ctx' p. buffered_parse IO spare rt (parse_headers rt T) b ctx = Some (b', ctx', p) \<and>
    strategy_max (read_buf_strategy b') = strategy_max (read_buf_strategy b) \<and>
    (p = Pending \<longrightarrow> length (read_buf b') < unat (strategy_max (read_buf_strategy b)))"
proof -
  have "parse_headers rt T ctx bs \<noteq> None" for ctx bs using assms(4) by (simp add: parse_headers_def Let_def)
  from transport_laws.buffered_parse_returns [where ph = "parse_headers rt T", OF assms(1,2) this assms(3)] obtain b' ctx' p where
    p: "buffered_parse IO spare rt (parse_headers rt T) b ctx = Some (b', ctx', p)" by blast
  let ?I = "\<lambda>x. strategy_max (read_buf_strategy x) = strategy_max (read_buf_strategy b)"
  have "reads_keep IO spare ?I"
    unfolding reads_keep_def by (auto dest!: poll_read_from_io_frame)
  from buffered_parse_keeps [OF p this assms(5)] buffered_parse_bounded [OF p] p show ?thesis by simp
qed

lemma role_timer_kept:
  "timer_kept (parse_headers rt (server_parse H P))" "timer_kept (parse_headers rt (client_parse H P))"
  using parse_headers_timer [OF server_role.role_laws_axioms, of rt H P]
    parse_headers_timer [OF client_role.role_laws_axioms, of rt H P]
  by (simp_all add: server_transaction_def client_transaction_def)

text \<open>C12: Reading the head of a message always comes to a result. Over any transport, and with any
  parser that keeps its documentation, the loop of \<open>Buffered::parse\<close> ends, for requests and for
  responses; while the head is incomplete fewer bytes than the configured maximum are buffered, and
  the maximum itself never changes.\<close>

theorem head_loop_returns_bounded:
  assumes "transport_laws IO input sent" "spare_ok spare" "httparse_ok P" "buffered_ok b"
  shows "(\<exists>b' ctx' p. buffered_parse IO spare rt (parse_headers rt (server_parse H P)) b ctx = Some (b', ctx', p) \<and>
      strategy_max (read_buf_strategy b') = strategy_max (read_buf_strategy b) \<and>
      (p = Pending \<longrightarrow> length (read_buf b') < unat (strategy_max (read_buf_strategy b)))) \<and>
    (\<exists>b' ctx' p. buffered_parse IO spare rt (parse_headers rt (client_parse H P)) b ctx = Some (b', ctx', p) \<and>
      strategy_max (read_buf_strategy b') = strategy_max (read_buf_strategy b) \<and>
      (p = Pending \<longrightarrow> length (read_buf b') < unat (strategy_max (read_buf_strategy b))))"
  using head_loop_ok [OF assms(1,2,4) _ role_timer_kept(1) [of rt H P], of ctx]
    head_loop_ok [OF assms(1,2,4) _ role_timer_kept(2) [of rt H P], of ctx]
    server_parse_returns [OF assms(3), of H] client_parse_returns [OF assms(3), of H]
  by fastforce

theorem head_loop_returns_bounded_witness:
  "\<exists>b' ctx' p. buffered_parse script_transport (\<lambda>io buf n. n) \<lparr>rt_now = 0, rt_elapsed = (\<lambda>_. True)\<rparr>
      (parse_headers \<lparr>rt_now = 0, rt_elapsed = (\<lambda>_. True)\<rparr> (server_parse ex_http (table_httparse req_table)))
      (buffered_new script_transport \<lparr>sc_in = [Some (take 20 req1), None], sc_out = [], sc_window = 0\<rparr>
         :: (script, unit) buffered) ex_ctx = Some (b', ctx', p) \<and>
    (p = Pending \<longrightarrow> length (read_buf b') < 417792)"
proof -
  let ?b = "buffered_new script_transport \<lparr>sc_in = [Some (take 20 req1), None], sc_out = [], sc_window = 0\<rparr>
    :: (script, unit) buffered"
  have b: "buffered_ok ?b" by (simp add: buffered_ok_def buffered_new_def strategy_ok_default)
  have "unat (strategy_max (read_buf_strategy ?b)) = 417792"
    by (simp add: buffered_new_def strategy_default_def with_max_def size_defs)
  with head_loop_returns_bounded [OF script.transport_laws_axioms spare_exact req_table_ok b,
      of "\<lparr>rt_now = 0, rt_elapsed = (\<lambda>_. True)\<rparr>" ex_http ex_ctx] show ?thesis by auto
qed

section \<open>The outgoing stream\<close>

text \<open>C10: No operation takes back or reorders what was written. Over any run of the connection (heads,
  bodies in pieces, flushes that the transport accepts in part, reads, errors and their answers) the
  bytes sent and still buffered only grow at the end, as long as the headers buffer is not written to
  while part of an earlier message is queued.\<close>

theorem outgoing_only_grows:
  assumes "conn_laws E input sent cb ct cc" "conn_ok cb ct cc c"
    and "(\<lambda>c c'. orderly cb ct cc c \<and> conn_step E c c')\<^sup>*\<^sup>* c c'"
  shows "\<exists>x. outgoing sent cb ct cc c' = outgoing sent cb ct cc c @ x \<and> conn_ok cb ct cc c'"
  using conn_laws.steps_append [OF assms(1,3,2)] .

lemma ex_conn_ok:
  "(\<forall>b \<in> set q. encoded_content (\<lambda>b. b) (\<lambda>b. b) (\<lambda>b. b) b \<noteq> []) \<Longrightarrow> \<forall>e. w = WBody e \<longrightarrow> \<not> encoder_is_eof e \<Longrightarrow>
   conn_ok (\<lambda>b. b) (\<lambda>b. b) (\<lambda>b. b) (ex_conn inp rb d h q m r w k n ch)"
  by (simp add: conn_ok_def ex_conn_def wb_ok_def cursor_ok_def list_inv_def buffered_ok_def size_defs)

text \<open>A response with the body \<open>hi\<close> is written to a fresh connection.\<close>

theorem outgoing_only_grows_witness:
  "\<exists>x. resp @ ascii ''hi'' = [] @ x \<and>
     conn_ok (\<lambda>b. b) (\<lambda>b. b) (\<lambda>b. b)
       (ex_conn [] [] False resp [BufExact (ascii ''hi'')] (Some ''POST'') RKeepAlive WKeepAlive Busy False (Some []))"
proof -
  let ?c = "ex_conn [] [] False [] [] (Some ''POST'') RKeepAlive WInit Busy False None"
  let ?c' = "ex_conn [] [] False resp [BufExact (ascii ''hi'')] (Some ''POST'') RKeepAlive WKeepAlive Busy False (Some [])"
  have "conn_step (ex_env []) ?c ?c'" by (rule step_write_full [OF ex_guards(4,5) ex_write])
  moreover have "orderly (\<lambda>b. b) (\<lambda>b. b) (\<lambda>b. b) ?c" by (simp add: orderly_def ex_conn_def)
  ultimately have "(\<lambda>c c'. orderly (\<lambda>b. b) (\<lambda>b. b) (\<lambda>b. b) c \<and> conn_step (ex_env []) c c')\<^sup>*\<^sup>* ?c ?c'" by blast
  from outgoing_only_grows [OF ex_conn_laws ex_conn_ok this] show ?thesis by (simp add: ex_outgoing)
qed



section \<open>The life of a connection\<close>

text \<open>C14: Over any sequence of operations, a direction that has been closed stays closed and
  keep-alive that has been disabled stays disabled, so that a connection which one side gave up
  is never handed out as reusable.\<close>

theorem conn_closed_is_final:
  assumes "(conn_step E)\<^sup>*\<^sup>* c c'"
  shows "(is_read_closed c \<longrightarrow> is_read_closed c') \<and> (is_write_closed c \<longrightarrow> is_write_closed c') \<and>
    (\<not> wants_keep_alive (c_state c) \<longrightarrow> \<not> wants_keep_alive (c_state c'))"
  using life_final [OF conn_steps_live [OF assms]] unfolding life_of_queries by blast

theorem conn_closed_is_final_witness:
  "is_read_closed (close_write (close_read (ex_conn [] [] False [] [] None RInit WInit Busy False None)))"
proof -
  let ?c = "close_read (ex_conn [] [] False [] [] None RInit WInit Busy False None)"
  have "(conn_step (ex_env []))\<^sup>*\<^sup>* ?c (close_write ?c)" using step_close_write by blast
  moreover have "is_read_closed ?c"
    by (simp add: is_read_closed_def close_read_def state_is_read_closed_def state_close_read_def)
  ultimately show ?thesis using conn_closed_is_final by blast
qed



section \<open>The header-read timeout\<close>

text \<open>C23: The header-read timeout never fires. Whatever timeout is configured, however long the peer
  takes, and whatever the connection does, its timer is never marked as running, reading a head never
  reports the timeout, and the connection never records it as its error.\<close>

theorem header_timeout_never_fires:
  assumes "e_tx E = server_transaction H P date"
    and "(conn_step E)\<^sup>*\<^sup>* (set_http1_header_read_timeout (conn_new E cfg io) timeout) c"
    and "conn_poll_read_head E c = Some (c', p)"
  shows "\<not> st_h1_header_read_timeout_running (c_state c') \<and> p \<noteq> Ready (Some (Err new_header_timeout)) \<and>
    st_error (c_state c') \<noteq> Some new_header_timeout"
proof -
  have r: "role_laws (e_tx E)" unfolding assms(1) by (rule server_role.role_laws_axioms)
  have "quiet (c_state (set_http1_header_read_timeout (conn_new E cfg io) timeout))"
    by (simp add: quiet_def set_http1_header_read_timeout_def conn_new_def)
  from quiet_poll_read_head [OF r quiet_conn_steps [OF r assms(2) this] assms(3)] show ?thesis
    by (simp add: quiet_def)
qed

text \<open>Half a request, a timeout of zero and a clock on which every deadline has passed.\<close>

theorem header_timeout_never_fires_witness:
  "\<exists>c' p. conn_poll_read_head (ex_env req_table)
     (set_http1_header_read_timeout (conn_new (ex_env req_table) ()
        \<lparr>sc_in = [Some (take 20 req1), None], sc_out = [], sc_window = 0\<rparr>
        :: (script, bytes, bytes, bytes, ex_map, unit, unit) conn) 0) = Some (c', p) \<and>
     p \<noteq> Ready (Some (Err new_header_timeout))"
proof -
  let ?c = "set_http1_header_read_timeout (conn_new (ex_env req_table) ()
    \<lparr>sc_in = [Some (take 20 req1), None], sc_out = [], sc_window = 0\<rparr>
    :: (script, bytes, bytes, bytes, ex_map, unit, unit) conn) 0"
  let ?rt = "\<lparr>rt_now = 0, rt_elapsed = (\<lambda>_. True)\<rparr>"
  have "table_lookup req_table (take 20 req1) = None"
    by (simp add: req_table_def req_slices) (simp add: req1_def req2_def ascii_def CRLF_def)
  then have "server_parse ex_http (table_httparse req_table) ctx (take 20 req1) = Some (ctx, take 20 req1, Ok None)" for ctx
    by (simp add: server_parse_def table_httparse_def)
  moreover have "take 20 req1 \<noteq> []" "length (take 20 req1) = 20" by (simp_all add: req_nonempty req_slices)
  moreover have "(20 :: u64) < 4096" by (simp add: word_less_nat_alt)
  ultimately obtain c' where c': "conn_poll_read_head (ex_env req_table) ?c = Some (c', Pending)"
    unfolding ex_start
    by (simp add: conn_poll_read_head_def set_http1_header_read_timeout_def ex_run_defs buffered_parse.simps
        record_small del: strategy_record.simps take_eq_Nil)
  have "e_tx (ex_env req_table) = server_transaction ex_http (table_httparse req_table) (ascii ''D'')"
    by (simp add: ex_env_def)
  from header_timeout_never_fires [OF this rtranclp.rtrancl_refl c'] c' show ?thesis by blast
qed

end
