(* ===== verification/Conn_Live.thy ===== *)
theory Conn_Live
  imports Conn_Parse Conn_Example
begin

text \<open>
  Reading from a server connection always comes to a result: neither the parse loop nor a decoder runs
  forever, and nothing in the handling of a malformed request panics, the encoding of the error
  response included.
\<close>

section \<open>Encoding returns\<close>

text \<open>
  The documentation of \<open>HeaderMap::drain\<close>: the first item has a name, and an item without one
  belongs to the name before it.
\<close>

definition drain_named :: "('hm, 'uri, 'z) http_scheme \<Rightarrow> bool" where
  "drain_named H \<longleftrightarrow> hm_drain H (hm_new H) = [] \<and> (\<forall>h. hm_drain H h = [] \<or> fst (hd (hm_drain H h)) \<noteq> None)"

lemma encode_header_cur_name:
  "encode_header H W env name val a = Ok a' \<Longrightarrow> ea_cur_name a' = ea_cur_name a"
  by (auto simp: encode_header_def encode_content_length_def encode_transfer_encoding_def encode_connection_def
      begin_line_def write_line_def Let_def
      split: if_split_asm option.split_asm prod.split_asm body_length.split_asm)

lemma encode_header_loop_returns:
  "ea_cur_name a \<noteq> None \<or> drained = [] \<or> fst (hd drained) \<noteq> None \<Longrightarrow>
   \<exists>r. encode_header_loop H W env drained a = Some r"
proof (induction drained arbitrary: a)
  case (Cons d drained)
  obtain opt v where d: "d = (opt, v)" by fastforce
  define a1 where "a1 = (case opt of
      Some n \<Rightarrow> (handle_is_name_written (a\<lparr>ea_cur_name := Some n\<rparr>))\<lparr>ea_is_name_written := False\<rparr>
    | None \<Rightarrow> a)"
  from Cons.prems have "ea_cur_name a1 \<noteq> None"
    by (cases opt) (auto simp: a1_def d handle_is_name_written_def)
  then obtain n where n: "ea_cur_name a1 = Some n" by blast
  show ?case
  proof (cases "encode_header H W env n v a1")
    case (Inl e)
    with n show ?thesis by (simp add: d a1_def [symmetric] Let_def)
  next
    case (Inr a2)
    from encode_header_cur_name [OF this] n have "ea_cur_name a2 \<noteq> None" by simp
    with Cons.IH [of a2] Inr n show ?thesis by (simp add: d a1_def [symmetric] Let_def)
  qed
qed simp

lemma encode_headers_returns:
  assumes "drained = [] \<or> fst (hd drained) \<noteq> None"
  shows "\<exists>r. encode_headers H W date env drained dst is_last wrote_len writer = Some r"
proof -
  have "\<exists>r. encode_header_loop H W env drained a = Some r" for a
    using assms by (intro encode_header_loop_returns) blast
  then show ?thesis unfolding encode_headers_def Let_def
    by (auto split: option.split sum.split)
qed

text \<open>A response with a version of HTTP/1 is always written or refused.\<close>

lemma server_encode_returns:
  assumes "drain_named H" "version (enc_head msg) \<in> {HTTP_10, HTTP_11}"
  shows "\<exists>r. server_encode H date msg dst = Some r"
proof -
  obtain head body ret is_last wrote_len where
    p: "server_prepare H msg = (head, body, ret, is_last, wrote_len)" by (metis prod_cases5)
  from assms(2) p have "version head \<in> {HTTP_10, HTTP_11}"
    by (auto simp: server_prepare_def Let_def response_head_default_def split: if_split_asm)
  then have "server_status_line H (version head) (subject head) \<noteq> None"
    by (auto simp: server_status_line_def split: version.split_asm)
  then obtain line where l: "server_status_line H (version head) (subject head) = Some line" by blast
  have "hm_drain H (headers head) = [] \<or> fst (hd (hm_drain H (headers head))) \<noteq> None"
    using assms(1) by (simp add: drain_named_def)
  note h = encode_headers_returns [OF this]
  have "\<exists>r. server_encode_block H date t head env dst' is_last wrote_len = Some r" for t env dst'
    unfolding server_encode_block_def Let_def by (auto intro: h simp del: split_paired_Ex split: option.split)
  with p l show ?thesis by (auto simp: server_encode_def Let_def)
qed

section \<open>Reading returns\<close>

locale server_conn = transport_laws "e_io E" input sent
  for E :: "('io, 'b, 'tk, 'ch, 'uri request_line, nat, 'hm, 'uri, 'cfg) conn_env" and input sent +
  fixes H :: "('hm, 'uri) http" and P :: "'cfg httparse" and date :: bytes
  assumes tx: "e_tx E = server_transaction H P date" and http: "e_http E = H"
    and spare: "spare_ok (e_spare E)" and httparse: "httparse_ok P" and maps: "header_map_ok H" and drain: "drain_named H"
begin

abbreviation readable :: "('io, 'b, 'tk, 'ch, 'hm, 'cfg, 'up) conn \<Rightarrow> bool" where
  "readable c \<equiv> buffered_ok (c_io c)"

lemma readable_encode_head:
  "encode_head E c head body = Some (c', r) \<Longrightarrow> readable c' = readable c"
  by (auto simp: encode_head_def enforce_version_def fix_keep_alive_def state_defs set_headers_buf_def buffered_ok_def Let_def
      split: if_split_asm option.split_asm prod.split_asm sum.split_asm version.split_asm list.split_asm)

lemma readable_write_head: "write_head E c head body = Some c' \<Longrightarrow> readable c' = readable c"
  by (auto simp: write_head_def dest!: readable_encode_head split: option.split_asm)

text \<open>The error responses have no headers, and are written over a connection that is not kept alive.\<close>

lemma write_error_returns:
  assumes "server_on_error H err = Some msg" "\<not> wants_keep_alive (c_state c)"
  shows "\<exists>c'. write_head E c msg None = Some c'"
proof -
  have m: "version msg = HTTP_11" "headers msg = hm_new H"
    using assms(1) by (auto simp: server_on_error_def response_head_default_def)
  obtain c1 h where ev: "enforce_version E c msg = (c1, h)" by fastforce
  moreover have "version h \<in> {HTTP_10, HTTP_11}"
    using m assms(2) header_map_okD(1) [OF maps] ev
    by (auto simp: enforce_version_def fix_keep_alive_def http Let_def split: if_split_asm)
  then have "\<exists>r. server_encode H date \<lparr>enc_head = h, enc_body = None, enc_keep_alive = k, enc_req_method = q,
      enc_title_case_headers = t\<rparr> dst = Some r" for k q t dst
    by (intro server_encode_returns [OF drain]) simp
  ultimately have "\<exists>r. encode_head E c msg None = Some r"
    by (fastforce simp: encode_head_def tx server_transaction_def should_read_first_def Let_def split: option.split sum.split)
  then show ?thesis by (auto simp: write_head_def split: option.split)
qed

lemma on_parse_error_returns:
  assumes "\<not> wants_keep_alive (c_state c)" "readable c"
  shows "\<exists>c' res. on_parse_error E c err = Some (c', res) \<and> readable c'"
proof -
  let ?c = "on_state (\<lambda>s. s\<lparr>st_cached_headers := None\<rparr>) c"
  have k: "\<not> wants_keep_alive (c_state ?c)" "readable ?c" using assms by (simp_all add: wants_keep_alive_def)
  show ?thesis
  proof (cases "server_on_error H err")
    case (Some msg)
    from write_error_returns [OF Some k(1)] obtain c1 where c1: "write_head E ?c msg None = Some c1" by blast
    with readable_write_head [OF c1] k(2) Some assms(2) show ?thesis
      by (auto simp: on_parse_error_def tx server_transaction_def)
  qed (use assms(2) in \<open>auto simp: on_parse_error_def tx server_transaction_def\<close>)
qed

lemma on_read_head_error_returns:
  assumes "readable c"
  shows "\<exists>c' p. on_read_head_error E c e = Some (c', p) \<and> readable c'"
proof -
  define c1 where "c1 = (close_read c)\<lparr>c_io := consume_leading_lines (c_io (close_read c))\<rparr>"
  have c1: "\<not> wants_keep_alive (c_state c1)" "readable c1"
    using assms by (simp_all add: c1_def close_read_def state_close_read_def wants_keep_alive_def consume_leading_lines_eq
        buffered_ok_def)
  from on_parse_error_returns [OF this, of e] obtain c2 res where
    "on_parse_error E c1 e = Some (c2, res)" "readable c2" by blast
  with c1 show ?thesis
    unfolding on_read_head_error_def Let_def c1_def [symmetric]
    by (auto simp: close_write_def)
qed

lemma readable_maybe_notify: "readable c \<Longrightarrow> readable (maybe_notify E c)"
  using poll_read_from_io_spec(1) [OF spare, of "c_io c"]
  by (auto simp: maybe_notify_def close_read_def Let_def split: poll.split sum.split prod.split)

lemma readable_try_keep_alive: "readable c \<Longrightarrow> readable (conn_try_keep_alive E c)"
  by (simp add: conn_try_keep_alive_def readable_maybe_notify)

lemma read_head_returns:
  assumes "readable c"
  shows "\<exists>c' p. conn_poll_read_head E c = Some (c', p) \<and> readable c'"
proof -
  let ?ph = "parse_headers (e_rt E) (server_parse H P)"
  have "server_parse H P ctx bs \<noteq> None" for ctx bs using server_parse_returns [OF httparse, of H ctx bs] by auto
  then have ph: "?ph ctx bs \<noteq> None" for ctx bs by (simp add: parse_headers_def Let_def)
  from buffered_parse_returns [OF spare, where ph = ?ph, OF ph assms] obtain io ctx p where
    p: "buffered_parse (e_io E) (e_spare E) (e_rt E) ?ph (c_io c) (parse_context (c_state c)) = Some (io, ctx, p)" by blast
  have "reads_keep (e_io E) (e_spare E) buffered_ok"
    using poll_read_from_io_spec(1) [OF spare] by (auto simp: reads_keep_def buffered_ok_def)
  moreover have "timer_kept ?ph"
    using parse_headers_timer [OF server_role.role_laws_axioms, of "e_rt E" H P] by (simp add: server_transaction_def)
  ultimately have io: "buffered_ok io" using buffered_parse_keeps [OF p] assms by blast
  show ?thesis
  proof (cases "\<exists>e. p = Ready (Err e)")
    case True
    then obtain e where e: "p = Ready (Err e)" ..
    have "readable (c\<lparr>c_io := io, c_state := restore_context (c_state c) ctx\<rparr>)" using io by simp
    from on_read_head_error_returns [OF this, of e] p e show ?thesis
      by (auto simp: conn_poll_read_head_def tx server_transaction_def Let_def)
  next
    case False
    with p io show ?thesis
      by (auto simp: conn_poll_read_head_def tx server_transaction_def head_received_def should_read_first_def Let_def
          split: poll.split sum.split)
  qed
qed

lemma read_body_returns:
  assumes "readable c" "can_read_body c"
  shows "\<exists>c' p. poll_read_body E c = Some (c', p) \<and> readable c'"
proof -
  let ?rd = "buffered_read_mem (e_io E) (e_spare E)"
  have "keeps ?rd buffered_ok"
    using poll_read_from_io_spec(1) [OF spare]
    by (auto simp: keeps_def buffered_read_mem_def buffered_ok_def Let_def split: prod.split_asm poll.split_asm sum.split_asm if_split_asm)
  note k = decode_keeps [OF this]
  have "\<exists>c' p. read_body_decoded E d c1 = Some (c', p) \<and> readable c'" if "readable c1" for d c1
  proof -
    from mem_stream.decode_returns [OF buffered_mem_stream [OF spare] that, of d] obtain d1 io q where
      q: "decode ?rd d (c_io c1) = Some (d1, io, q)" by (metis surj_pair)
    with k [OF q that] show ?thesis
      by (auto simp: read_body_decoded_def Let_def readable_try_keep_alive split: poll.split sum.split)
  qed
  with assms show ?thesis
    by (auto simp: poll_read_body_def can_read_body_def Let_def set_headers_buf_def buffered_ok_def split: reading.split_asm)
qed

lemma drain_returns:
  assumes "readable c" "can_read_body c"
  shows "\<exists>c'. poll_drain_or_close_read E c = Some c' \<and> readable c'"
proof -
  from read_body_returns [OF assms] obtain c1 p where "poll_read_body E c = Some (c1, p)" "readable c1" by blast
  then show ?thesis by (cases "st_reading (c_state c1)") (simp_all add: poll_drain_or_close_read_def close_read_def)
qed

end

lemma ex_drain_named: "drain_named ex_http"
proof -
  have first: "concat (map f ks) = [] \<or> fst (hd (concat (map f ks))) \<noteq> None"
    if "\<And>k. f k = [] \<or> fst (hd (f k)) \<noteq> None" for f :: "string \<Rightarrow> (string option \<times> bytes) list" and ks
    using that by (induction ks) (auto simp: hd_append)
  have "ex_drain h = [] \<or> fst (hd (ex_drain h)) \<noteq> None" for h
    unfolding ex_drain_def by (rule first) (simp split: list.split)
  moreover have "ex_drain [] = []" by (simp add: ex_drain_def)
  ultimately show ?thesis by (simp add: drain_named_def ex_http_def)
qed

interpretation ex_live: server_conn "ex_env req_table" script_input sc_out ex_http "table_httparse req_table" "ascii ''D''"
  by unfold_locales
    (simp_all add: ex_env_def spare_exact req_table_ok ex_header_map_ok ex_drain_named script.transport_laws_axioms)

end
