(* ===== verification/Body_Chan.thy ===== *)
theory Body_Chan
  imports Body_Length Encode
begin

text \<open>
  The body type of the crate (\<^verbatim>\<open>src/src/body/body.rs\<close>) and the want signal under it
  (\<^verbatim>\<open>src/src/common/watch.rs\<close>): a body that holds its bytes, a body that is fed by a \<open>Sender\<close> through
  a channel, and a body that wraps a stream; without the \<open>http2\<close> and \<open>ffi\<close> features.

  A \<open>Sender\<close> and the \<open>Body\<close> it feeds share a channel, possibly from different tasks. The channels are
  objects of an explicit store, a \<open>Sender\<close> is the index of its channel, and so is the payload of
  \<open>Kind::Chan\<close>. The queues and one-shot channels of \<open>futures_channel\<close>, the hints of \<open>http_body\<close> and
  the wrapped stream are the record \<open>body_env\<close>. Wakers do not influence results and are left out.
\<close>

section \<open>What the body relies on\<close>

text \<open>
  \<open>bq_clone_send\<close> is \<open>tx.clone().try_send(..)\<close> followed by the drop of the clone. The one-shot
  receiver behind \<open>DelayEof\<close> carries the empty type \<open>Never\<close>: it can only be pending or be done.
\<close>

record ('q, 'o, 'hm, 's, 'n, 'h) body_env =
  bq_channel :: "nat \<Rightarrow> 'q"
  bq_poll_ready :: "'q \<Rightarrow> 'q \<times> (unit + unit) poll"
  bq_try_send :: "'q \<Rightarrow> error + bytes \<Rightarrow> 'q \<times> ((error + bytes) + unit)"
  bq_clone_send :: "'q \<Rightarrow> error + bytes \<Rightarrow> 'q \<times> ((error + bytes) + unit)"
  bq_poll_next :: "'q \<Rightarrow> 'q \<times> (error + bytes) option poll"
  bq_drop_tx :: "'q \<Rightarrow> 'q"
  bq_drop_rx :: "'q \<Rightarrow> 'q"
  os_channel :: 'o
  os_send :: "'o \<Rightarrow> 'hm \<Rightarrow> 'o \<times> ('hm + unit)"
  os_poll :: "'o \<Rightarrow> 'o \<times> (unit + 'hm) poll"
  os_drop_tx :: "'o \<Rightarrow> 'o"
  os_drop_rx :: "'o \<Rightarrow> 'o"
  never_poll :: "'n \<Rightarrow> 'n \<times> unit poll"
  stream_poll_next :: "'s \<Rightarrow> 's \<times> (cause + bytes) option poll"
  sh_default :: 'h
  sh_with_exact :: "u64 \<Rightarrow> 'h"
  sh_set_exact :: "'h \<Rightarrow> u64 \<Rightarrow> 'h"

section \<open>The want signal\<close>

text \<open>The shared \<open>AtomicUsize\<close> of a watch channel.\<close>

record watch = w_value :: nat

definition WATCH_CLOSED :: nat where "WATCH_CLOSED = 0"

definition watch_channel :: "nat \<Rightarrow> watch" where
  "watch_channel initial = \<lparr>w_value = initial\<rparr>"

text \<open>\<open>send\<close> also reports whether the receiver is woken, which it is when the value changed.\<close>

definition watch_send :: "watch \<Rightarrow> nat \<Rightarrow> watch \<times> bool" where
  "watch_send w v = (w\<lparr>w_value := v\<rparr>, w_value w \<noteq> v)"

definition watch_drop :: "watch \<Rightarrow> watch \<times> bool" where
  "watch_drop w = watch_send w WATCH_CLOSED"

definition watch_load :: "watch \<Rightarrow> nat" where
  "watch_load w = w_value w"

definition watch_peek :: "watch \<Rightarrow> nat" where
  "watch_peek w = w_value w"

section \<open>Bodies\<close>

definition WANT_PENDING :: nat where "WANT_PENDING = 1"
definition WANT_READY :: nat where "WANT_READY = 2"

text \<open>
  A channel: the want signal, the queue of data, the one-shot channel of the trailers, and whether
  the \<open>Sender\<close> still holds \<open>trailers_tx\<close>.
\<close>

record ('q, 'o) chan =
  ch_want :: watch
  ch_data :: 'q
  ch_trailers :: 'o
  ch_trailers_tx :: bool

type_synonym ('q, 'o) store = "('q, 'o) chan list"

datatype 's body_kind = Once "bytes option" | Chan decoded_length nat | Wrapped 's

datatype 'n delay_eof = NotEof 'n | Eof 'n

record 'n extra = delayed_eof :: "'n delay_eof option"

record ('s, 'n) body =
  bd_kind :: "'s body_kind"
  bd_extra :: "'n extra option"

definition body_new :: "'s body_kind \<Rightarrow> ('s, 'n) body" where
  "body_new k = \<lparr>bd_kind = k, bd_extra = None\<rparr>"

definition body_empty :: "('s, 'n) body" where
  "body_empty = body_new (Once None)"

definition new_channel ::
    "('q, 'o, 'hm, 's, 'n, 'h) body_env \<Rightarrow> ('q, 'o) store \<Rightarrow> decoded_length \<Rightarrow> bool
     \<Rightarrow> ('q, 'o) store \<times> nat \<times> ('s, 'n) body" where
  "new_channel E st content_length wanter =
     (let want = (if wanter then WANT_PENDING else WANT_READY);
          c = \<lparr>ch_want = watch_channel want, ch_data = bq_channel E 0, ch_trailers = os_channel E,
               ch_trailers_tx = True\<rparr>;
          a = length st
      in (st @ [c], a, body_new (Chan content_length a)))"

definition body_channel ::
    "('q, 'o, 'hm, 's, 'n, 'h) body_env \<Rightarrow> ('q, 'o) store \<Rightarrow> ('q, 'o) store \<times> nat \<times> ('s, 'n) body" where
  "body_channel E st = new_channel E st CHUNKED False"

definition wrap_stream :: "'s \<Rightarrow> ('s, 'n) body" where
  "wrap_stream s = body_new (Wrapped s)"

definition body_default :: "('s, 'n) body" where
  "body_default = body_empty"

text \<open>\<open>From<Bytes>\<close>, through which the conversions from vectors, slices and strings go.\<close>

definition body_from :: "bytes \<Rightarrow> ('s, 'n) body" where
  "body_from chunk = (if chunk = [] then body_empty else body_new (Once (Some chunk)))"

definition extra_mut :: "('s, 'n) body \<Rightarrow> 'n extra" where
  "extra_mut b = (case bd_extra b of Some x \<Rightarrow> x | None \<Rightarrow> \<lparr>delayed_eof = None\<rparr>)"

definition set_delayed_eof :: "'n delay_eof \<Rightarrow> ('s, 'n) body \<Rightarrow> ('s, 'n) body" where
  "set_delayed_eof d b = b\<lparr>bd_extra := Some ((extra_mut b)\<lparr>delayed_eof := Some d\<rparr>)\<rparr>"

definition body_delayed_eof :: "('s, 'n) body \<Rightarrow> 'n \<Rightarrow> ('s, 'n) body" where
  "body_delayed_eof b fut = set_delayed_eof (NotEof fut) b"

definition take_delayed_eof :: "('s, 'n) body \<Rightarrow> ('s, 'n) body \<times> 'n delay_eof option" where
  "take_delayed_eof b =
     (case bd_extra b of
        None \<Rightarrow> (b, None)
      | Some x \<Rightarrow> (b\<lparr>bd_extra := Some (x\<lparr>delayed_eof := None\<rparr>)\<rparr>, delayed_eof x))"

text \<open>The next data of the kind of body at hand.\<close>

definition poll_inner ::
    "('q, 'o, 'hm, 's, 'n, 'h) body_env \<Rightarrow> ('q, 'o) store \<Rightarrow> ('s, 'n) body
     \<Rightarrow> ('q, 'o) store \<times> ('s, 'n) body \<times> (error + bytes) option poll" where
  "poll_inner E st b =
     (case bd_kind b of
        Once val \<Rightarrow> (st, b\<lparr>bd_kind := Once None\<rparr>, Ready (map_option Ok val))
      | Chan len a \<Rightarrow>
          (let c = st ! a;
               c = c\<lparr>ch_want := fst (watch_send (ch_want c) WANT_READY)\<rparr>;
               (q, p) = bq_poll_next E (ch_data c);
               st = st[a := c\<lparr>ch_data := q\<rparr>]
           in case p of
                Pending \<Rightarrow> (st, b, Pending)
              | Ready (Some (Err e)) \<Rightarrow> (st, b, Ready (Some (Err e)))
              | Ready (Some (Ok chunk)) \<Rightarrow>
                  (st, b\<lparr>bd_kind := Chan (sub_if len (as_u64 (length chunk))) a\<rparr>, Ready (Some (Ok chunk)))
              | Ready None \<Rightarrow> (st, b, Ready None))
      | Wrapped s \<Rightarrow>
          (case stream_poll_next E s of
             (s, p) \<Rightarrow>
               (st, b\<lparr>bd_kind := Wrapped s\<rparr>,
                case p of
                  Pending \<Rightarrow> Pending
                | Ready (Some (Ok chunk)) \<Rightarrow> Ready (Some (Ok chunk))
                | Ready (Some (Err e)) \<Rightarrow> Ready (Some (Err (new_body e)))
                | Ready None \<Rightarrow> Ready None)))"

text \<open>The end of the body is held back until the \<open>DelayEof\<close> future is done.\<close>

definition poll_delay ::
    "('q, 'o, 'hm, 's, 'n, 'h) body_env \<Rightarrow> ('q, 'o) store \<Rightarrow> ('s, 'n) body \<Rightarrow> 'n
     \<Rightarrow> ('q, 'o) store \<times> ('s, 'n) body \<times> (error + bytes) option poll" where
  "poll_delay E st b delay =
     (case never_poll E delay of
        (delay, Pending) \<Rightarrow> (st, set_delayed_eof (Eof delay) b, Pending)
      | (delay, Ready _) \<Rightarrow> (st, b, Ready None))"

definition poll_eof ::
    "('q, 'o, 'hm, 's, 'n, 'h) body_env \<Rightarrow> ('q, 'o) store \<Rightarrow> ('s, 'n) body
     \<Rightarrow> ('q, 'o) store \<times> ('s, 'n) body \<times> (error + bytes) option poll" where
  "poll_eof E st b =
     (case take_delayed_eof b of
        (b, Some (NotEof delay)) \<Rightarrow>
          (case poll_inner E st b of
             (st, b, Ready None) \<Rightarrow> poll_delay E st b delay
           | (st, b, Ready (Some (Err e))) \<Rightarrow> (st, b, Ready (Some (Err e)))
           | (st, b, ok) \<Rightarrow> (st, set_delayed_eof (NotEof delay) b, ok))
      | (b, Some (Eof delay)) \<Rightarrow> poll_delay E st b delay
      | (b, None) \<Rightarrow> poll_inner E st b)"

definition body_take_full_data :: "('s, 'n) body \<Rightarrow> ('s, 'n) body \<times> bytes option" where
  "body_take_full_data b =
     (case bd_kind b of
        Once chunk \<Rightarrow> (b\<lparr>bd_kind := Once None\<rparr>, chunk)
      | _ \<Rightarrow> (b, None))"

text \<open>\<open>impl HttpBody for Body\<close>.\<close>

definition body_poll_data ::
    "('q, 'o, 'hm, 's, 'n, 'h) body_env \<Rightarrow> ('q, 'o) store \<Rightarrow> ('s, 'n) body
     \<Rightarrow> ('q, 'o) store \<times> ('s, 'n) body \<times> (error + bytes) option poll" where
  "body_poll_data E st b = poll_eof E st b"

definition body_poll_trailers ::
    "('q, 'o, 'hm, 's, 'n, 'h) body_env \<Rightarrow> ('q, 'o) store \<Rightarrow> ('s, 'n) body
     \<Rightarrow> ('q, 'o) store \<times> (error + 'hm option) poll" where
  "body_poll_trailers E st b =
     (case bd_kind b of
        Chan len a \<Rightarrow>
          (case os_poll E (ch_trailers (st ! a)) of
             (o', p) \<Rightarrow>
               (st[a := (st ! a)\<lparr>ch_trailers := o'\<rparr>],
                case p of
                  Pending \<Rightarrow> Pending
                | Ready (Ok t) \<Rightarrow> Ready (Ok (Some t))
                | Ready (Err _) \<Rightarrow> Ready (Ok None)))
      | _ \<Rightarrow> (st, Ready (Ok None)))"

definition body_is_end_stream :: "('s, 'n) body \<Rightarrow> bool" where
  "body_is_end_stream b =
     (case bd_kind b of
        Once val \<Rightarrow> val = None
      | Chan content_length _ \<Rightarrow> content_length = ZERO
      | Wrapped _ \<Rightarrow> False)"

definition opt_len :: "('q, 'o, 'hm, 's, 'n, 'h) body_env \<Rightarrow> decoded_length \<Rightarrow> 'h" where
  "opt_len E content_length =
     (case into_opt content_length of
        Some n \<Rightarrow> sh_set_exact E (sh_default E) n
      | None \<Rightarrow> sh_default E)"

definition body_size_hint :: "('q, 'o, 'hm, 's, 'n, 'h) body_env \<Rightarrow> ('s, 'n) body \<Rightarrow> 'h" where
  "body_size_hint E b =
     (case bd_kind b of
        Once (Some val) \<Rightarrow> sh_with_exact E (as_u64 (length val))
      | Once None \<Rightarrow> sh_with_exact E 0
      | Wrapped _ \<Rightarrow> sh_default E
      | Chan content_length _ \<Rightarrow> opt_len E content_length)"

text \<open>Dropping a body drops the three parts of its channel in the order of the fields.\<close>

definition body_drop ::
    "('q, 'o, 'hm, 's, 'n, 'h) body_env \<Rightarrow> ('q, 'o) store \<Rightarrow> ('s, 'n) body \<Rightarrow> ('q, 'o) store" where
  "body_drop E st b =
     (case bd_kind b of
        Chan len a \<Rightarrow>
          st[a := (st ! a)\<lparr>ch_want := fst (watch_drop (ch_want (st ! a))),
                           ch_data := bq_drop_rx E (ch_data (st ! a)),
                           ch_trailers := os_drop_rx E (ch_trailers (st ! a))\<rparr>]
      | _ \<Rightarrow> st)"

section \<open>The sender\<close>

text \<open>An unexpected value of the want signal is an \<open>unreachable!\<close>.\<close>

definition poll_want :: "('q, 'o) store \<Rightarrow> nat \<Rightarrow> (error + unit) poll option" where
  "poll_want st a =
     (let v = watch_load (ch_want (st ! a))
      in if v = WANT_READY then Some (Ready (Ok ()))
         else if v = WANT_PENDING then Some Pending
         else if v = WATCH_CLOSED then Some (Ready (Err new_closed))
         else None)"

definition sender_poll_ready ::
    "('q, 'o, 'hm, 's, 'n, 'h) body_env \<Rightarrow> ('q, 'o) store \<Rightarrow> nat
     \<Rightarrow> (('q, 'o) store \<times> (error + unit) poll) option" where
  "sender_poll_ready E st a =
     (case poll_want st a of
        None \<Rightarrow> None
      | Some (Ready (Ok _)) \<Rightarrow>
          (case bq_poll_ready E (ch_data (st ! a)) of
             (q, p) \<Rightarrow>
               Some (st[a := (st ! a)\<lparr>ch_data := q\<rparr>],
                     case p of
                       Pending \<Rightarrow> Pending
                     | Ready (Ok _) \<Rightarrow> Ready (Ok ())
                     | Ready (Err _) \<Rightarrow> Ready (Err new_closed)))
      | Some p \<Rightarrow> Some (st, p))"

text \<open>The error of \<open>try_send\<close> gives the message back.\<close>

definition try_send_data ::
    "('q, 'o, 'hm, 's, 'n, 'h) body_env \<Rightarrow> ('q, 'o) store \<Rightarrow> nat \<Rightarrow> bytes
     \<Rightarrow> (('q, 'o) store \<times> (bytes + unit)) option" where
  "try_send_data E st a chunk =
     (case bq_try_send E (ch_data (st ! a)) (Ok chunk) of
        (q, r) \<Rightarrow>
          (let st = st[a := (st ! a)\<lparr>ch_data := q\<rparr>]
           in case r of
                Ok _ \<Rightarrow> Some (st, Ok ())
              | Err (Ok chunk) \<Rightarrow> Some (st, Err chunk)
              | Err (Err _) \<Rightarrow> None))"

text \<open>One poll of the future of \<open>send_data\<close>: it waits until the sender is ready, then sends.\<close>

definition poll_send_data ::
    "('q, 'o, 'hm, 's, 'n, 'h) body_env \<Rightarrow> ('q, 'o) store \<Rightarrow> nat \<Rightarrow> bytes
     \<Rightarrow> (('q, 'o) store \<times> (error + unit) poll) option" where
  "poll_send_data E st a chunk =
     (case sender_poll_ready E st a of
        None \<Rightarrow> None
      | Some (st, Pending) \<Rightarrow> Some (st, Pending)
      | Some (st, Ready (Err e)) \<Rightarrow> Some (st, Ready (Err e))
      | Some (st, Ready (Ok _)) \<Rightarrow>
          (case bq_try_send E (ch_data (st ! a)) (Ok chunk) of
             (q, r) \<Rightarrow>
               Some (st[a := (st ! a)\<lparr>ch_data := q\<rparr>],
                     Ready (case r of Ok _ \<Rightarrow> Ok () | Err _ \<Rightarrow> Err new_closed))))"

definition send_trailers ::
    "('q, 'o, 'hm, 's, 'n, 'h) body_env \<Rightarrow> ('q, 'o) store \<Rightarrow> nat \<Rightarrow> 'hm
     \<Rightarrow> ('q, 'o) store \<times> (error + unit)" where
  "send_trailers E st a trailers =
     (if ch_trailers_tx (st ! a) then
        (case os_send E (ch_trailers (st ! a)) trailers of
           (o', r) \<Rightarrow>
             (st[a := (st ! a)\<lparr>ch_trailers := o', ch_trailers_tx := False\<rparr>],
              case r of Ok _ \<Rightarrow> Ok () | Err _ \<Rightarrow> Err new_closed))
      else (st, Err new_closed))"

definition send_error ::
    "('q, 'o, 'hm, 's, 'n, 'h) body_env \<Rightarrow> ('q, 'o) store \<Rightarrow> nat \<Rightarrow> error \<Rightarrow> ('q, 'o) store" where
  "send_error E st a err =
     st[a := (st ! a)\<lparr>ch_data := fst (bq_try_send E (ch_data (st ! a)) (Err err))\<rparr>]"

text \<open>Dropping a sender; the receiving half of the want signal has nothing to do.\<close>

definition sender_drop ::
    "('q, 'o, 'hm, 's, 'n, 'h) body_env \<Rightarrow> ('q, 'o) store \<Rightarrow> nat \<Rightarrow> ('q, 'o) store" where
  "sender_drop E st a =
     st[a := (st ! a)\<lparr>ch_data := bq_drop_tx E (ch_data (st ! a)),
                      ch_trailers := (if ch_trailers_tx (st ! a) then os_drop_tx E (ch_trailers (st ! a))
                                      else ch_trailers (st ! a)),
                      ch_trailers_tx := False\<rparr>]"

text \<open>\<open>abort\<close> consumes the sender, which is dropped at its end.\<close>

definition sender_abort ::
    "('q, 'o, 'hm, 's, 'n, 'h) body_env \<Rightarrow> ('q, 'o) store \<Rightarrow> nat \<Rightarrow> ('q, 'o) store" where
  "sender_abort E st a =
     sender_drop E
       (st[a := (st ! a)\<lparr>ch_data := fst (bq_clone_send E (ch_data (st ! a)) (Err new_body_write_aborted))\<rparr>]) a"

lemmas chan_defs [hyper_defs] =
  watch_channel_def watch_send_def watch_drop_def watch_load_def WATCH_CLOSED_def WANT_PENDING_def
  WANT_READY_def body_new_def body_empty_def new_channel_def body_channel_def extra_mut_def
  set_delayed_eof_def take_delayed_eof_def

section \<open>What a queue promises\<close>

text \<open>
  The documentation of \<open>futures_channel::mpsc\<close>: \<open>items\<close> are the messages that were sent and not yet
  received, \<open>tx\<close> and \<open>rx\<close> tell whether the two ends are alive, and \<open>room\<close> that the next \<open>try_send\<close>
  cannot fail for lack of capacity, which is what a successful \<open>poll_ready\<close> establishes. A clone of
  the sender always has a slot of its own.
\<close>

locale mpsc_laws =
  fixes E :: "('q, 'o, 'hm, 's, 'n, 'h) body_env"
    and items :: "'q \<Rightarrow> (error + bytes) list"
    and tx :: "'q \<Rightarrow> bool" and rx :: "'q \<Rightarrow> bool" and room :: "'q \<Rightarrow> bool"
  assumes new: "items (bq_channel E n) = []" "tx (bq_channel E n)" "rx (bq_channel E n)"
    and poll_ready: "tx q \<Longrightarrow> bq_poll_ready E q = (q', p) \<Longrightarrow>
      items q' = items q \<and> tx q' \<and> rx q' = rx q \<and> (p = Ready (Ok ()) \<longrightarrow> rx q \<and> room q') \<and>
      (p = Ready (Err ()) \<longrightarrow> \<not> rx q)"
    and try_send: "tx q \<Longrightarrow> bq_try_send E q x = (q', r) \<Longrightarrow>
      tx q' \<and> rx q' = rx q \<and> (r = Ok () \<longrightarrow> items q' = items q @ [x]) \<and>
      (\<forall>y. r = Err y \<longrightarrow> y = x \<and> items q' = items q) \<and> (rx q \<and> room q \<longrightarrow> r = Ok ()) \<and> (\<not> rx q \<longrightarrow> r \<noteq> Ok ())"
    and clone_send: "tx q \<Longrightarrow> bq_clone_send E q x = (q', r) \<Longrightarrow>
      tx q' \<and> rx q' = rx q \<and> (rx q \<longrightarrow> items q' = items q @ [x]) \<and> (\<not> rx q \<longrightarrow> items q' = items q)"
    and poll_next: "rx q \<Longrightarrow> bq_poll_next E q = (q', m) \<Longrightarrow>
      tx q' = tx q \<and> rx q' \<and> (room q \<longrightarrow> room q') \<and>
      (case items q of
         x # xs \<Rightarrow> m = Ready (Some x) \<and> items q' = xs
       | [] \<Rightarrow> items q' = [] \<and> m = (if tx q then Pending else Ready None))"
    and drop_tx: "items (bq_drop_tx E q) = items q" "\<not> tx (bq_drop_tx E q)" "rx (bq_drop_tx E q) = rx q"
    and drop_rx: "\<not> rx (bq_drop_rx E q)" "tx (bq_drop_rx E q) = tx q"

section \<open>The run of a channel\<close>

text \<open>
  What the two ends of a channel may do, in any interleaving: \<open>live\<close> tells whether the sender exists,
  \<open>failed\<close> whether it reported an error, \<open>sent\<close> and \<open>got\<close> are the pieces accepted from the sender and
  delivered to the reader, \<open>saw\<close> tells whether the reader was given an error, and \<open>ended\<close> whether it
  was told that the body is complete. An error is reported the way the dispatcher does it, right after
  \<open>poll_ready\<close>; every other channel of the store may change at any time.
\<close>

definition delivered :: "(error + bytes) option poll \<Rightarrow> bytes list" where
  "delivered p = (case p of Ready (Some (Ok chunk)) \<Rightarrow> [chunk] | _ \<Rightarrow> [])"

definition reported :: "(error + bytes) option poll \<Rightarrow> bool" where
  "reported p = (case p of Ready (Some (Err _)) \<Rightarrow> True | _ \<Rightarrow> False)"

inductive chan_run ::
    "('q, 'o, 'hm, 's, 'n, 'h) body_env \<Rightarrow> decoded_length \<Rightarrow> bool \<Rightarrow> nat \<Rightarrow> ('q, 'o) store \<Rightarrow> ('s, 'n) body
     \<Rightarrow> bool \<Rightarrow> bool \<Rightarrow> bytes list \<Rightarrow> bytes list \<Rightarrow> bool \<Rightarrow> bool \<Rightarrow> bool"
  for E len wanter a where
  run_new: "new_channel E st len wanter = (st', a, b) \<Longrightarrow>
    chan_run E len wanter a st' b True False [] [] False False"
| run_other: "chan_run E len wanter a st b live failed sent got saw ended \<Longrightarrow>
    length st \<le> length st' \<Longrightarrow> st' ! a = st ! a \<Longrightarrow>
    chan_run E len wanter a st' b live failed sent got saw ended"
| run_ready: "chan_run E len wanter a st b True failed sent got saw ended \<Longrightarrow>
    sender_poll_ready E st a = Some (st', p) \<Longrightarrow>
    chan_run E len wanter a st' b True failed sent got saw ended"
| run_send: "chan_run E len wanter a st b True failed sent got saw ended \<Longrightarrow>
    try_send_data E st a chunk = Some (st', r) \<Longrightarrow>
    chan_run E len wanter a st' b True failed (if r = Ok () then sent @ [chunk] else sent) got saw ended"
| run_error: "chan_run E len wanter a st b True failed sent got saw ended \<Longrightarrow>
    sender_poll_ready E st a = Some (st1, Ready (Ok ())) \<Longrightarrow>
    chan_run E len wanter a (send_error E st1 a err) b True True sent got saw ended"
| run_abort: "chan_run E len wanter a st b True failed sent got saw ended \<Longrightarrow>
    chan_run E len wanter a (sender_abort E st a) b False True sent got saw ended"
| run_drop: "chan_run E len wanter a st b True failed sent got saw ended \<Longrightarrow>
    chan_run E len wanter a (sender_drop E st a) b False failed sent got saw ended"
| run_poll: "chan_run E len wanter a st b live failed sent got saw ended \<Longrightarrow>
    body_poll_data E st b = (st', b', p) \<Longrightarrow>
    chan_run E len wanter a st' b' live failed sent (got @ delivered p) (saw \<or> reported p) (ended \<or> p = Ready None)"

text \<open>The pieces among the messages of a queue, and whether an error is among them.\<close>

definition pieces :: "(error + bytes) list \<Rightarrow> bytes list" where
  "pieces xs = concat (map (\<lambda>x. case x of Ok b \<Rightarrow> [b] | Err _ \<Rightarrow> []) xs)"

definition has_error :: "(error + bytes) list \<Rightarrow> bool" where
  "has_error xs \<longleftrightarrow> (\<exists>e. Err e \<in> set xs)"

lemma pieces_simps [simp]:
  "pieces [] = []" "pieces (Ok b # xs) = b # pieces xs" "pieces (Err e # xs) = pieces xs"
  "pieces (xs @ ys) = pieces xs @ pieces ys"
  by (simp_all add: pieces_def)

lemma has_error_simps [simp]:
  "\<not> has_error []" "has_error (Ok b # xs) = has_error xs" "has_error (Err e # xs)"
  "has_error (xs @ ys) \<longleftrightarrow> has_error xs \<or> has_error ys"
  by (auto simp: has_error_def)

lemma delivered_simps [simp]:
  "delivered Pending = []" "delivered (Ready None) = []" "delivered (Ready (Some (Ok b))) = [b]"
  "delivered (Ready (Some (Err e))) = []" "\<not> reported Pending" "\<not> reported (Ready None)"
  "\<not> reported (Ready (Some (Ok b)))" "reported (Ready (Some (Err e)))"
  by (simp_all add: delivered_def reported_def)

text \<open>What is left of an announced length after the pieces were delivered.\<close>

definition length_left :: "decoded_length \<Rightarrow> bytes list \<Rightarrow> decoded_length" where
  "length_left len got = fold (\<lambda>b l. sub_if l (as_u64 (length b))) got len"

lemma length_left_simps [simp]:
  "length_left len [] = len"
  "length_left len (got @ [b]) = sub_if (length_left len got) (as_u64 (length b))"
  by (simp_all add: length_left_def)

context mpsc_laws
begin

text \<open>The invariant of a run.\<close>

definition chan_inv where
  "chan_inv len a st b live failed sent got saw ended \<longleftrightarrow>
     a < length st \<and> b = body_new (Chan (length_left len got) a) \<and>
     w_value (ch_want (st ! a)) \<in> {WANT_PENDING, WANT_READY} \<and>
     tx (ch_data (st ! a)) = live \<and> rx (ch_data (st ! a)) \<and> sent = got @ pieces (items (ch_data (st ! a))) \<and>
     (failed \<longrightarrow> saw \<or> has_error (items (ch_data (st ! a)))) \<and>
     (ended \<longrightarrow> \<not> live \<and> items (ch_data (st ! a)) = [])"

lemma sender_poll_ready_inv:
  assumes "chan_inv len a st b True failed sent got saw ended"
  obtains st' p where "sender_poll_ready E st a = Some (st', p)"
    "chan_inv len a st' b True failed sent got saw ended" "p = Ready (Ok ()) \<longrightarrow> room (ch_data (st' ! a))"
proof -
  obtain q p where q: "bq_poll_ready E (ch_data (st ! a)) = (q, p)" by fastforce
  from assms have "tx (ch_data (st ! a))" by (simp add: chan_inv_def)
  note l = poll_ready [OF this q]
  from assms q l have "\<exists>st' p. sender_poll_ready E st a = Some (st', p) \<and>
      chan_inv len a st' b True failed sent got saw ended \<and> (p = Ready (Ok ()) \<longrightarrow> room (ch_data (st' ! a)))"
    by (auto simp: sender_poll_ready_def poll_want_def chan_inv_def chan_defs split: poll.split sum.split)
  then show ?thesis using that by blast
qed

lemma try_send_data_inv:
  assumes "chan_inv len a st b True failed sent got saw ended"
  obtains st' r where "try_send_data E st a chunk = Some (st', r)"
    "chan_inv len a st' b True failed (if r = Ok () then sent @ [chunk] else sent) got saw ended"
    "room (ch_data (st ! a)) \<longrightarrow> r = Ok ()"
proof -
  obtain q r where q: "bq_try_send E (ch_data (st ! a)) (Ok chunk) = (q, r)" by fastforce
  from assms have "tx (ch_data (st ! a))" by (simp add: chan_inv_def)
  note l = try_send [OF this q]
  show ?thesis
  proof (cases r)
    case (Inl y)
    with assms q l show ?thesis by (intro that) (auto simp: try_send_data_def chan_inv_def Let_def)
  next
    case (Inr u)
    with assms q l show ?thesis by (intro that) (auto simp: try_send_data_def chan_inv_def Let_def)
  qed
qed

lemma send_error_inv:
  assumes "chan_inv len a st b True failed sent got saw ended" "room (ch_data (st ! a))"
  shows "chan_inv len a (send_error E st a err) b True True sent got saw ended"
proof -
  obtain q r where q: "bq_try_send E (ch_data (st ! a)) (Err err) = (q, r)" by fastforce
  from assms have "tx (ch_data (st ! a))" by (simp add: chan_inv_def)
  from try_send [OF this q] assms q show ?thesis by (auto simp: send_error_def chan_inv_def)
qed

lemma sender_drop_inv:
  "chan_inv len a st b True failed sent got saw ended \<Longrightarrow> chan_inv len a (sender_drop E st a) b False failed sent got saw ended"
  by (auto simp: sender_drop_def chan_inv_def drop_tx)

lemma sender_abort_inv:
  assumes "chan_inv len a st b True failed sent got saw ended"
  shows "chan_inv len a (sender_abort E st a) b False True sent got saw ended"
proof -
  let ?q = "ch_data (st ! a)"
  obtain q r where q: "bq_clone_send E ?q (Err new_body_write_aborted) = (q, r)" by fastforce
  from assms have "tx ?q" by (simp add: chan_inv_def)
  from clone_send [OF this q] assms q
  have "chan_inv len a (st[a := (st ! a)\<lparr>ch_data := q\<rparr>]) b True True sent got saw ended"
    by (auto simp: chan_inv_def)
  from sender_drop_inv [OF this] q show ?thesis by (simp add: sender_abort_def)
qed

lemma poll_data_inv:
  assumes "chan_inv len a st b live failed sent got saw ended" "body_poll_data E st b = (st', b', p)"
  shows "chan_inv len a st' b' live failed sent (got @ delivered p) (saw \<or> reported p) (ended \<or> p = Ready None)"
proof -
  let ?q = "ch_data (st ! a)"
  obtain q m where q: "bq_poll_next E ?q = (q, m)" by fastforce
  from assms(1) have "rx ?q" by (simp add: chan_inv_def)
  note l = poll_next [OF this q]
  show ?thesis
  proof (cases "items ?q")
    case Nil
    with l q assms show ?thesis
      by (auto simp: chan_inv_def body_poll_data_def poll_eof_def take_delayed_eof_def poll_inner_def body_new_def
          watch_send_def Let_def split: if_splits)
  next
    case (Cons x xs)
    with l q assms show ?thesis
      by (cases x) (auto simp: chan_inv_def body_poll_data_def poll_eof_def take_delayed_eof_def poll_inner_def
          body_new_def watch_send_def Let_def)
  qed
qed

lemma chan_run_inv:
  assumes "chan_run E len wanter a st b live failed sent got saw ended"
  shows "chan_inv len a st b live failed sent got saw ended"
  using assms
proof induction
  case (run_new st st' b)
  then show ?case by (cases wanter) (auto simp: chan_inv_def chan_defs new Let_def nth_append)
next
  case (run_other st b live failed sent got saw ended st')
  then show ?case by (simp add: chan_inv_def)
next
  case (run_ready st b failed sent got saw ended st' p)
  show ?case by (rule sender_poll_ready_inv [OF run_ready.IH]) (use run_ready.hyps in simp)
next
  case (run_send st b failed sent got saw ended chunk st' r)
  show ?case by (rule try_send_data_inv [OF run_send.IH, of chunk]) (use run_send.hyps in simp)
next
  case (run_error st b failed sent got saw ended st1 err)
  show ?case
    by (rule sender_poll_ready_inv [OF run_error.IH]) (use run_error.hyps send_error_inv in simp)
qed (simp_all add: sender_abort_inv sender_drop_inv poll_data_inv)

end

section \<open>Lengths\<close>

text \<open>While no more is delivered than was announced, the length that is left is exact.\<close>

lemma length_left_exact:
  assumes "into_opt len = Some n" "sum_list (map length got) \<le> unat n"
  shows "length_left len got = DecodedLength (n - of_nat (sum_list (map length got)))"
  using assms(2)
proof (induction got rule: rev_induct)
  case Nil
  with assms(1) show ?case by (cases len) (auto simp: into_opt_def split: if_splits)
next
  case (snoc b got)
  let ?t = "sum_list (map length got)"
  from assms(1) have n: "n \<le> MAX_LEN" by (auto simp: into_opt_Some_iff checked_new_Ok_iff is_exact_def)
  from snoc.prems have t: "unat (of_nat ?t :: u64) = ?t" "?t \<le> unat n"
    using unat_less_u64 [of n] by (simp_all add: unat_of_nat_u64)
  then have "(of_nat ?t :: u64) \<le> n" by (simp add: word_le_nat_alt)
  then have "n - of_nat ?t \<le> MAX_LEN" using n by (meson order_trans word_sub_le)
  then have "sub_if (DecodedLength (n - of_nat ?t)) m = DecodedLength (n - of_nat ?t - m)" for m
    by (auto simp: sub_if_def le_MAX_LEN_iff CHUNKED_def CLOSE_DELIMITED_def)
  with snoc show ?case by (simp add: as_u64_def algebra_simps)
qed

lemma length_left_open:
  assumes "into_opt len = None"
  shows "length_left len got = len"
  by (induction got rule: rev_induct) (use assms in \<open>auto simp: sub_if_def into_opt_def split: if_splits\<close>)

section \<open>A queue\<close>

text \<open>
  The queue of \<open>futures_channel\<close> with one sender: a sender that has put a message beyond the buffer is
  parked until the receiver takes one.
\<close>

record fq =
  fq_items :: "(error + bytes) list"
  fq_buffer :: nat
  fq_parked :: bool
  fq_tx :: bool
  fq_rx :: bool

definition fq_send :: "bool \<Rightarrow> fq \<Rightarrow> error + bytes \<Rightarrow> fq \<times> ((error + bytes) + unit)" where
  "fq_send parked q x =
     (if \<not> fq_rx q \<or> parked then (q, Err x)
      else (q\<lparr>fq_items := fq_items q @ [x]\<rparr>, Ok ()))"

definition fq_try_send :: "fq \<Rightarrow> error + bytes \<Rightarrow> fq \<times> ((error + bytes) + unit)" where
  "fq_try_send q x =
     (case fq_send (fq_parked q) q x of
        (q', Ok _) \<Rightarrow> (q'\<lparr>fq_parked := fq_buffer q < length (fq_items q')\<rparr>, Ok ())
      | (q', Err y) \<Rightarrow> (q', Err y))"

definition fq_poll_ready :: "fq \<Rightarrow> fq \<times> (unit + unit) poll" where
  "fq_poll_ready q = (q, if \<not> fq_rx q then Ready (Err ()) else if fq_parked q then Pending else Ready (Ok ()))"

definition fq_poll_next :: "fq \<Rightarrow> fq \<times> (error + bytes) option poll" where
  "fq_poll_next q =
     (case fq_items q of
        x # xs \<Rightarrow> (q\<lparr>fq_items := xs, fq_parked := False\<rparr>, Ready (Some x))
      | [] \<Rightarrow> (q, if fq_tx q then Pending else Ready None))"

definition ex_body_env :: "(fq, unit, 'hm, 's, unit, u64 option) body_env" where
  "ex_body_env =
     \<lparr>bq_channel = (\<lambda>n. \<lparr>fq_items = [], fq_buffer = n, fq_parked = False, fq_tx = True, fq_rx = True\<rparr>),
      bq_poll_ready = fq_poll_ready, bq_try_send = fq_try_send, bq_clone_send = fq_send False,
      bq_poll_next = fq_poll_next, bq_drop_tx = (\<lambda>q. q\<lparr>fq_tx := False\<rparr>),
      bq_drop_rx = (\<lambda>q. q\<lparr>fq_rx := False, fq_items := []\<rparr>), os_channel = (),
      os_send = (\<lambda>o' t. (o', Err t)), os_poll = (\<lambda>o'. (o', Pending)), os_drop_tx = id, os_drop_rx = id,
      never_poll = (\<lambda>n. (n, Ready ())), stream_poll_next = (\<lambda>s. (s, Ready None)),
      sh_default = None, sh_with_exact = Some, sh_set_exact = (\<lambda>h n. Some n)\<rparr>"

interpretation fq: mpsc_laws ex_body_env fq_items fq_tx fq_rx "\<lambda>q. \<not> fq_parked q"
  by unfold_locales
    (auto simp: ex_body_env_def fq_poll_ready_def fq_try_send_def fq_send_def fq_poll_next_def
      split: if_splits list.splits)

section \<open>Bodies are complete or broken\<close>

text \<open>C2: A body that is streamed through a channel ends cleanly only when it is complete. In any
  interleaving of the sender, the reader and the users of other channels, the reader is given the
  pieces that the sender got accepted, in order and without loss; it is told that the body has ended
  only after the sender is gone and everything it sent was delivered, and if the sender aborted the
  body or reported an error, only after that error.\<close>

theorem body_channel_complete:
  assumes "mpsc_laws E items tx rx room"
    and "chan_run E len wanter a st b live failed sent got saw ended"
  shows "(\<exists>rest. sent = got @ rest) \<and> (ended \<longrightarrow> sent = got \<and> \<not> live \<and> (failed \<longrightarrow> saw)) \<and>
    bd_kind b = Chan (length_left len got) a"
  using mpsc_laws.chan_run_inv [OF assms] by (auto simp: mpsc_laws.chan_inv_def [OF assms(1)] body_new_def)

text \<open>\<open>hi\<close> is sent and read, the sender aborts, and the reader sees the error before the end.\<close>

theorem body_channel_complete_witness:
  "\<exists>st b. chan_run (ex_body_env :: (fq, unit, unit, unit, unit, u64 option) body_env) (DecodedLength 5) False 0 st b
     False True [ascii ''hi''] [ascii ''hi''] True True \<and> bd_kind b = Chan (DecodedLength 3) 0"
proof -
  let ?E = "ex_body_env :: (fq, unit, unit, unit, unit, u64 option) body_env"
  let ?run = "chan_run ?E (DecodedLength 5) False 0"
  let ?q = "\<lambda>xs parked t. \<lparr>fq_items = xs, fq_buffer = 0, fq_parked = parked, fq_tx = t, fq_rx = True\<rparr>"
  let ?c = "\<lambda>q t. [\<lparr>ch_want = \<lparr>w_value = 2\<rparr>, ch_data = q, ch_trailers = (), ch_trailers_tx = t\<rparr>]"
  let ?b = "\<lambda>n. \<lparr>bd_kind = Chan (DecodedLength n) 0, bd_extra = None\<rparr> :: (unit, unit) body"
  note defs = ex_body_env_def fq_poll_next_def fq_try_send_def fq_send_def chan_defs poll_eof_def poll_inner_def
    body_poll_data_def try_send_data_def sender_abort_def sender_drop_def sub_if_def length_consts as_u64_def ascii_def
  have "new_channel ?E [] (DecodedLength 5) False = (?c (?q [] False True) True, 0, ?b 5)"
    by (simp add: defs)
  then have "?run (?c (?q [] False True) True) (?b 5) True False [] [] False False" by (rule run_new)
  moreover have "try_send_data ?E (?c (?q [] False True) True) 0 (ascii ''hi'') =
      Some (?c (?q [Ok (ascii ''hi'')] True True) True, Ok ())" by (simp add: defs)
  ultimately have "?run (?c (?q [Ok (ascii ''hi'')] True True) True) (?b 5) True False [ascii ''hi''] [] False False"
    using run_send by fastforce
  moreover have "body_poll_data ?E (?c (?q [Ok (ascii ''hi'')] True True) True) (?b 5) =
      (?c (?q [] False True) True, ?b 3, Ready (Some (Ok (ascii ''hi''))))" by (simp add: defs)
  ultimately have "?run (?c (?q [] False True) True) (?b 3) True False [ascii ''hi''] [ascii ''hi''] False False"
    using run_poll by fastforce
  from run_abort [OF this]
  have "?run (?c (?q [Err new_body_write_aborted] False False) False) (?b 3) False True [ascii ''hi''] [ascii ''hi''] False False"
    by (simp add: defs)
  moreover have "body_poll_data ?E (?c (?q [Err new_body_write_aborted] False False) False) (?b 3) =
      (?c (?q [] False False) False, ?b 3, Ready (Some (Err new_body_write_aborted)))" by (simp add: defs)
  ultimately have "?run (?c (?q [] False False) False) (?b 3) False True [ascii ''hi''] [ascii ''hi''] True False"
    using run_poll by fastforce
  moreover have "body_poll_data ?E (?c (?q [] False False) False) (?b 3) = (?c (?q [] False False) False, ?b 3, Ready None)"
    by (simp add: defs)
  ultimately have r: "?run (?c (?q [] False False) False) (?b 3) False True [ascii ''hi''] [ascii ''hi''] True True"
    using run_poll by fastforce
  from body_channel_complete [OF fq.mpsc_laws_axioms r]
  have "bd_kind (?b 3) = Chan (DecodedLength 3) 0" by simp
  with r show ?thesis by blast
qed

end
