(* ===== verification/Oneshot.thy ===== *)
theory Oneshot
  imports Prelude
begin

text \<open>
  One-shot channels, which the code takes from \<open>tokio::sync\<close> and \<open>futures_channel\<close>. The operations are
  a record that the definitions using them take as an argument; the documented behaviour is the locale
  \<open>oneshot_laws\<close>, over the value in transit and whether the two ends are alive. \<open>cell\<close> is such a channel.
\<close>

record ('c, 'v) oneshot =
  o_new :: 'c
  o_send :: "'c \<Rightarrow> 'v \<Rightarrow> 'c \<times> ('v + unit)"
  o_poll :: "'c \<Rightarrow> 'c \<times> (unit + 'v) poll"
  o_is_closed :: "'c \<Rightarrow> bool"
  o_drop_tx :: "'c \<Rightarrow> 'c"
  o_drop_rx :: "'c \<Rightarrow> 'c"

locale oneshot_laws =
  fixes C :: "('c, 'v) oneshot"
    and val :: "'c \<Rightarrow> 'v option"
    and tx :: "'c \<Rightarrow> bool" and rx :: "'c \<Rightarrow> bool"
  assumes new: "val (o_new C) = None" "tx (o_new C)" "rx (o_new C)"
    and send: "tx c \<Longrightarrow> o_send C c v = (c', r) \<Longrightarrow>
      \<not> tx c' \<and> rx c' = rx c \<and> (rx c \<longrightarrow> r = Ok () \<and> val c' = Some v) \<and> (\<not> rx c \<longrightarrow> r = Err v)"
    and poll: "rx c \<Longrightarrow> o_poll C c = (c', p) \<Longrightarrow> tx c' = tx c \<and>
      (case val c of
         Some v \<Rightarrow> p = Ready (Ok v) \<and> val c' = None
       | None \<Rightarrow> p = (if tx c then Pending else Ready (Err ())) \<and> val c' = None \<and> rx c')"
    and closed: "o_is_closed C c \<longleftrightarrow> \<not> rx c"
    and drop_tx: "val (o_drop_tx C c) = val c" "\<not> tx (o_drop_tx C c)" "rx (o_drop_tx C c) = rx c"
    and drop_rx: "\<not> rx (o_drop_rx C c)" "tx (o_drop_rx C c) = tx c"

section \<open>A one-shot channel\<close>

record 'v cell =
  cell_val :: "'v option"
  cell_tx :: bool
  cell_rx :: bool

definition cell_ops :: "('v cell, 'v) oneshot" where
  "cell_ops =
     \<lparr>o_new = \<lparr>cell_val = None, cell_tx = True, cell_rx = True\<rparr>,
      o_send = (\<lambda>c v. if cell_rx c then (c\<lparr>cell_val := Some v, cell_tx := False\<rparr>, Ok ())
                      else (c\<lparr>cell_tx := False\<rparr>, Err v)),
      o_poll = (\<lambda>c. case cell_val c of
                  Some v \<Rightarrow> (c\<lparr>cell_val := None\<rparr>, Ready (Ok v))
                | None \<Rightarrow> (c, if cell_tx c then Pending else Ready (Err ()))),
      o_is_closed = (\<lambda>c. \<not> cell_rx c),
      o_drop_tx = (\<lambda>c. c\<lparr>cell_tx := False\<rparr>),
      o_drop_rx = (\<lambda>c. c\<lparr>cell_val := None, cell_rx := False\<rparr>)\<rparr>"

interpretation cell: oneshot_laws cell_ops cell_val cell_tx cell_rx
  by unfold_locales (auto simp: cell_ops_def split: if_splits option.splits)

end
