(* ===== verification/Upgrade.thy ===== *)
theory Upgrade
  imports Transport Errors Oneshot
begin

text \<open>
  HTTP upgrades (\<^verbatim>\<open>src/src/upgrade.rs\<close>): the connection that an upgrade hands over, with the bytes that
  were read beyond the HTTP message, and the pair of the \<open>Pending\<close> half, which the connection keeps,
  and the \<open>OnUpgrade\<close> future, which the user gets with the message.

  The channels between the two are the objects of a store; both halves are the index of their channel.
  The type of the transport is erased by a trait object: \<open>'dyn\<close> are the objects of any type, and
  \<open>type_id\<close> tells the types apart.
\<close>

section \<open>Upgraded\<close>

record 'dyn upgraded = upg_io :: "'dyn rewind"

record 'dyn parts =
  parts_io :: 'dyn
  parts_read_buf :: bytes

definition upgraded_new :: "'dyn \<Rightarrow> bytes \<Rightarrow> 'dyn upgraded" where
  "upgraded_new io buf = \<lparr>upg_io = rewind_new_buffered io buf\<rparr>"

text \<open>\<open>__hyper_is\<close> and \<open>__hyper_downcast\<close>: the object if its type is the one asked for.\<close>

definition hyper_is :: "('dyn \<Rightarrow> 'ty) \<Rightarrow> 'ty \<Rightarrow> 'dyn \<Rightarrow> bool" where
  "hyper_is type_id t io \<longleftrightarrow> type_id io = t"

definition hyper_downcast :: "('dyn \<Rightarrow> 'ty) \<Rightarrow> 'ty \<Rightarrow> 'dyn \<Rightarrow> 'dyn + 'dyn" where
  "hyper_downcast type_id t io = (if hyper_is type_id t io then Ok io else Err io)"

definition downcast :: "('dyn \<Rightarrow> 'ty) \<Rightarrow> 'ty \<Rightarrow> 'dyn upgraded \<Rightarrow> 'dyn upgraded + 'dyn parts" where
  "downcast type_id t u =
     (case rewind_into_inner (upg_io u) of
        (io, buf) \<Rightarrow>
          (case hyper_downcast type_id t io of
             Ok io \<Rightarrow> Ok \<lparr>parts_io = io, parts_read_buf = buf\<rparr>
           | Err io \<Rightarrow> Err \<lparr>upg_io = rewind_new_buffered io buf\<rparr>))"

text \<open>\<open>AsyncRead\<close> and \<open>AsyncWrite\<close> go to the rewound transport.\<close>

definition upgraded_on :: "('dyn rewind \<Rightarrow> 'dyn rewind \<times> 'p) \<Rightarrow> 'dyn upgraded \<Rightarrow> 'dyn upgraded \<times> 'p" where
  "upgraded_on f u = (case f (upg_io u) of (io, p) \<Rightarrow> (u\<lparr>upg_io := io\<rparr>, p))"

definition upgraded_transport :: "'dyn transport \<Rightarrow> 'dyn upgraded transport" where
  "upgraded_transport IO =
     (let R = rewind_transport IO
      in \<lparr>io_read = (\<lambda>u n. upgraded_on (\<lambda>io. io_read R io n) u),
          io_write = (\<lambda>u bs. upgraded_on (\<lambda>io. io_write R io bs) u),
          io_writev = (\<lambda>u bss. upgraded_on (\<lambda>io. io_writev R io bss) u),
          io_flush = upgraded_on (io_flush R),
          io_shutdown = upgraded_on (io_shutdown R),
          io_vectored = (\<lambda>u. io_vectored R (upg_io u))\<rparr>)"

section \<open>Pending and OnUpgrade\<close>

type_synonym 'u upgrades = "'u list"

definition upgrade_pending :: "('u, error + 'dyn upgraded) oneshot \<Rightarrow> 'u upgrades \<Rightarrow> 'u upgrades \<times> nat" where
  "upgrade_pending C us = (us @ [o_new C], length us)"

definition fulfill :: "('u, error + 'dyn upgraded) oneshot \<Rightarrow> 'u upgrades \<Rightarrow> nat \<Rightarrow> 'dyn upgraded \<Rightarrow> 'u upgrades" where
  "fulfill C us tx upgraded = us[tx := fst (o_send C (us ! tx) (Ok upgraded))]"

definition pending_manual :: "('u, error + 'dyn upgraded) oneshot \<Rightarrow> 'u upgrades \<Rightarrow> nat \<Rightarrow> 'u upgrades" where
  "pending_manual C us tx = us[tx := fst (o_send C (us ! tx) (Err new_user_manual_upgrade))]"

definition on_upgrade_none :: "nat option" where
  "on_upgrade_none = None"

definition on_upgrade_is_none :: "nat option \<Rightarrow> bool" where
  "on_upgrade_is_none rx \<longleftrightarrow> rx = None"

definition UpgradeExpected :: cause where
  "UpgradeExpected = CauseUser ''upgrade expected but not completed'' None"

definition on_upgrade_poll ::
    "('u, error + 'dyn upgraded) oneshot \<Rightarrow> 'u upgrades \<Rightarrow> nat option \<Rightarrow> 'u upgrades \<times> (error + 'dyn upgraded) poll" where
  "on_upgrade_poll C us rx =
     (case rx of
        Some rx \<Rightarrow>
          (case o_poll C (us ! rx) of
             (c, p) \<Rightarrow>
               (us[rx := c],
                case p of
                  Pending \<Rightarrow> Pending
                | Ready (Ok (Ok upgraded)) \<Rightarrow> Ready (Ok upgraded)
                | Ready (Ok (Err err)) \<Rightarrow> Ready (Err err)
                | Ready (Err _) \<Rightarrow> Ready (Err (error_with new_canceled UpgradeExpected))))
      | None \<Rightarrow> (us, Ready (Err new_user_no_upgrade)))"

section \<open>Upgraded is a transport\<close>

text \<open>Reading an upgraded connection gives the bytes that were read too far, then what the transport has.\<close>

definition upgraded_input :: "('dyn \<Rightarrow> bytes) \<Rightarrow> 'dyn upgraded \<Rightarrow> bytes" where
  "upgraded_input input u = rewind_input input (upg_io u)"

definition upgraded_sent :: "('dyn \<Rightarrow> bytes) \<Rightarrow> 'dyn upgraded \<Rightarrow> bytes" where
  "upgraded_sent sent u = sent (rw_inner (upg_io u))"

lemma upgraded_onE:
  assumes "upgraded_on f u = (u', p)"
  obtains io where "f (upg_io u) = (io, p)" "upg_io u' = io"
  using assms by (auto simp: upgraded_on_def split: prod.splits)

context transport_laws
begin

lemma upgraded_laws:
  "transport_laws (upgraded_transport IO) (upgraded_input input) (upgraded_sent sent)"
proof -
  note r = transport_laws.read_ok [OF rewind_laws] transport_laws.read_eof [OF rewind_laws]
    transport_laws.read_pending [OF rewind_laws] transport_laws.read_fail [OF rewind_laws]
  note w = transport_laws.write_ok [OF rewind_laws] transport_laws.write_stuck [OF rewind_laws]
    transport_laws.writev_ok [OF rewind_laws] transport_laws.writev_stuck [OF rewind_laws]
    transport_laws.flush_keeps [OF rewind_laws] transport_laws.shutdown_keeps [OF rewind_laws]
  show ?thesis
    by unfold_locales
      (auto simp: upgraded_transport_def upgraded_input_def upgraded_sent_def Let_def elim!: upgraded_onE
        dest: r w)
qed

end

end
