(* ===== verification/Dispatch.thy ===== *)
theory Dispatch
  imports Conn_Life Body_Chan Upgrade
begin

text \<open>
  The HTTP/1 dispatcher (\<open>Dispatcher\<close> of \<^verbatim>\<open>src/src/proto/h1/dispatch.rs\<close>): the future that drives a
  connection, hands incoming messages and their bodies to the service or the caller, and writes
  outgoing messages and the bodies that the user streams.

  \<open>shared\<close> is the memory that the dispatcher shares with the tasks of the user: the channels of
  request and response bodies and the channels of pending upgrades; \<open>'z\<close> is whatever else the dispatch
  and the bodies share. The traits \<open>Dispatch\<close> and
  \<open>HttpBody\<close> are records of operations, which may change the shared memory as well. An outer \<open>None\<close>
  stands for a panic or a loop that does not return.
\<close>

section \<open>Interfaces\<close>

record ('q, 'o, 'u) shared =
  sh_chans :: "('q, 'o) store"
  sh_upgrades :: "'u upgrades"

text \<open>\<open>hb_exact\<close> is \<open>size_hint().exact()\<close>; \<open>hb_full\<close> is present when the type is \<open>Body\<close> itself.\<close>

record ('w, 'bs, 'b) http_body =
  hb_poll_data :: "'w \<Rightarrow> 'bs \<Rightarrow> 'w \<times> 'bs \<times> (cause + 'b) option poll"
  hb_is_end_stream :: "'bs \<Rightarrow> bool"
  hb_exact :: "'bs \<Rightarrow> u64 option"
  hb_full :: "('bs \<Rightarrow> 'bs \<times> 'b option) option"
  hb_drop :: "'w \<Rightarrow> 'bs \<Rightarrow> 'w"

definition take_full_data :: "('w, 'bs, 'b) http_body \<Rightarrow> 'bs \<Rightarrow> 'bs \<times> 'b option" where
  "take_full_data HB body = (case hb_full HB of Some f \<Rightarrow> f body | None \<Rightarrow> (body, None))"

record ('w, 'd, 'inc, 'out, 'hm, 'bs, 'rb) dispatch =
  d_poll_msg :: "'w \<Rightarrow> 'd \<Rightarrow> ('w \<times> 'd \<times> (cause + ('out, 'hm) message_head \<times> 'bs) option poll) option"
  d_recv_msg :: "'w \<Rightarrow> 'd \<Rightarrow> error + ('inc, 'hm) message_head \<times> 'rb \<Rightarrow> 'w \<times> 'd \<times> (error + unit)"
  d_poll_ready :: "'w \<Rightarrow> 'd \<Rightarrow> 'w \<times> 'd \<times> (unit + unit) poll"
  d_should_poll :: "'d \<Rightarrow> bool"

record ('io, 'b, 'tk, 'ch, 'inc, 'out, 'hm, 'uri, 'cfg, 'q, 'o, 's, 'n, 'h, 'u, 'z, 'dyn, 'd, 'bs) dispatch_env =
  x_conn :: "('io, 'b, 'tk, 'ch, 'inc, 'out, 'hm, 'uri, 'cfg) conn_env"
  x_chan :: "('q, 'o, 'hm, 's, 'n, 'h) body_env"
  x_upgrade :: "('u, error + 'dyn upgraded) oneshot"
  x_body :: "(('q, 'o, 'u, 'z) shared_scheme, 'bs, 'b) http_body"
  x_dispatch :: "(('q, 'o, 'u, 'z) shared_scheme, 'd, 'inc, 'out, 'hm, 'bs, ('s, 'n) body) dispatch"

record ('io, 'b, 'tk, 'ch, 'hm, 'cfg, 'q, 'o, 'u, 'z, 'd, 'bs) dispatcher =
  dp_conn :: "('io, 'b, 'tk, 'ch, 'hm, 'cfg, nat) conn"
  dp_dispatch :: 'd
  dp_body_tx :: "nat option"
  dp_body_rx :: "'bs option"
  dp_is_closing :: bool
  dp_shared :: "('q, 'o, 'u, 'z) shared_scheme"

definition dispatcher_new where
  "dispatcher_new dispatch c w =
     \<lparr>dp_conn = c, dp_dispatch = dispatch, dp_body_tx = None, dp_body_rx = None, dp_is_closing = False,
      dp_shared = w\<rparr>"

definition dispatcher_into_inner where
  "dispatcher_into_inner d = (case conn_into_inner (dp_conn d) of (io, buf) \<Rightarrow> (io, buf, dp_dispatch d))"

text \<open>\<open>sender_drop\<close> and \<open>o_drop_tx\<close> on the shared memory.\<close>

definition drop_sender where
  "drop_sender X a w = w\<lparr>sh_chans := sender_drop (x_chan X) (sh_chans w) a\<rparr>"

definition drop_pending where
  "drop_pending X u w =
     (case u of
        None \<Rightarrow> w
      | Some i \<Rightarrow> w\<lparr>sh_upgrades := (sh_upgrades w)[i := o_drop_tx (x_upgrade X) (sh_upgrades w ! i)]\<rparr>)"

section \<open>Closing and flushing\<close>

definition dispatcher_close ::
    "('io, 'b, 'tk, 'ch, 'hm, 'cfg, 'q, 'o, 'u, 'z, 'd, 'bs) dispatcher
     \<Rightarrow> ('io, 'b, 'tk, 'ch, 'hm, 'cfg, 'q, 'o, 'u, 'z, 'd, 'bs) dispatcher" where
  "dispatcher_close d = d\<lparr>dp_is_closing := True, dp_conn := close_write (close_read (dp_conn d))\<rparr>"

definition dispatcher_disable_keep_alive ::
    "('io, 'b, 'tk, 'ch, 'hm, 'cfg, 'q, 'o, 'u, 'z, 'd, 'bs) dispatcher
     \<Rightarrow> ('io, 'b, 'tk, 'ch, 'hm, 'cfg, 'q, 'o, 'u, 'z, 'd, 'bs) dispatcher" where
  "dispatcher_disable_keep_alive d =
     (let d = d\<lparr>dp_conn := disable_keep_alive (dp_conn d)\<rparr>
      in if is_write_closed (dp_conn d) then dispatcher_close d else d)"

definition dispatcher_poll_flush where
  "dispatcher_poll_flush X d =
     (case conn_poll_flush (x_conn X) (dp_conn d) of
        None \<Rightarrow> None
      | Some (c, p) \<Rightarrow>
          Some (d\<lparr>dp_conn := c\<rparr>,
                case p of
                  Pending \<Rightarrow> Pending
                | Ready (Ok _) \<Rightarrow> Ready (Ok ())
                | Ready (Err e) \<Rightarrow> Ready (Err (new_body_write (CauseIo e)))))"

definition is_done where
  "is_done X d \<longleftrightarrow>
     (if dp_is_closing d then True
      else
        let read_done = is_read_closed (dp_conn d)
        in if \<not> should_read_first (e_tx (x_conn X)) \<and> read_done then True
           else
             let write_done = is_write_closed (dp_conn d) \<or>
                   (\<not> d_should_poll (x_dispatch X) (dp_dispatch d) \<and> dp_body_rx d = None)
             in read_done \<and> write_done)"

section \<open>Reading\<close>

text \<open>What one turn of a loop does: go on, or return.\<close>

datatype 'a control = Continue | Return 'a

text \<open>
  A head that was read: make the body, prepare the upgrade, hand both to the dispatch. The new sender
  and the new upgrade take the places of older ones, which are dropped.
\<close>

definition open_body where
  "open_body X d body_len wants =
     (if body_len = ZERO then (d, body_empty)
      else case new_channel (x_chan X) (sh_chans (dp_shared d)) body_len (wants_contains wants WANTS_EXPECT) of
             (st, tx, rx) \<Rightarrow>
               let w = (dp_shared d)\<lparr>sh_chans := st\<rparr>;
                   w = (case dp_body_tx d of None \<Rightarrow> w | Some old \<Rightarrow> drop_sender X old w)
               in (d\<lparr>dp_shared := w, dp_body_tx := Some tx\<rparr>, rx))"

definition attach_upgrade where
  "attach_upgrade X d head wants =
     (if wants_contains wants WANTS_UPGRADE then
        (case upgrade_pending (x_upgrade X) (sh_upgrades (dp_shared d)) of
           (us, up) \<Rightarrow>
             let old = st_upgrade (c_state (dp_conn d));
                 (c, rx) = on_upgrade up (dp_conn d)
             in (d\<lparr>dp_conn := c, dp_shared := drop_pending X old ((dp_shared d)\<lparr>sh_upgrades := us\<rparr>)\<rparr>,
                 head\<lparr>extensions := (extensions head)\<lparr>ext_on_upgrade := Some rx\<rparr>\<rparr>))
      else (d, head))"

definition deliver_head where
  "deliver_head X d head body_len wants =
     (case open_body X d body_len wants of
        (d, body) \<Rightarrow>
          (case attach_upgrade X d head wants of
             (d, head) \<Rightarrow>
               (case d_recv_msg (x_dispatch X) (dp_shared d) (dp_dispatch d) (Ok (head, body)) of
                  (w, ds, res) \<Rightarrow> (d\<lparr>dp_shared := w, dp_dispatch := ds\<rparr>, Ready res))))"

definition dispatcher_poll_read_head where
  "dispatcher_poll_read_head X d =
     (case d_poll_ready (x_dispatch X) (dp_shared d) (dp_dispatch d) of
        (w, ds, p) \<Rightarrow>
          let d = d\<lparr>dp_shared := w, dp_dispatch := ds\<rparr>
          in case p of
               Pending \<Rightarrow> Some (d, Pending)
             | Ready (Err _) \<Rightarrow> Some (dispatcher_close d, Ready (Ok ()))
             | Ready (Ok _) \<Rightarrow>
                 (case conn_poll_read_head (x_conn X) (dp_conn d) of
                    None \<Rightarrow> None
                  | Some (c, q) \<Rightarrow>
                      let d = d\<lparr>dp_conn := c\<rparr>
                      in case q of
                           Pending \<Rightarrow> Some (d, Pending)
                         | Ready (Some (Ok (head, body_len, wants))) \<Rightarrow>
                             Some (deliver_head X d head body_len wants)
                         | Ready (Some (Err err)) \<Rightarrow>
                             (case d_recv_msg (x_dispatch X) (dp_shared d) (dp_dispatch d) (Err err) of
                                (w, ds, res) \<Rightarrow>
                                  let d = d\<lparr>dp_shared := w, dp_dispatch := ds\<rparr>
                                  in case res of
                                       Err e \<Rightarrow> Some (d, Ready (Err e))
                                     | Ok _ \<Rightarrow> Some (dispatcher_close d, Ready (Ok ())))
                         | Ready None \<Rightarrow>
                             Some (if is_write_closed c then dispatcher_close d else d, Ready (Ok ()))))"

text \<open>
  One turn of \<open>poll_read\<close> with the sender \<open>body\<close> taken out of \<open>body_tx\<close>. A sender that is not put back
  is dropped at the end of the turn.
\<close>

definition forward_body where
  "forward_body X d body =
     (let d = d\<lparr>dp_body_tx := None\<rparr>;
          drop = (\<lambda>d. d\<lparr>dp_shared := drop_sender X body (dp_shared d)\<rparr>);
          set = (\<lambda>st d. d\<lparr>dp_shared := (dp_shared d)\<lparr>sh_chans := st\<rparr>\<rparr>);
          keep = (\<lambda>d. d\<lparr>dp_body_tx := Some body\<rparr>)
      in if can_read_body (dp_conn d) then
           (case sender_poll_ready (x_chan X) (sh_chans (dp_shared d)) body of
              None \<Rightarrow> None
            | Some (st, Pending) \<Rightarrow> Some (keep (set st d), Return (Pending :: (error + unit) poll))
            | Some (st, Ready (Err _)) \<Rightarrow>
                map_option (\<lambda>c. (drop ((set st d)\<lparr>dp_conn := c\<rparr>), Continue))
                  (poll_drain_or_close_read (x_conn X) (dp_conn d))
            | Some (st, Ready (Ok _)) \<Rightarrow>
                (case poll_read_body (x_conn X) (dp_conn d) of
                   None \<Rightarrow> None
                 | Some (c, p) \<Rightarrow>
                     let d = (set st d)\<lparr>dp_conn := c\<rparr>
                     in case p of
                          Ready (Some (Ok chunk)) \<Rightarrow>
                            (case try_send_data (x_chan X) st body chunk of
                               None \<Rightarrow> None
                             | Some (st, Ok _) \<Rightarrow> Some (keep (set st d), Continue)
                             | Some (st, Err _) \<Rightarrow>
                                 Some (drop ((set st d)\<lparr>dp_conn := (if can_read_body c then close_read c else c)\<rparr>),
                                       Continue))
                        | Ready None \<Rightarrow> Some (drop d, Continue)
                        | Pending \<Rightarrow> Some (keep d, Return Pending)
                        | Ready (Some (Err e)) \<Rightarrow>
                            Some (drop (set (send_error (x_chan X) st body (new_body (CauseIo e))) d), Continue)))
         else Some (drop d, Continue))"

partial_function (option) dispatcher_poll_read ::
    "('io, 'b, 'tk, 'ch, 'inc, 'out, 'hm, 'uri, 'cfg, 'q, 'o, 's, 'n, 'h, 'u, 'z, 'dyn, 'd, 'bs) dispatch_env
     \<Rightarrow> ('io, 'b, 'tk, 'ch, 'hm, 'cfg, 'q, 'o, 'u, 'z, 'd, 'bs) dispatcher
     \<Rightarrow> (('io, 'b, 'tk, 'ch, 'hm, 'cfg, 'q, 'o, 'u, 'z, 'd, 'bs) dispatcher \<times> (error + unit) poll) option" where
  "dispatcher_poll_read X d =
     (if dp_is_closing d then Some (d, Ready (Ok ()))
      else if can_read_head (x_conn X) (dp_conn d) then
        (case dispatcher_poll_read_head X d of
           None \<Rightarrow> None
         | Some (d, Ready (Ok _)) \<Rightarrow> dispatcher_poll_read X d
         | Some (d, p) \<Rightarrow> Some (d, p))
      else
        case dp_body_tx d of
          Some body \<Rightarrow>
            (case forward_body X d body of
               None \<Rightarrow> None
             | Some (d, Continue) \<Rightarrow> dispatcher_poll_read X d
             | Some (d, Return p) \<Rightarrow> Some (d, p))
        | None \<Rightarrow>
            (case poll_read_keep_alive (x_conn X) (dp_conn d) of (c, p) \<Rightarrow> Some (d\<lparr>dp_conn := c\<rparr>, p)))"

section \<open>Writing\<close>

text \<open>
  The next message of the dispatch. A body whose data is known goes out with the head; any other body
  is kept in \<open>body_rx\<close> unless it has ended already.
\<close>

definition write_next_msg where
  "write_next_msg X d =
     (case d_poll_msg (x_dispatch X) (dp_shared d) (dp_dispatch d) of
        None \<Rightarrow> None
      | Some (w, ds, p) \<Rightarrow>
          let d = d\<lparr>dp_shared := w, dp_dispatch := ds\<rparr>
          in case p of
               Pending \<Rightarrow> Some (d, Return Pending)
             | Ready None \<Rightarrow> Some (dispatcher_close d, Return (Ready (Ok ())))
             | Ready (Some (Err e)) \<Rightarrow> Some (d, Return (Ready (Err (new_user_service e))))
             | Ready (Some (Ok (head, body))) \<Rightarrow>
                 (case take_full_data (x_body X) body of
                    (body, Some full) \<Rightarrow>
                      map_option (\<lambda>c. (d\<lparr>dp_conn := c, dp_shared := hb_drop (x_body X) (dp_shared d) body\<rparr>,
                                      Return (Ready (Ok ()))))
                        (write_full_msg (x_conn X) (dp_conn d) head full)
                  | (body, None) \<Rightarrow>
                      if hb_is_end_stream (x_body X) body then
                        map_option (\<lambda>c. (d\<lparr>dp_conn := c, dp_body_rx := None,
                                          dp_shared := hb_drop (x_body X) (dp_shared d) body\<rparr>, Continue))
                          (write_head (x_conn X) (dp_conn d) head None)
                      else
                        let btype = (case hb_exact (x_body X) body of Some n \<Rightarrow> Known n | None \<Rightarrow> Unknown)
                        in map_option (\<lambda>c. (d\<lparr>dp_conn := c, dp_body_rx := Some body\<rparr>, Continue))
                             (write_head (x_conn X) (dp_conn d) head (Some btype))))"

text \<open>The next piece of the body in \<open>body_rx\<close>.\<close>

definition write_body_piece where
  "write_body_piece X d body =
     (let clear = (\<lambda>body d. d\<lparr>dp_body_rx := None, dp_shared := hb_drop (x_body X) (dp_shared d) body\<rparr>);
          end_with = (\<lambda>body d.
            case end_body (x_conn X) (dp_conn d) of
              None \<Rightarrow> None
            | Some (c, Err e) \<Rightarrow> Some (clear body (d\<lparr>dp_conn := c\<rparr>), Return (Ready (Err e)))
            | Some (c, Ok _) \<Rightarrow> Some (clear body (d\<lparr>dp_conn := c\<rparr>), Continue))
      in if \<not> can_write_body (dp_conn d) then Some (clear body d, Continue)
         else
           case hb_poll_data (x_body X) (dp_shared d) body of
             (w, body, p) \<Rightarrow>
               let d = d\<lparr>dp_shared := w, dp_body_rx := Some body\<rparr>
               in case p of
                    Pending \<Rightarrow> Some (d, Return (Pending :: (error + unit) poll))
                  | Ready (Some (Err e)) \<Rightarrow> Some (clear body d, Return (Ready (Err (new_user_body e))))
                  | Ready (Some (Ok chunk)) \<Rightarrow>
                      if hb_is_end_stream (x_body X) body then
                        (if b_remaining (buf_b (e_bytes (x_conn X))) chunk = 0 then end_with body d
                         else map_option (\<lambda>c. (clear body (d\<lparr>dp_conn := c\<rparr>), Continue))
                                (write_body_and_end (x_conn X) (dp_conn d) chunk))
                      else if b_remaining (buf_b (e_bytes (x_conn X))) chunk = 0 then Some (d, Continue)
                      else map_option (\<lambda>c. (d\<lparr>dp_conn := c\<rparr>, Continue)) (write_body (x_conn X) (dp_conn d) chunk)
                  | Ready None \<Rightarrow> end_with body d)"

partial_function (option) dispatcher_poll_write ::
    "('io, 'b, 'tk, 'ch, 'inc, 'out, 'hm, 'uri, 'cfg, 'q, 'o, 's, 'n, 'h, 'u, 'z, 'dyn, 'd, 'bs) dispatch_env
     \<Rightarrow> ('io, 'b, 'tk, 'ch, 'hm, 'cfg, 'q, 'o, 'u, 'z, 'd, 'bs) dispatcher
     \<Rightarrow> (('io, 'b, 'tk, 'ch, 'hm, 'cfg, 'q, 'o, 'u, 'z, 'd, 'bs) dispatcher \<times> (error + unit) poll) option" where
  "dispatcher_poll_write X d =
     (if dp_is_closing d then Some (d, Ready (Ok ()))
      else if dp_body_rx d = None \<and> can_write_head (x_conn X) (dp_conn d) \<and>
              d_should_poll (x_dispatch X) (dp_dispatch d) then
        (case write_next_msg X d of
           None \<Rightarrow> None
         | Some (d, Continue) \<Rightarrow> dispatcher_poll_write X d
         | Some (d, Return p) \<Rightarrow> Some (d, p))
      else if \<not> can_buffer_body (x_conn X) (dp_conn d) then
        (case dispatcher_poll_flush X d of
           None \<Rightarrow> None
         | Some (d, Ready (Ok _)) \<Rightarrow> dispatcher_poll_write X d
         | Some (d, p) \<Rightarrow> Some (d, p))
      else
        case dp_body_rx d of
          Some body \<Rightarrow>
            (case write_body_piece X d body of
               None \<Rightarrow> None
             | Some (d, Continue) \<Rightarrow> dispatcher_poll_write X d
             | Some (d, Return p) \<Rightarrow> Some (d, p))
        | None \<Rightarrow> Some (d, Pending))"

section \<open>Polling\<close>

text \<open>The \<open>for\<close> loop of \<open>poll_loop\<close>; when its turns are used up the task yields.\<close>

primrec poll_loop_turns where
  "poll_loop_turns X 0 d = Some (d, Pending)"
| "poll_loop_turns X (Suc n) d =
     (case dispatcher_poll_read X d of
        None \<Rightarrow> None
      | Some (d, Ready (Err e)) \<Rightarrow> Some (d, Ready (Err e))
      | Some (d, _) \<Rightarrow>
          (case dispatcher_poll_write X d of
             None \<Rightarrow> None
           | Some (d, Ready (Err e)) \<Rightarrow> Some (d, Ready (Err e))
           | Some (d, _) \<Rightarrow>
               (case dispatcher_poll_flush X d of
                  None \<Rightarrow> None
                | Some (d, Ready (Err e)) \<Rightarrow> Some (d, Ready (Err e))
                | Some (d, _) \<Rightarrow>
                    (case wants_read_again (dp_conn d) of
                       (c, again) \<Rightarrow>
                         let d = d\<lparr>dp_conn := c\<rparr>
                         in if \<not> again then Some (d, Ready (Ok ())) else poll_loop_turns X n d))))"

definition poll_loop where
  "poll_loop X d = poll_loop_turns X 16 d"

datatype dispatched = Shutdown | DispatchedUpgrade nat

text \<open>\<open>take_error\<close> and what follows; a \<open>Pending\<close> half that is not returned is dropped.\<close>

definition dispatcher_finish where
  "dispatcher_finish X d done up =
     (case take_error (dp_conn d) of
        (c, Err e) \<Rightarrow> (d\<lparr>dp_conn := c, dp_shared := drop_pending X up (dp_shared d)\<rparr>, Ready (Err e))
      | (c, Ok _) \<Rightarrow> (d\<lparr>dp_conn := c\<rparr>, Ready (Ok done)))"

definition dispatcher_poll_inner where
  "dispatcher_poll_inner X should_shutdown d =
     (case poll_loop X d of
        None \<Rightarrow> None
      | Some (d, Pending) \<Rightarrow> Some (d, Pending)
      | Some (d, Ready (Err e)) \<Rightarrow> Some (d, Ready (Err e))
      | Some (d, Ready (Ok _)) \<Rightarrow>
          if is_done X d then
            (case pending_upgrade (dp_conn d) of
               (c, Some pending) \<Rightarrow>
                 Some (dispatcher_finish X (d\<lparr>dp_conn := c\<rparr>) (DispatchedUpgrade pending) (Some pending))
             | (c, None) \<Rightarrow>
                 let d = d\<lparr>dp_conn := c\<rparr>
                 in if should_shutdown then
                      (case conn_poll_shutdown (x_conn X) (dp_conn d) of
                         (c, Pending) \<Rightarrow> Some (d\<lparr>dp_conn := c\<rparr>, Pending)
                       | (c, Ready (Err e)) \<Rightarrow> Some (d\<lparr>dp_conn := c\<rparr>, Ready (Err (new_shutdown e)))
                       | (c, Ready (Ok _)) \<Rightarrow> Some (dispatcher_finish X (d\<lparr>dp_conn := c\<rparr>) Shutdown None))
                    else Some (dispatcher_finish X d Shutdown None))
          else Some (d, Pending))"

definition poll_catch where
  "poll_catch X should_shutdown d =
     (case dispatcher_poll_inner X should_shutdown d of
        None \<Rightarrow> None
      | Some (d, Ready (Err e)) \<Rightarrow>
          (case d_recv_msg (x_dispatch X) (dp_shared d) (dp_dispatch d) (Err e) of
             (w, ds, res) \<Rightarrow>
               Some (d\<lparr>dp_shared := w, dp_dispatch := ds\<rparr>,
                     Ready (case res of Ok _ \<Rightarrow> Ok Shutdown | Err e \<Rightarrow> Err e)))
      | Some (d, p) \<Rightarrow> Some (d, p))"

definition poll_without_shutdown where
  "poll_without_shutdown X d =
     (case poll_catch X False d of
        None \<Rightarrow> None
      | Some (d, Ready (Ok (DispatchedUpgrade pending))) \<Rightarrow>
          Some (d\<lparr>dp_shared := (dp_shared d)\<lparr>sh_upgrades :=
                  pending_manual (x_upgrade X) (sh_upgrades (dp_shared d)) pending\<rparr>\<rparr>, Ready (Ok ()))
      | Some (d, Ready (Ok Shutdown)) \<Rightarrow> Some (d, Ready (Ok ()))
      | Some (d, Ready (Err e)) \<Rightarrow> Some (d, Ready (Err e))
      | Some (d, Pending) \<Rightarrow> Some (d, Pending))"

text \<open>
  What becomes of the shared memory when the dispatcher is dropped, which happens once its future has
  completed. The dispatch is dropped on its own.
\<close>

definition dispatcher_drop where
  "dispatcher_drop X d =
     (let w = drop_pending X (st_upgrade (c_state (dp_conn d))) (dp_shared d);
          w = (case dp_body_tx d of None \<Rightarrow> w | Some a \<Rightarrow> drop_sender X a w)
      in case dp_body_rx d of None \<Rightarrow> w | Some body \<Rightarrow> hb_drop (x_body X) w body)"

text \<open>\<open>impl Future for Dispatcher\<close>.\<close>

definition dispatcher_poll where
  "dispatcher_poll X d = poll_catch X True d"

end
