(* ===== verification/Client_Dispatch.thy ===== *)
theory Client_Dispatch
  imports Errors Oneshot
begin

text \<open>
  The channel between the senders of requests and the task of a client connection
  (\<^verbatim>\<open>src/src/client/dispatch.rs\<close>), and the futures of \<^verbatim>\<open>src/src/client/conn.rs\<close> that wait for the answers.

  The queue of \<open>tokio\<close>, the giver and taker of the \<open>want\<close> crate and the one-shot channels of the answers
  are arguments. A channel is one object: its queue, its want state, whether the sender has used up its
  free message, and the one-shot channels of all requests that were sent; a callback is the number of
  its one-shot channel. The answer to a request is \<open>(error \<times> 't option) + 'r\<close>: a request that was not
  started comes back with the error, except through a \<open>NoRetry\<close> callback, which has no place for it.
\<close>

section \<open>What the channel relies on\<close>

record ('m, 'x) unbounded =
  um_new :: 'm
  um_send :: "'m \<Rightarrow> 'x \<Rightarrow> 'm \<times> ('x + unit)"
  um_poll_recv :: "'m \<Rightarrow> 'm \<times> 'x option poll"
  um_close :: "'m \<Rightarrow> 'm"
  um_drop_rx :: "'m \<Rightarrow> 'm \<times> 'x list"

record 'g want =
  wn_new :: 'g
  wn_give :: "'g \<Rightarrow> 'g \<times> bool"
  wn_poll_want :: "'g \<Rightarrow> 'g \<times> (unit + unit) poll"
  wn_is_wanting :: "'g \<Rightarrow> bool"
  wn_is_canceled :: "'g \<Rightarrow> bool"
  wn_want :: "'g \<Rightarrow> 'g"
  wn_cancel :: "'g \<Rightarrow> 'g"

text \<open>\<open>Envelope\<close> is empty once its content has been taken out.\<close>

datatype callback = Retry nat | NoRetry nat

type_synonym 't envelope = "('t \<times> callback) option"

type_synonym ('t, 'r) answer = "(error \<times> 't option) + 'r"

record ('t, 'r, 'm, 'g, 'c) client_env =
  ce_queue :: "('m, 't envelope) unbounded"
  ce_want :: "'g want"
  ce_call :: "('c, ('t, 'r) answer) oneshot"

record ('m, 'g, 'c) client_chan =
  cc_buffered_once :: bool
  cc_giver :: 'g
  cc_inner :: 'm
  cc_calls :: "'c list"

definition client_channel :: "('t, 'r, 'm, 'g, 'c) client_env \<Rightarrow> ('m, 'g, 'c) client_chan" where
  "client_channel C =
     \<lparr>cc_buffered_once = False, cc_giver = wn_new (ce_want C), cc_inner = um_new (ce_queue C), cc_calls = []\<rparr>"

section \<open>Callbacks\<close>

fun callback_id :: "callback \<Rightarrow> nat" where
  "callback_id (Retry i) = i"
| "callback_id (NoRetry i) = i"

definition callback_is_canceled :: "('t, 'r, 'm, 'g, 'c) client_env \<Rightarrow> ('m, 'g, 'c) client_chan \<Rightarrow> callback \<Rightarrow> bool" where
  "callback_is_canceled C ch cb = o_is_closed (ce_call C) (cc_calls ch ! callback_id cb)"

definition poll_canceled :: "('t, 'r, 'm, 'g, 'c) client_env \<Rightarrow> ('m, 'g, 'c) client_chan \<Rightarrow> callback \<Rightarrow> unit poll" where
  "poll_canceled C ch cb = (if o_is_closed (ce_call C) (cc_calls ch ! callback_id cb) then Ready () else Pending)"

fun for_callback :: "callback \<Rightarrow> ('t, 'r) answer \<Rightarrow> ('t, 'r) answer" where
  "for_callback (Retry _) val = val"
| "for_callback (NoRetry _) val = (case val of Err e \<Rightarrow> Err (fst e, None) | Ok r \<Rightarrow> Ok r)"

definition callback_send ::
    "('t, 'r, 'm, 'g, 'c) client_env \<Rightarrow> ('m, 'g, 'c) client_chan \<Rightarrow> callback \<Rightarrow> ('t, 'r) answer
     \<Rightarrow> ('m, 'g, 'c) client_chan" where
  "callback_send C ch cb val =
     (let i = callback_id cb
      in ch\<lparr>cc_calls := (cc_calls ch)[i := fst (o_send (ce_call C) (cc_calls ch ! i) (for_callback cb val))]\<rparr>)"

text \<open>A callback that is dropped without an answer.\<close>

definition callback_drop ::
    "('t, 'r, 'm, 'g, 'c) client_env \<Rightarrow> ('m, 'g, 'c) client_chan \<Rightarrow> callback \<Rightarrow> ('m, 'g, 'c) client_chan" where
  "callback_drop C ch cb =
     (let i = callback_id cb
      in ch\<lparr>cc_calls := (cc_calls ch)[i := o_drop_tx (ce_call C) (cc_calls ch ! i)]\<rparr>)"

text \<open>Dropping an envelope with its content cancels the request.\<close>

definition connection_closed :: error where
  "connection_closed = error_with new_canceled (CauseUser ''connection closed'' None)"

definition envelope_drop ::
    "('t, 'r, 'm, 'g, 'c) client_env \<Rightarrow> 't envelope \<Rightarrow> ('m, 'g, 'c) client_chan \<Rightarrow> ('m, 'g, 'c) client_chan" where
  "envelope_drop C env ch =
     (case env of
        None \<Rightarrow> ch
      | Some (val, cb) \<Rightarrow> callback_send C ch cb (Err (connection_closed, Some val)))"

text \<open>
  One poll of \<open>send_when\<close>: the answer goes out when the future \<open>when\<close> is done, and the wait ends when
  nobody waits for the answer any more.
\<close>

definition send_when_poll ::
    "('t, 'r, 'm, 'g, 'c) client_env \<Rightarrow> ('m, 'g, 'c) client_chan \<Rightarrow> callback \<Rightarrow> ('t, 'r) answer poll
     \<Rightarrow> ('m, 'g, 'c) client_chan \<times> unit poll" where
  "send_when_poll C ch cb when =
     (case when of
        Ready res \<Rightarrow> (callback_send C ch cb res, Ready ())
      | Pending \<Rightarrow>
          (case poll_canceled C ch cb of
             Pending \<Rightarrow> (ch, Pending)
           | Ready _ \<Rightarrow> (callback_drop C ch cb, Ready ())))"

section \<open>The sender\<close>

definition cd_poll_ready ::
    "('t, 'r, 'm, 'g, 'c) client_env \<Rightarrow> ('m, 'g, 'c) client_chan \<Rightarrow> ('m, 'g, 'c) client_chan \<times> (error + unit) poll" where
  "cd_poll_ready C ch =
     (case wn_poll_want (ce_want C) (cc_giver ch) of
        (g, p) \<Rightarrow>
          (ch\<lparr>cc_giver := g\<rparr>,
           case p of
             Pending \<Rightarrow> Pending
           | Ready (Ok _) \<Rightarrow> Ready (Ok ())
           | Ready (Err _) \<Rightarrow> Ready (Err new_closed)))"

definition cd_is_ready :: "('t, 'r, 'm, 'g, 'c) client_env \<Rightarrow> ('m, 'g, 'c) client_chan \<Rightarrow> bool" where
  "cd_is_ready C ch = wn_is_wanting (ce_want C) (cc_giver ch)"

definition cd_is_closed :: "('t, 'r, 'm, 'g, 'c) client_env \<Rightarrow> ('m, 'g, 'c) client_chan \<Rightarrow> bool" where
  "cd_is_closed C ch = wn_is_canceled (ce_want C) (cc_giver ch)"

text \<open>One message is allowed before the receiver has asked for it.\<close>

definition can_send ::
    "('t, 'r, 'm, 'g, 'c) client_env \<Rightarrow> ('m, 'g, 'c) client_chan \<Rightarrow> ('m, 'g, 'c) client_chan \<times> bool" where
  "can_send C ch =
     (case wn_give (ce_want C) (cc_giver ch) of
        (g, given) \<Rightarrow>
          if given \<or> \<not> cc_buffered_once ch
          then (ch\<lparr>cc_giver := g, cc_buffered_once := True\<rparr>, True)
          else (ch\<lparr>cc_giver := g\<rparr>, False))"

text \<open>
  Sending a request with a fresh callback: the number of its channel, or the request back. When the
  queue is closed the envelope comes back and is emptied, which drops both ends of the new channel.
\<close>

definition send_envelope ::
    "('t, 'r, 'm, 'g, 'c) client_env \<Rightarrow> (nat \<Rightarrow> callback) \<Rightarrow> ('m, 'g, 'c) client_chan \<Rightarrow> 't
     \<Rightarrow> (('m, 'g, 'c) client_chan \<times> ('t + nat)) option" where
  "send_envelope C kind ch val =
     (let i = length (cc_calls ch);
          ch = ch\<lparr>cc_calls := cc_calls ch @ [o_new (ce_call C)]\<rparr>
      in case um_send (ce_queue C) (cc_inner ch) (Some (val, kind i)) of
           (m, Ok _) \<Rightarrow> Some (ch\<lparr>cc_inner := m\<rparr>, Ok i)
         | (m, Err (Some (val, cb))) \<Rightarrow>
             let ch = callback_drop C (ch\<lparr>cc_inner := m\<rparr>) cb
             in Some (ch\<lparr>cc_calls := (cc_calls ch)[i := o_drop_rx (ce_call C) (cc_calls ch ! i)]\<rparr>, Err val)
         | (m, Err None) \<Rightarrow> None)"

definition cd_try_send ::
    "('t, 'r, 'm, 'g, 'c) client_env \<Rightarrow> ('m, 'g, 'c) client_chan \<Rightarrow> 't
     \<Rightarrow> (('m, 'g, 'c) client_chan \<times> ('t + nat)) option" where
  "cd_try_send C ch val =
     (case can_send C ch of (ch, ok) \<Rightarrow> if \<not> ok then Some (ch, Err val) else send_envelope C Retry ch val)"

definition cd_send ::
    "('t, 'r, 'm, 'g, 'c) client_env \<Rightarrow> ('m, 'g, 'c) client_chan \<Rightarrow> 't
     \<Rightarrow> (('m, 'g, 'c) client_chan \<times> ('t + nat)) option" where
  "cd_send C ch val =
     (case can_send C ch of (ch, ok) \<Rightarrow> if \<not> ok then Some (ch, Err val) else send_envelope C NoRetry ch val)"

text \<open>The unbounded sender of HTTP/2 connections does not ask the giver.\<close>

definition unbounded_is_ready :: "('t, 'r, 'm, 'g, 'c) client_env \<Rightarrow> ('m, 'g, 'c) client_chan \<Rightarrow> bool" where
  "unbounded_is_ready C ch \<longleftrightarrow> \<not> wn_is_canceled (ce_want C) (cc_giver ch)"

definition unbounded_is_closed :: "('t, 'r, 'm, 'g, 'c) client_env \<Rightarrow> ('m, 'g, 'c) client_chan \<Rightarrow> bool" where
  "unbounded_is_closed C ch \<longleftrightarrow> wn_is_canceled (ce_want C) (cc_giver ch)"

definition unbounded_try_send ::
    "('t, 'r, 'm, 'g, 'c) client_env \<Rightarrow> ('m, 'g, 'c) client_chan \<Rightarrow> 't
     \<Rightarrow> (('m, 'g, 'c) client_chan \<times> ('t + nat)) option" where
  "unbounded_try_send C ch val = send_envelope C Retry ch val"

section \<open>The receiver\<close>

definition cd_poll_recv ::
    "('t, 'r, 'm, 'g, 'c) client_env \<Rightarrow> ('m, 'g, 'c) client_chan
     \<Rightarrow> (('m, 'g, 'c) client_chan \<times> ('t \<times> callback) option poll) option" where
  "cd_poll_recv C ch =
     (case um_poll_recv (ce_queue C) (cc_inner ch) of
        (m, Ready None) \<Rightarrow> Some (ch\<lparr>cc_inner := m\<rparr>, Ready None)
      | (m, Ready (Some (Some x))) \<Rightarrow> Some (ch\<lparr>cc_inner := m\<rparr>, Ready (Some x))
      | (m, Ready (Some None)) \<Rightarrow> None
      | (m, Pending) \<Rightarrow> Some (ch\<lparr>cc_inner := m, cc_giver := wn_want (ce_want C) (cc_giver ch)\<rparr>, Pending))"

definition cd_close :: "('t, 'r, 'm, 'g, 'c) client_env \<Rightarrow> ('m, 'g, 'c) client_chan \<Rightarrow> ('m, 'g, 'c) client_chan" where
  "cd_close C ch =
     ch\<lparr>cc_giver := wn_cancel (ce_want C) (cc_giver ch), cc_inner := um_close (ce_queue C) (cc_inner ch)\<rparr>"

definition cd_try_recv ::
    "('t, 'r, 'm, 'g, 'c) client_env \<Rightarrow> ('m, 'g, 'c) client_chan \<Rightarrow> ('m, 'g, 'c) client_chan \<times> ('t \<times> callback) option" where
  "cd_try_recv C ch =
     (case um_poll_recv (ce_queue C) (cc_inner ch) of
        (m, Ready (Some env)) \<Rightarrow> (ch\<lparr>cc_inner := m\<rparr>, env)
      | (m, _) \<Rightarrow> (ch\<lparr>cc_inner := m\<rparr>, None))"

text \<open>The giver learns of the closure first; then the queue goes, with the envelopes that are in it.\<close>

definition receiver_drop ::
    "('t, 'r, 'm, 'g, 'c) client_env \<Rightarrow> ('m, 'g, 'c) client_chan \<Rightarrow> ('m, 'g, 'c) client_chan" where
  "receiver_drop C ch =
     (let ch = ch\<lparr>cc_giver := wn_cancel (ce_want C) (cc_giver ch)\<rparr>
      in case um_drop_rx (ce_queue C) (cc_inner ch) of
           (m, envs) \<Rightarrow> fold (envelope_drop C) envs (ch\<lparr>cc_inner := m\<rparr>))"

section \<open>Waiting for an answer\<close>

text \<open>
  \<open>ResponseFuture::poll\<close> and the future of \<open>send_request_retryable\<close>: a channel whose sending half is
  gone without an answer is a panic.
\<close>

datatype response_future = Waiting nat | FutureError "error option"

definition response_future_poll ::
    "('t, 'r, 'm, 'g, 'c) client_env \<Rightarrow> ('m, 'g, 'c) client_chan \<Rightarrow> response_future
     \<Rightarrow> (('m, 'g, 'c) client_chan \<times> response_future \<times> (error + 'r) poll) option" where
  "response_future_poll C ch fut =
     (case fut of
        Waiting i \<Rightarrow>
          (case o_poll (ce_call C) (cc_calls ch ! i) of
             (c, p) \<Rightarrow>
               let ch = ch\<lparr>cc_calls := (cc_calls ch)[i := c]\<rparr>
               in case p of
                    Pending \<Rightarrow> Some (ch, fut, Pending)
                  | Ready (Ok (Ok resp)) \<Rightarrow> Some (ch, fut, Ready (Ok resp))
                  | Ready (Ok (Err err)) \<Rightarrow> Some (ch, fut, Ready (Err (fst err)))
                  | Ready (Err _) \<Rightarrow> None)
      | FutureError (Some err) \<Rightarrow> Some (ch, FutureError None, Ready (Err err))
      | FutureError None \<Rightarrow> None)"

definition not_ready_error :: error where
  "not_ready_error = error_with new_canceled (CauseUser ''connection was not ready'' None)"

definition send_request ::
    "('t, 'r, 'm, 'g, 'c) client_env \<Rightarrow> ('m, 'g, 'c) client_chan \<Rightarrow> 't
     \<Rightarrow> (('m, 'g, 'c) client_chan \<times> response_future) option" where
  "send_request C ch req =
     map_option (\<lambda>(ch, r). (ch, case r of Ok rx \<Rightarrow> Waiting rx | Err _ \<Rightarrow> FutureError (Some not_ready_error)))
       (cd_send C ch req)"

text \<open>The future of \<open>send_request_retryable\<close>, which gives an unsent request back.\<close>

datatype 't retry_future = RetryWaiting nat | RetryError error 't

definition send_request_retryable ::
    "('t, 'r, 'm, 'g, 'c) client_env \<Rightarrow> ('m, 'g, 'c) client_chan \<Rightarrow> 't
     \<Rightarrow> (('m, 'g, 'c) client_chan \<times> 't retry_future) option" where
  "send_request_retryable C ch req =
     map_option (\<lambda>(ch, r). (ch, case r of Ok rx \<Rightarrow> RetryWaiting rx | Err req \<Rightarrow> RetryError not_ready_error req))
       (cd_try_send C ch req)"

definition retry_future_poll ::
    "('t, 'r, 'm, 'g, 'c) client_env \<Rightarrow> ('m, 'g, 'c) client_chan \<Rightarrow> 't retry_future
     \<Rightarrow> (('m, 'g, 'c) client_chan \<times> ('t, 'r) answer poll) option" where
  "retry_future_poll C ch fut =
     (case fut of
        RetryWaiting i \<Rightarrow>
          (case o_poll (ce_call C) (cc_calls ch ! i) of
             (c, p) \<Rightarrow>
               let ch = ch\<lparr>cc_calls := (cc_calls ch)[i := c]\<rparr>
               in case p of
                    Pending \<Rightarrow> Some (ch, Pending)
                  | Ready (Ok res) \<Rightarrow> Some (ch, Ready res)
                  | Ready (Err _) \<Rightarrow> None)
      | RetryError err req \<Rightarrow> Some (ch, Ready (Err (err, Some req))))"

end
