(* ===== verification/Dispatch_Roles.thy ===== *)
theory Dispatch_Roles
  imports Dispatch Client_Dispatch
begin

text \<open>
  The two implementations of the \<open>Dispatch\<close> trait (\<^verbatim>\<open>src/src/proto/h1/dispatch.rs\<close>): \<open>Server\<close> calls a
  service with each request and waits for its response, \<open>Client\<close> takes requests from the channel of
  \<^verbatim>\<open>src/src/client/dispatch.rs\<close> and answers them through their callbacks. The service and its futures are
  operations of the user, given by the record \<open>http_service\<close>.
\<close>

section \<open>Requests and responses\<close>

record ('hm, 'uri, 'rb) request =
  rq_method :: string
  rq_uri :: 'uri
  rq_version :: version
  rq_headers :: 'hm
  rq_extensions :: "'hm extensions"
  rq_body :: 'rb

record ('hm, 'rb) response =
  rp_status :: nat
  rp_version :: version
  rp_headers :: 'hm
  rp_extensions :: "'hm extensions"
  rp_body :: 'rb

text \<open>\<open>upgrade::on\<close> takes the receiving end of an upgrade out of the extensions of a message.\<close>

definition take_on_upgrade :: "'hm extensions \<Rightarrow> 'hm extensions \<times> nat option" where
  "take_on_upgrade ext =
     (ext\<lparr>ext_on_upgrade := None\<rparr>, case ext_on_upgrade ext of Some rx \<Rightarrow> Some rx | None \<Rightarrow> on_upgrade_none)"

definition upgrade_on :: "('hm, 'rb) response \<Rightarrow> ('hm, 'rb) response \<times> nat option" where
  "upgrade_on msg =
     (case take_on_upgrade (rp_extensions msg) of (ext, up) \<Rightarrow> (msg\<lparr>rp_extensions := ext\<rparr>, up))"

section \<open>The body of the library as the body of a message\<close>

text \<open>\<open>impl HttpBody for Body\<close>; \<open>exact\<close> is the \<open>exact\<close> of \<open>http_body::SizeHint\<close>.\<close>

definition body_http_body ::
    "('q, 'o, 'hm, 's, 'n, 'h) body_env \<Rightarrow> ('h \<Rightarrow> u64 option)
     \<Rightarrow> (('q, 'o, 'u, 'z) shared_scheme, ('s, 'n) body, bytes) http_body" where
  "body_http_body E exact =
     \<lparr>hb_poll_data = (\<lambda>w b.
        case body_poll_data E (sh_chans w) b of
          (st, b, p) \<Rightarrow>
            (w\<lparr>sh_chans := st\<rparr>, b,
             case p of
               Pending \<Rightarrow> Pending
             | Ready None \<Rightarrow> Ready None
             | Ready (Some (Ok chunk)) \<Rightarrow> Ready (Some (Ok chunk))
             | Ready (Some (Err e)) \<Rightarrow> Ready (Some (Err (CauseHyper e))))),
      hb_is_end_stream = body_is_end_stream, hb_exact = (\<lambda>b. exact (body_size_hint E b)),
      hb_full = Some body_take_full_data,
      hb_drop = (\<lambda>w b. w\<lparr>sh_chans := body_drop E (sh_chans w) b\<rparr>)\<rparr>"

section \<open>Server\<close>

record ('w, 'svc, 'fut, 'hm, 'uri, 'rb, 'bs) http_service =
  svc_poll_ready :: "'w \<Rightarrow> 'svc \<Rightarrow> 'w \<times> 'svc \<times> (cause + unit) poll"
  svc_call :: "'w \<Rightarrow> 'svc \<Rightarrow> ('hm, 'uri, 'rb) request \<Rightarrow> 'w \<times> 'svc \<times> 'fut"
  fut_poll :: "'w \<Rightarrow> 'fut \<Rightarrow> 'w \<times> 'fut \<times> (cause + ('hm, 'bs) response) poll"

record ('svc, 'fut) server =
  sv_in_flight :: "'fut option"
  sv_service :: 'svc

definition server_new :: "'svc \<Rightarrow> ('svc, 'fut) server" where
  "server_new service = \<lparr>sv_in_flight = None, sv_service = service\<rparr>"

definition into_service :: "('svc, 'fut) server \<Rightarrow> 'svc" where
  "into_service s = sv_service s"

text \<open>Without a request in flight \<open>poll_msg\<close> is an \<open>unreachable!\<close>.\<close>

definition server_poll_msg ::
    "('w, 'svc, 'fut, 'hm, 'uri, 'rb, 'bs) http_service \<Rightarrow> 'w \<Rightarrow> ('svc, 'fut) server
     \<Rightarrow> ('w \<times> ('svc, 'fut) server \<times> (cause + 'hm response_head \<times> 'bs) option poll) option" where
  "server_poll_msg S w s =
     (case sv_in_flight s of
        None \<Rightarrow> None
      | Some fut \<Rightarrow>
          (case fut_poll S w fut of
             (w, fut, p) \<Rightarrow>
               let s = s\<lparr>sv_in_flight := Some fut\<rparr>
               in case p of
                    Pending \<Rightarrow> Some (w, s, Pending)
                  | Ready (Err e) \<Rightarrow> Some (w, s, Ready (Some (Err e)))
                  | Ready (Ok resp) \<Rightarrow>
                      Some (w, s\<lparr>sv_in_flight := None\<rparr>,
                            Ready (Some (Ok (\<lparr>version = rp_version resp, subject = rp_status resp,
                                              headers = rp_headers resp, extensions = rp_extensions resp\<rparr>,
                                             rp_body resp))))))"

definition server_recv_msg ::
    "('w, 'svc, 'fut, 'hm, 'uri, 'rb, 'bs) http_service \<Rightarrow> 'w \<Rightarrow> ('svc, 'fut) server
     \<Rightarrow> error + ('hm, 'uri) request_head \<times> 'rb \<Rightarrow> 'w \<times> ('svc, 'fut) server \<times> (error + unit)" where
  "server_recv_msg S w s msg =
     (case msg of
        Err e \<Rightarrow> (w, s, Err e)
      | Ok (head, body) \<Rightarrow>
          (case subject head of
             RequestLine meth uri \<Rightarrow>
               let req = \<lparr>rq_method = meth, rq_uri = uri, rq_version = version head, rq_headers = headers head,
                          rq_extensions = extensions head, rq_body = body\<rparr>
               in case svc_call S w (sv_service s) req of
                    (w, svc, fut) \<Rightarrow> (w, s\<lparr>sv_service := svc, sv_in_flight := Some fut\<rparr>, Ok ())))"

definition server_poll_ready ::
    "('w, 'svc, 'fut, 'hm, 'uri, 'rb, 'bs) http_service \<Rightarrow> 'w \<Rightarrow> ('svc, 'fut) server
     \<Rightarrow> 'w \<times> ('svc, 'fut) server \<times> (unit + unit) poll" where
  "server_poll_ready S w s =
     (if sv_in_flight s \<noteq> None then (w, s, Pending)
      else case svc_poll_ready S w (sv_service s) of
             (w, svc, p) \<Rightarrow>
               (w, s\<lparr>sv_service := svc\<rparr>,
                case p of Pending \<Rightarrow> Pending | Ready (Ok _) \<Rightarrow> Ready (Ok ()) | Ready (Err _) \<Rightarrow> Ready (Err ())))"

definition server_should_poll :: "('svc, 'fut) server \<Rightarrow> bool" where
  "server_should_poll s \<longleftrightarrow> sv_in_flight s \<noteq> None"

definition server_dispatch ::
    "('w, 'svc, 'fut, 'hm, 'uri, 'rb, 'bs) http_service
     \<Rightarrow> ('w, ('svc, 'fut) server, 'uri request_line, nat, 'hm, 'bs, 'rb) dispatch" where
  "server_dispatch S =
     \<lparr>d_poll_msg = server_poll_msg S, d_recv_msg = server_recv_msg S, d_poll_ready = server_poll_ready S,
      d_should_poll = server_should_poll\<rparr>"

section \<open>Client\<close>

text \<open>The channel of requests lives in the shared memory; its receiver is held by the client.\<close>

record ('q, 'o, 'u, 'm, 'g, 'c) client_shared = "('q, 'o, 'u) shared" +
  cs_chan :: "('m, 'g, 'c) client_chan"

record client =
  cl_callback :: "callback option"
  cl_rx_closed :: bool

definition client_new :: client where
  "client_new = \<lparr>cl_callback = None, cl_rx_closed = False\<rparr>"

text \<open>A request whose caller is gone is dropped with its callback, and ends the connection.\<close>

definition client_poll_msg ::
    "(('hm, 'uri, 'bs) request, ('hm, 'rb) response, 'm, 'g, 'c) client_env
     \<Rightarrow> (('q, 'o, 'u, 'm, 'g, 'c) client_shared \<Rightarrow> 'bs \<Rightarrow> ('q, 'o, 'u, 'm, 'g, 'c) client_shared)
     \<Rightarrow> ('q, 'o, 'u, 'm, 'g, 'c) client_shared \<Rightarrow> client
     \<Rightarrow> (('q, 'o, 'u, 'm, 'g, 'c) client_shared \<times> client \<times> (cause + ('hm, 'uri) request_head \<times> 'bs) option poll) option" where
  "client_poll_msg C drop_body w cl =
     (case cd_poll_recv C (cs_chan w) of
        None \<Rightarrow> None
      | Some (ch, Ready (Some (req, cb))) \<Rightarrow>
          (case poll_canceled C ch cb of
             Ready _ \<Rightarrow> Some (drop_body (w\<lparr>cs_chan := callback_drop C ch cb\<rparr>) (rq_body req), cl, Ready None)
           | Pending \<Rightarrow>
               Some (w\<lparr>cs_chan := ch\<rparr>, cl\<lparr>cl_callback := Some cb\<rparr>,
                     Ready (Some (Ok (\<lparr>version = rq_version req, subject = RequestLine (rq_method req) (rq_uri req),
                                       headers = rq_headers req, extensions = rq_extensions req\<rparr>, rq_body req)))))
      | Some (ch, Ready None) \<Rightarrow> Some (w\<lparr>cs_chan := ch\<rparr>, cl\<lparr>cl_rx_closed := True\<rparr>, Ready None)
      | Some (ch, Pending) \<Rightarrow> Some (w\<lparr>cs_chan := ch\<rparr>, cl, Pending))"

definition into_response :: "'hm response_head \<Rightarrow> 'rb \<Rightarrow> ('hm, 'rb) response" where
  "into_response head body =
     \<lparr>rp_status = subject head, rp_version = version head, rp_headers = headers head,
      rp_extensions = extensions head, rp_body = body\<rparr>"

definition client_recv_msg ::
    "(('hm, 'uri, 'bs) request, ('hm, 'rb) response, 'm, 'g, 'c) client_env
     \<Rightarrow> ('q, 'o, 'u, 'm, 'g, 'c) client_shared \<Rightarrow> client
     \<Rightarrow> error + 'hm response_head \<times> 'rb \<Rightarrow> ('q, 'o, 'u, 'm, 'g, 'c) client_shared \<times> client \<times> (error + unit)" where
  "client_recv_msg C w cl msg =
     (case msg of
        Ok (head, body) \<Rightarrow>
          (case cl_callback cl of
             Some cb \<Rightarrow>
               (w\<lparr>cs_chan := callback_send C (cs_chan w) cb (Ok (into_response head body))\<rparr>,
                cl\<lparr>cl_callback := None\<rparr>, Ok ())
           | None \<Rightarrow> (w, cl, Err new_unexpected_message))
      | Err err \<Rightarrow>
          (case cl_callback cl of
             Some cb \<Rightarrow>
               (w\<lparr>cs_chan := callback_send C (cs_chan w) cb (Err (err, None))\<rparr>, cl\<lparr>cl_callback := None\<rparr>, Ok ())
           | None \<Rightarrow>
               if \<not> cl_rx_closed cl then
                 (case cd_try_recv C (cd_close C (cs_chan w)) of
                    (ch, Some (req, cb)) \<Rightarrow>
                      (w\<lparr>cs_chan := callback_send C ch cb
                           (Err (error_with new_canceled (CauseHyper err), Some req))\<rparr>, cl, Ok ())
                  | (ch, None) \<Rightarrow> (w\<lparr>cs_chan := ch\<rparr>, cl, Err err))
               else (w, cl, Err err)))"

definition client_poll_ready ::
    "(('hm, 'uri, 'bs) request, ('hm, 'rb) response, 'm, 'g, 'c) client_env
     \<Rightarrow> ('q, 'o, 'u, 'm, 'g, 'c) client_shared \<Rightarrow> client
     \<Rightarrow> ('q, 'o, 'u, 'm, 'g, 'c) client_shared \<times> client \<times> (unit + unit) poll" where
  "client_poll_ready C w cl =
     (w, cl,
      case cl_callback cl of
        Some cb \<Rightarrow> (case poll_canceled C (cs_chan w) cb of Ready _ \<Rightarrow> Ready (Err ()) | Pending \<Rightarrow> Ready (Ok ()))
      | None \<Rightarrow> Ready (Err ()))"

definition client_should_poll :: "client \<Rightarrow> bool" where
  "client_should_poll cl \<longleftrightarrow> cl_callback cl = None"

definition client_dispatch ::
    "(('hm, 'uri, 'bs) request, ('hm, 'rb) response, 'm, 'g, 'c) client_env
     \<Rightarrow> (('q, 'o, 'u, 'm, 'g, 'c) client_shared \<Rightarrow> 'bs \<Rightarrow> ('q, 'o, 'u, 'm, 'g, 'c) client_shared)
     \<Rightarrow> (('q, 'o, 'u, 'm, 'g, 'c) client_shared, client, nat, 'uri request_line, 'hm, 'bs, 'rb) dispatch" where
  "client_dispatch C drop_body =
     \<lparr>d_poll_msg = client_poll_msg C drop_body, d_recv_msg = client_recv_msg C,
      d_poll_ready = client_poll_ready C, d_should_poll = client_should_poll\<rparr>"

text \<open>Dropping the client drops a callback that is still waiting, then the receiver.\<close>

definition client_drop ::
    "(('hm, 'uri, 'bs) request, ('hm, 'rb) response, 'm, 'g, 'c) client_env
     \<Rightarrow> ('q, 'o, 'u, 'm, 'g, 'c) client_shared \<Rightarrow> client \<Rightarrow> ('q, 'o, 'u, 'm, 'g, 'c) client_shared" where
  "client_drop C w cl =
     (let ch = (case cl_callback cl of Some cb \<Rightarrow> callback_drop C (cs_chan w) cb | None \<Rightarrow> cs_chan w)
      in w\<lparr>cs_chan := receiver_drop C ch\<rparr>)"

end
