(* ===== verification/Dispatch_Conn.thy ===== *)
theory Dispatch_Conn
  imports Dispatch_Roles Conn_Stream
begin

text \<open>
  The dispatcher respects the connection it drives: whatever the service or the caller, the bodies and
  the transport do, it calls the operations of \<open>Conn\<close> only in the states for which they are made, so
  that a poll of the dispatcher is a run of \<open>conn_step\<close>, and everything that is proved of such runs
  holds of a dispatched connection.
\<close>

section \<open>Operations that do not start a body\<close>

fun body_reading :: "reading \<Rightarrow> bool" where
  "body_reading (RContinue _) = True"
| "body_reading (RBody _) = True"
| "body_reading _ = False"

abbreviation in_body :: "('io, 'b, 'tk, 'ch, 'hm, 'cfg, 'up) conn \<Rightarrow> bool" where
  "in_body c \<equiv> body_reading (st_reading (c_state c))"

lemma can_read_body_eq: "can_read_body c = in_body c"
  by (simp add: can_read_body_def split: reading.split)

lemma body_maybe_notify: "in_body (maybe_notify E c) \<Longrightarrow> in_body c"
  by (auto simp: maybe_notify_def close_read_def state_close_read_def state_close_def Let_def
      split: if_splits poll.splits sum.splits prod.splits)

lemma body_try_keep_alive: "in_body (conn_try_keep_alive E c) \<Longrightarrow> in_body c"
  using state_try_keep_alive_cases [of "e_tx E" "c_state c"]
  by (auto simp: conn_try_keep_alive_def state_close_def state_idle_eq dest!: body_maybe_notify)

lemma body_encode_head: "encode_head E c head body = Some (c', r) \<Longrightarrow> in_body c' = in_body c"
  by (drule encode_head_life(1)) (simp add:)

lemma body_write_head: "write_head E c head body = Some c' \<Longrightarrow> in_body c' = in_body c"
  by (auto simp: write_head_def dest!: body_encode_head split: option.split_asm)

lemma body_write_full_msg: "write_full_msg E c head b = Some c' \<Longrightarrow> in_body c' = in_body c"
  by (auto simp: write_full_msg_def dest!: body_encode_head split: option.split_asm)

lemma body_write_body: "write_body E c b = Some c' \<Longrightarrow> in_body c' = in_body c"
  by (auto simp: write_body_def dest!: conn_buffer_state
      split: writing.split_asm Option.bind_split_asm)

lemma body_write_body_and_end: "write_body_and_end E c b = Some c' \<Longrightarrow> in_body c' = in_body c"
  by (auto simp: write_body_and_end_def split: writing.split_asm Option.bind_split_asm)

lemma body_end_body: "end_body E c = Some (c', res) \<Longrightarrow> in_body c' = in_body c"
  by (auto simp: end_body_def dest!: conn_buffer_state
      split: writing.split_asm sum.split_asm option.split_asm Option.bind_split_asm)

lemma body_poll_flush: "conn_poll_flush E c = Some (c', p) \<Longrightarrow> in_body c' \<Longrightarrow> in_body c"
  by (auto simp: conn_poll_flush_def dest!: body_try_keep_alive
      split: option.split_asm poll.split_asm sum.split_asm)

lemma body_close [simp]:
  "\<not> in_body (close_read c)" "in_body (close_write c) = in_body c"
  by (simp_all add: close_read_def close_write_def state_close_read_def state_close_write_def)

lemma body_poll_read_keep_alive: "poll_read_keep_alive E c = (c', p) \<Longrightarrow> in_body c' \<Longrightarrow> in_body c"
  by (auto simp: poll_read_keep_alive_def mid_message_detect_eof_def require_empty_read_def force_io_read_def
      state_close_def state_close_read_def Let_def
      split: if_split_asm poll.split_asm sum.split_asm prod.split_asm)

section \<open>Operations that read a body\<close>

text \<open>A head starts a body exactly when its decoded length is not zero.\<close>

lemma body_head_received:
  "head_received E c msg = (c', w) \<Longrightarrow> in_body c' \<Longrightarrow> pm_decode msg \<noteq> ZERO"
  by (auto simp: head_received_def Let_def dest!: body_try_keep_alive split: if_split_asm)

lemma body_on_read_head_error: "on_read_head_error E c e = Some (c', p) \<Longrightarrow> \<not> in_body c'"
proof -
  assume a: "on_read_head_error E c e = Some (c', p)"
  define c1 where "c1 = (close_read c)\<lparr>c_io := consume_leading_lines (c_io (close_read c))\<rparr>"
  have "\<not> in_body c1" by (simp add: c1_def close_read_def state_close_read_def)
  moreover have "c' = close_write c1 \<or> (\<exists>res. on_parse_error E c1 e = Some (c', res))"
    using a by (auto simp: on_read_head_error_def Let_def c1_def [symmetric] split: if_split_asm)
  moreover have "on_parse_error E c1 e = Some (c', res) \<Longrightarrow> in_body c' = in_body c1" for res
    by (auto simp: on_parse_error_def dest!: body_write_head
        split: if_split_asm option.split_asm Option.bind_split_asm)
  ultimately show ?thesis by auto
qed

lemma body_poll_read_head:
  assumes "conn_poll_read_head E c = Some (c', p)" "can_read_head E c" "in_body c'"
  obtains head len w where "p = Ready (Some (Ok (head, len, w)))" "len \<noteq> ZERO"
proof -
  from assms(2) have "\<not> in_body c" by (auto simp: can_read_head_def split: reading.split_asm)
  with assms(1,3) show ?thesis
    using that body_head_received body_on_read_head_error
    by (fastforce simp: conn_poll_read_head_def restore_context_def Let_def
        split: option.split_asm poll.split_asm sum.split_asm prod.split_asm)
qed

lemma body_read_body_decoded:
  "read_body_decoded E d c = Some (c', p) \<Longrightarrow> in_body c' \<Longrightarrow> p = Pending \<or> (\<exists>b. p = Ready (Some (Ok b)))"
  by (auto simp: read_body_decoded_def Let_def dest!: body_try_keep_alive
      split: option.split_asm poll.split_asm sum.split_asm if_split_asm)

lemma body_poll_read_body:
  "poll_read_body E c = Some (c', p) \<Longrightarrow> in_body c' \<Longrightarrow> p = Pending \<or> (\<exists>b. p = Ready (Some (Ok b)))"
  by (auto simp: poll_read_body_def Let_def split: reading.split_asm dest: body_read_body_decoded)

lemma body_drain:
  assumes "poll_drain_or_close_read E c = Some c'"
  shows "\<not> in_body c'"
proof -
  from assms obtain c1 p where "poll_read_body E c = Some (c1, p)"
    and "c' = (case st_reading (c_state c1) of RInit \<Rightarrow> c1 | RKeepAlive \<Rightarrow> c1 | _ \<Rightarrow> close_read c1)"
    by (auto simp: poll_drain_or_close_read_def)
  then show ?thesis by (cases "st_reading (c_state c1)") simp_all
qed

section \<open>One turn of the dispatcher\<close>

text \<open>
  What the dispatcher relies on in the bodies of the user, for the bodies \<open>ok\<close> that the dispatch hands
  out: polling a body leaves it such a body, a piece has fewer bytes than \<open>usize\<close> can count, and a body
  that gives its full data has some.
\<close>

definition sized_bodies where
  "sized_bodies X ok \<longleftrightarrow>
     (\<forall>w ds w' ds' head b. d_poll_msg (x_dispatch X) w ds = Some (w', ds', Ready (Some (Ok (head, b)))) \<longrightarrow> ok b) \<and>
     (\<forall>w b w' b' p. ok b \<longrightarrow> hb_poll_data (x_body X) w b = (w', b', p) \<longrightarrow> ok b') \<and>
     (\<forall>w b w' b' chunk. ok b \<longrightarrow> hb_poll_data (x_body X) w b = (w', b', Ready (Some (Ok chunk))) \<longrightarrow>
        b_remaining (buf_b (e_bytes (x_conn X))) chunk < 2 ^ 64) \<and>
     (\<forall>b b'. ok b \<longrightarrow> take_full_data (x_body X) b = (b', None) \<longrightarrow> ok b') \<and>
     (\<forall>b b' full. ok b \<longrightarrow> take_full_data (x_body X) b = (b', Some full) \<longrightarrow> a_chunk (x_conn X) full)"

lemma sized_bodiesD:
  assumes "sized_bodies X ok"
  shows "d_poll_msg (x_dispatch X) w ds = Some (w', ds', Ready (Some (Ok (head, b)))) \<Longrightarrow> ok b"
    and "ok b \<Longrightarrow> hb_poll_data (x_body X) w b = (w', b', p) \<Longrightarrow> ok b'"
    and "ok b \<Longrightarrow> hb_poll_data (x_body X) w b = (w', b', Ready (Some (Ok chunk))) \<Longrightarrow>
      b_remaining (buf_b (e_bytes (x_conn X))) chunk < 2 ^ 64"
    and "ok b \<Longrightarrow> take_full_data (x_body X) b = (b', None) \<Longrightarrow> ok b'"
    and "ok b \<Longrightarrow> take_full_data (x_body X) b = (b', Some full) \<Longrightarrow> a_chunk (x_conn X) full"
proof -
  note u = assms [unfolded sized_bodies_def]
  show "d_poll_msg (x_dispatch X) w ds = Some (w', ds', Ready (Some (Ok (head, b)))) \<Longrightarrow> ok b"
    using u [THEN conjunct1] by blast
  show "ok b \<Longrightarrow> hb_poll_data (x_body X) w b = (w', b', p) \<Longrightarrow> ok b'"
    using u [THEN conjunct2, THEN conjunct1] by blast
  show "ok b \<Longrightarrow> hb_poll_data (x_body X) w b = (w', b', Ready (Some (Ok chunk))) \<Longrightarrow>
      b_remaining (buf_b (e_bytes (x_conn X))) chunk < 2 ^ 64"
    using u [THEN conjunct2, THEN conjunct2, THEN conjunct1] by blast
  show "ok b \<Longrightarrow> take_full_data (x_body X) b = (b', None) \<Longrightarrow> ok b'"
    using u [THEN conjunct2, THEN conjunct2, THEN conjunct2, THEN conjunct1] by blast
  show "ok b \<Longrightarrow> take_full_data (x_body X) b = (b', Some full) \<Longrightarrow> a_chunk (x_conn X) full"
    using u [THEN conjunct2, THEN conjunct2, THEN conjunct2, THEN conjunct2] by blast
qed

text \<open>
  While a body is being read there is a sender for it; a closing dispatcher has closed the connection;
  the body that is being written came from the dispatch.
\<close>

definition rx_ok where
  "rx_ok ok d \<longleftrightarrow> (\<forall>b. dp_body_rx d = Some b \<longrightarrow> ok b)"

lemma rx_ok_simps [simp]:
  "rx_ok ok (d\<lparr>dp_conn := c\<rparr>) = rx_ok ok d" "rx_ok ok (d\<lparr>dp_dispatch := ds\<rparr>) = rx_ok ok d"
  "rx_ok ok (d\<lparr>dp_body_tx := t\<rparr>) = rx_ok ok d" "rx_ok ok (d\<lparr>dp_is_closing := cl\<rparr>) = rx_ok ok d"
  "rx_ok ok (d\<lparr>dp_shared := w\<rparr>) = rx_ok ok d" "rx_ok ok (d\<lparr>dp_body_rx := None\<rparr>)"
  "rx_ok ok (d\<lparr>dp_body_rx := Some b\<rparr>) = ok b"
  by (simp_all add: rx_ok_def)

lemma rx_ok_same: "dp_body_rx d' = dp_body_rx d \<Longrightarrow> rx_ok ok d \<Longrightarrow> rx_ok ok d'"
  by (simp add: rx_ok_def)

definition dispatcher_inv where
  "dispatcher_inv ok d \<longleftrightarrow>
     (can_read_body (dp_conn d) \<longrightarrow> dp_body_tx d \<noteq> None) \<and>
     (dp_is_closing d \<longrightarrow> is_read_closed (dp_conn d) \<and> is_write_closed (dp_conn d)) \<and> rx_ok ok d"

definition drives where
  "drives X ok d d' \<longleftrightarrow>
     (conn_step (x_conn X))\<^sup>*\<^sup>* (dp_conn d) (dp_conn d') \<and> (dispatcher_inv ok d \<longrightarrow> dispatcher_inv ok d')"

lemma drives_refl [simp]: "drives X ok d d"
  by (simp add: drives_def)

lemma drives_trans: "drives X ok d1 d2 \<Longrightarrow> drives X ok d2 d3 \<Longrightarrow> drives X ok d1 d3"
  by (auto simp: drives_def)

lemma steps_closed:
  assumes "(conn_step E)\<^sup>*\<^sup>* c c'"
  shows "is_read_closed c \<Longrightarrow> is_read_closed c'" "is_write_closed c \<Longrightarrow> is_write_closed c'"
  using life_final [OF conn_steps_live [OF assms]] unfolding life_of_queries by blast+

text \<open>A step that starts no body and leaves the flags of the dispatcher alone.\<close>

lemma drives_steps:
  assumes "(conn_step (x_conn X))\<^sup>*\<^sup>* (dp_conn d) (dp_conn d')" "dp_is_closing d' = dp_is_closing d"
    and "in_body (dp_conn d') \<Longrightarrow> (in_body (dp_conn d) \<and> dp_body_tx d' = dp_body_tx d) \<or> dp_body_tx d' \<noteq> None"
    and "rx_ok ok d \<Longrightarrow> rx_ok ok d'"
  shows "drives X ok d d'"
  using assms steps_closed [OF assms(1)] by (auto simp: drives_def dispatcher_inv_def can_read_body_eq)

lemma drives_step:
  assumes "conn_step (x_conn X) (dp_conn d) (dp_conn d')" "dp_is_closing d' = dp_is_closing d"
    and "in_body (dp_conn d') \<Longrightarrow> (in_body (dp_conn d) \<and> dp_body_tx d' = dp_body_tx d) \<or> dp_body_tx d' \<noteq> None"
    and "rx_ok ok d \<Longrightarrow> rx_ok ok d'"
  shows "drives X ok d d'"
  using assms by (intro drives_steps) auto

lemma drives_same:
  assumes "dp_conn d' = dp_conn d" "dp_is_closing d' = dp_is_closing d" "dp_body_tx d' = dp_body_tx d"
    and "rx_ok ok d \<Longrightarrow> rx_ok ok d'"
  shows "drives X ok d d'"
  using assms by (simp add: drives_def dispatcher_inv_def)

lemma drives_close: "drives X ok d (dispatcher_close d)"
proof -
  have "(conn_step (x_conn X))\<^sup>*\<^sup>* (dp_conn d) (close_write (close_read (dp_conn d)))"
    using step_close_read step_close_write by (meson converse_rtranclp_into_rtranclp r_into_rtranclp)
  then show ?thesis
    by (simp add: drives_def dispatcher_close_def dispatcher_inv_def can_read_body_eq is_read_closed_def
        is_write_closed_def close_read_def close_write_def state_defs)
qed

lemma drives_then:
  assumes "conn_step (x_conn X) (dp_conn d) c" "\<not> in_body c" "dp_conn d1 = c" "dp_is_closing d1 = dp_is_closing d"
    and "rx_ok ok d \<Longrightarrow> rx_ok ok d1"
  shows "drives X ok d d1" "drives X ok d (dispatcher_close d1)"
proof -
  show "drives X ok d d1" using assms by (intro drives_step) auto
  from drives_trans [OF this drives_close] show "drives X ok d (dispatcher_close d1)" .
qed

lemma drives_flush:
  assumes "dispatcher_poll_flush X d = Some (d', p)"
  shows "drives X ok d d'"
proof -
  from assms obtain c q where c: "conn_poll_flush (x_conn X) (dp_conn d) = Some (c, q)" "d' = d\<lparr>dp_conn := c\<rparr>"
    by (auto simp: dispatcher_poll_flush_def split: option.split_asm)
  with step_flush [OF c(1)] body_poll_flush [OF c(1)] show ?thesis by (intro drives_step) auto
qed

lemma drives_deliver_head:
  assumes "deliver_head X d head len wants = (d', p)" "in_body (dp_conn d) \<Longrightarrow> len \<noteq> ZERO"
  shows "(conn_step (x_conn X))\<^sup>*\<^sup>* (dp_conn d) (dp_conn d') \<and> dp_is_closing d' = dp_is_closing d \<and>
    dp_body_rx d' = dp_body_rx d \<and> (in_body (dp_conn d') \<longrightarrow> dp_body_tx d' \<noteq> None)"
proof -
  have up: "conn_step (x_conn X) c c' \<and> in_body c' = in_body c" if "on_upgrade up c = (c', rx)" for c up c' rx
    using step_on_upgrade [OF that] that by (auto simp: on_upgrade_def prepare_upgrade_def)
  show ?thesis
    using assms by (auto simp: deliver_head_def open_body_def attach_upgrade_def Let_def dest!: up split: if_split_asm prod.split_asm)
qed

lemma drives_read_head:
  assumes "can_read_head (x_conn X) (dp_conn d)" "dispatcher_poll_read_head X d = Some (d', p)"
  shows "drives X ok d d'"
proof -
  obtain w ds q where r: "d_poll_ready (x_dispatch X) (dp_shared d) (dp_dispatch d) = (w, ds, q)"
    by (metis prod_cases3)
  define d1 where "d1 = d\<lparr>dp_shared := w, dp_dispatch := ds\<rparr>"
  have d1: "drives X ok d d1" "dp_conn d1 = dp_conn d" "dp_is_closing d1 = dp_is_closing d" "dp_body_tx d1 = dp_body_tx d"
    by (simp_all add: d1_def drives_same)
  note unf = dispatcher_poll_read_head_def r prod.case Let_def d1_def [symmetric]
  consider "q = Pending" | "q = Ready (Err ())" | "q = Ready (Ok ())" by (metis poll.exhaust sum.exhaust unit.exhaust)
  then show ?thesis
  proof cases
    case 1
    with assms(2) d1 show ?thesis by (simp add: unf)
  next
    case 2
    with assms(2) d1(1) drives_close [of X ok d1] show ?thesis by (auto simp: unf intro: drives_trans)
  next
    case 3
    then obtain c m where m: "conn_poll_read_head (x_conn X) (dp_conn d) = Some (c, m)"
      using assms(2) by (auto simp: unf d1(2) split: option.split_asm)
    define d2 where "d2 = d1\<lparr>dp_conn := c\<rparr>"
    have d2: "dp_conn d2 = c" "dp_is_closing d2 = dp_is_closing d" "dp_body_tx d2 = dp_body_tx d"
      "rx_ok ok d2 = rx_ok ok d" "dp_body_rx d2 = dp_body_rx d"
      by (simp_all add: d2_def d1 d1_def)
    have step: "conn_step (x_conn X) (dp_conn d) c" by (rule step_read_head [OF assms(1) m])
    note unf2 = unf d1(2) 3 m d2_def [symmetric] option.case poll.case sum.case
    consider "m = Pending" | e where "m = Ready (Some (Err e))" | "m = Ready None"
      | head len wants where "m = Ready (Some (Ok (head, len, wants)))"
      by (metis poll.exhaust option.exhaust sum.exhaust prod_cases3)
    then show ?thesis
    proof cases
      case 1
      with body_poll_read_head [OF m assms(1)] have "\<not> in_body c" by blast
      note t = drives_then [OF step this]
      from 1 assms(2) have "d' = d2" by (simp add: unf2)
      with t(1) [of d2] d2 show ?thesis by simp
    next
      case (2 e)
      with body_poll_read_head [OF m assms(1)] have "\<not> in_body c" by blast
      note t = drives_then [OF step this]
      from 2 assms(2) show ?thesis by (auto simp: unf2 d2 split: prod.split_asm sum.split_asm intro!: t)
    next
      case 3
      with body_poll_read_head [OF m assms(1)] have "\<not> in_body c" by blast
      note t = drives_then [OF step this]
      from 3 assms(2) have "d' = dispatcher_close d2 \<or> d' = d2" by (auto simp: unf2 split: if_split_asm)
      with t [of d2] d2 show ?thesis by auto
    next
      case (4 head len wants)
      with assms(2) have "deliver_head X d2 head len wants = (d', p)" by (simp add: unf2)
      from drives_deliver_head [OF this] body_poll_read_head [OF m assms(1)] 4 d2 have
        "(conn_step (x_conn X))\<^sup>*\<^sup>* c (dp_conn d')" "dp_is_closing d' = dp_is_closing d"
        "in_body (dp_conn d') \<longrightarrow> dp_body_tx d' \<noteq> None" "dp_body_rx d' = dp_body_rx d" by auto
      with step rx_ok_same [of d' d ok] show ?thesis by (intro drives_steps) (auto intro: converse_rtranclp_into_rtranclp)
    qed
  qed
qed

lemma drives_forward_body:
  assumes "\<not> can_read_head (x_conn X) (dp_conn d)" "forward_body X d body = Some (d', k)"
  shows "drives X ok d d'"
proof -
  have rx: "rx_ok ok d'" if "rx_ok ok d"
    using that assms(2)
    by (auto simp: forward_body_def Let_def
        split: if_split_asm option.split_asm poll.split_asm sum.split_asm prod.split_asm)
  have unread: "drives X ok d d'" if "dp_conn d' = dp_conn d" "dp_is_closing d' = dp_is_closing d"
      "dp_body_tx d' = None" "\<not> can_read_body (dp_conn d)"
    using that rx by (intro drives_steps) (auto simp: can_read_body_eq)
  have kept: "drives X ok d d'" if "(conn_step (x_conn X))\<^sup>*\<^sup>* (dp_conn d) (dp_conn d')" "dp_is_closing d' = dp_is_closing d"
      "in_body (dp_conn d') \<Longrightarrow> dp_body_tx d' = Some body"
    using that rx by (intro drives_steps) auto
  show ?thesis
  proof (cases "can_read_body (dp_conn d)")
    case False
    with assms(2) show ?thesis by (intro unread) (auto simp: forward_body_def Let_def)
  next
    case True
    note unf = forward_body_def Let_def True if_True dispatcher.simps
    from assms(2) True obtain st r where r: "sender_poll_ready (x_chan X) (sh_chans (dp_shared d)) body = Some (st, r)"
      by (auto simp: forward_body_def Let_def split: option.split_asm)
    consider "r = Pending" | e where "r = Ready (Err e)" | "r = Ready (Ok ())"
      by (metis poll.exhaust sum.exhaust unit.exhaust)
    then show ?thesis
    proof cases
      case 1
      with assms(2) r show ?thesis by (intro kept) (auto simp: unf)
    next
      case (2 e)
      with assms(2) r obtain c where c: "poll_drain_or_close_read (x_conn X) (dp_conn d) = Some c"
        "dp_conn d' = c" "dp_is_closing d' = dp_is_closing d" by (auto simp: unf)
      with step_drain [OF True c(1)] body_drain [OF c(1)] show ?thesis by (intro kept) auto
    next
      case 3
      with assms(2) r obtain c m where m: "poll_read_body (x_conn X) (dp_conn d) = Some (c, m)"
        by (auto simp: unf split: option.split_asm)
      note unf2 = unf r 3 m option.case prod.case poll.case sum.case
      have "conn_step (x_conn X) (dp_conn d) c" by (rule step_read_body [OF True m])
      then have step: "(conn_step (x_conn X))\<^sup>*\<^sup>* (dp_conn d) c" by blast
      have close: "(conn_step (x_conn X))\<^sup>*\<^sup>* (dp_conn d) (close_read c)"
        by (rule rtranclp.rtrancl_into_rtrancl [OF step step_close_read])
      consider "m = Pending" | e where "m = Ready (Some (Err e))" | "m = Ready None"
        | chunk where "m = Ready (Some (Ok chunk))"
        by (metis poll.exhaust option.exhaust sum.exhaust)
      then show ?thesis
      proof cases
        case 1
        with assms(2) step show ?thesis by (intro kept) (auto simp: unf2)
      next
        case (2 e)
        with body_poll_read_body [OF m] have "\<not> in_body c" by auto
        with 2 assms(2) step show ?thesis by (intro kept) (auto simp: unf2)
      next
        case 3
        with body_poll_read_body [OF m] have "\<not> in_body c" by auto
        with 3 assms(2) step show ?thesis by (intro kept) (auto simp: unf2)
      next
        case (4 chunk)
        with assms(2) step close show ?thesis
          by (intro kept)
            (auto simp: unf2 can_read_body_eq split: option.split_asm sum.split_asm if_split_asm)
      qed
    qed
  qed
qed

lemma drives_poll_read:
  assumes "dispatcher_poll_read X d = Some (d', p)"
  shows "dispatcher_inv ok d \<longrightarrow> drives X ok d d'"
proof -
  have "(\<lambda>(X, d) (d', p). dispatcher_inv ok d \<longrightarrow> drives X ok d d') (X, d) (d', p)"
  proof (rule dispatcher_poll_read.raw_induct [OF _ assms], goal_cases)
    case (1 self X d y)
    note IH = 1(1)
    have next_turn: "dispatcher_inv ok d \<longrightarrow> drives X ok d (fst y)" if "self X d1 = Some y" "drives X ok d d1" for d1
      using IH [OF that(1)] that(2) by (auto simp: drives_def split: prod.split_asm)
    consider "dp_is_closing d" | "\<not> dp_is_closing d" "can_read_head (x_conn X) (dp_conn d)"
      | body where "\<not> dp_is_closing d" "\<not> can_read_head (x_conn X) (dp_conn d)" "dp_body_tx d = Some body"
      | "\<not> dp_is_closing d" "\<not> can_read_head (x_conn X) (dp_conn d)" "dp_body_tx d = None"
      by (metis option.exhaust)
    then have "dispatcher_inv ok d \<longrightarrow> drives X ok d (fst y)"
    proof cases
      case 1
      with \<open>_ = Some y\<close> show ?thesis by auto
    next
      case 2
      with \<open>_ = Some y\<close> obtain d1 q where q: "dispatcher_poll_read_head X d = Some (d1, q)"
        by (auto split: option.split_asm)
      with \<open>_ = Some y\<close> 2 next_turn [of d1] drives_read_head [OF 2(2) q] show ?thesis
        by (auto split: poll.split_asm sum.split_asm)
    next
      case (3 body)
      with \<open>_ = Some y\<close> obtain d1 k where k: "forward_body X d body = Some (d1, k)"
        by (auto split: option.split_asm)
      with \<open>_ = Some y\<close> 3 next_turn [of d1] drives_forward_body [OF 3(2) k] show ?thesis
        by (auto split: control.split_asm)
    next
      case 4
      obtain c k where k: "poll_read_keep_alive (x_conn X) (dp_conn d) = (c, k)" by fastforce
      have "drives X ok d (d\<lparr>dp_conn := c\<rparr>)" if "dispatcher_inv ok d"
      proof -
        from that 4 have "\<not> can_read_body (dp_conn d)" by (simp add: dispatcher_inv_def)
        from step_read_keep_alive [OF 4(2) this k] body_poll_read_keep_alive [OF k] show ?thesis
          by (intro drives_step) auto
      qed
      with 4 k \<open>_ = Some y\<close> show ?thesis by auto
    qed
    then show ?case by (cases y) simp
  qed
  then show ?thesis by simp
qed

lemma drives_write:
  assumes "conn_step (x_conn X) (dp_conn d) c" "in_body c = in_body (dp_conn d)"
    and "dp_conn d1 = c" "dp_is_closing d1 = dp_is_closing d" "dp_body_tx d1 = dp_body_tx d"
    and "rx_ok ok d \<Longrightarrow> rx_ok ok d1"
  shows "drives X ok d d1"
  using assms by (intro drives_step) auto

lemma drives_next_msg:
  assumes "sized_bodies X ok" "can_write_head (x_conn X) (dp_conn d)" "write_next_msg X d = Some (d', k)"
  shows "drives X ok d d'"
proof -
  from assms(3) obtain w ds p where p: "d_poll_msg (x_dispatch X) (dp_shared d) (dp_dispatch d) = Some (w, ds, p)"
    by (auto simp: write_next_msg_def split: option.split_asm)
  note unf = write_next_msg_def p option.case prod.case Let_def
  have rx: "rx_ok ok d'" if "rx_ok ok d"
  proof -
    from assms(3) p have "dp_body_rx d' = dp_body_rx d \<or> dp_body_rx d' = None \<or>
        (\<exists>head body body'. p = Ready (Some (Ok (head, body))) \<and> take_full_data (x_body X) body = (body', None) \<and>
           dp_body_rx d' = Some body')"
      by (auto simp: unf dispatcher_close_def
          split: poll.split_asm option.split_asm sum.split_asm prod.split_asm if_split_asm)
    with that p sized_bodiesD(1,4) [OF assms(1)] show ?thesis unfolding rx_ok_def by (metis option.distinct(1) option.inject)
  qed
  consider "p = Pending" | e where "p = Ready (Some (Err e))" | "p = Ready None"
    | head body where "p = Ready (Some (Ok (head, body)))"
    by (metis poll.exhaust option.exhaust sum.exhaust prod.exhaust)
  then show ?thesis
  proof cases
    case 1
    with assms(3) rx show ?thesis by (intro drives_same) (auto simp: unf)
  next
    case (2 e)
    with assms(3) rx show ?thesis by (intro drives_same) (auto simp: unf)
  next
    case 3
    with assms(3) have "d' = dispatcher_close (d\<lparr>dp_shared := w, dp_dispatch := ds\<rparr>)" by (simp add: unf)
    moreover have "drives X ok d (d\<lparr>dp_shared := w, dp_dispatch := ds\<rparr>)" by (intro drives_same) simp_all
    ultimately show ?thesis using drives_trans [OF _ drives_close] by blast
  next
    case (4 head body)
    obtain body' full where f: "take_full_data (x_body X) body = (body', full)" by fastforce
    show ?thesis
    proof (cases full)
      case (Some b)
      with 4 f assms(3) obtain c where c: "write_full_msg (x_conn X) (dp_conn d) head b = Some c" "dp_conn d' = c"
        "dp_is_closing d' = dp_is_closing d" "dp_body_tx d' = dp_body_tx d" by (auto simp: unf)
      from 4 p f Some sized_bodiesD(1,5) [OF assms(1)] have "a_chunk (x_conn X) b" by metis
      from drives_write [OF step_write_full [OF assms(2) this c(1)] body_write_full_msg [OF c(1)] c(2-4) rx] show ?thesis .
    next
      case None
      with 4 f assms(3) obtain c bt where c: "write_head (x_conn X) (dp_conn d) head bt = Some c" "dp_conn d' = c"
        "dp_is_closing d' = dp_is_closing d" "dp_body_tx d' = dp_body_tx d" by (auto simp: unf split: if_split_asm)
      from drives_write [OF step_write_head [OF assms(2) c(1)] body_write_head [OF c(1)] c(2-4) rx] show ?thesis .
    qed
  qed
qed

lemma drives_body_piece:
  assumes "sized_bodies X ok" "write_body_piece X d body = Some (d', k)" "ok body"
  shows "drives X ok d d'"
proof (cases "can_write_body (dp_conn d)")
  case False
  with assms(2) show ?thesis by (intro drives_same) (auto simp: write_body_piece_def Let_def)
next
  case True
  obtain w body1 p where p: "hb_poll_data (x_body X) (dp_shared d) body = (w, body1, p)" by (metis prod_cases3)
  note unf = write_body_piece_def p True option.case prod.case Let_def simp_thms if_False if_True dispatcher.simps
  have ok1: "ok body1" by (rule sized_bodiesD(2) [OF assms(1,3) p])
  have rx: "rx_ok ok d'"
    using assms(2) ok1
    by (auto simp: unf split: poll.split_asm option.split_asm sum.split_asm prod.split_asm if_split_asm)
  have ended: "drives X ok d d1" if "end_body (x_conn X) (dp_conn d) = Some (c, res)" "dp_conn d1 = c"
      "dp_is_closing d1 = dp_is_closing d" "dp_body_tx d1 = dp_body_tx d" "rx_ok ok d1" for c res d1
    using drives_write [OF step_end_body [OF that(1)] body_end_body [OF that(1)] that(2-4)] that(5) by blast
  consider "p = Pending" | e where "p = Ready (Some (Err e))" | "p = Ready None"
    | chunk where "p = Ready (Some (Ok chunk))"
    by (metis poll.exhaust option.exhaust sum.exhaust)
  then show ?thesis
  proof cases
    case 1
    with assms(2) rx show ?thesis by (intro drives_same) (auto simp: unf)
  next
    case (2 e)
    with assms(2) rx show ?thesis by (intro drives_same) (auto simp: unf)
  next
    case 3
    with assms(2) obtain c res where "end_body (x_conn X) (dp_conn d) = Some (c, res)" "dp_conn d' = c"
      "dp_is_closing d' = dp_is_closing d" "dp_body_tx d' = dp_body_tx d"
      by (auto simp: unf split: option.split_asm sum.split_asm)
    then show ?thesis using rx by (rule ended)
  next
    case (4 chunk)
    let ?n = "b_remaining (buf_b (e_bytes (x_conn X))) chunk" and ?eos = "hb_is_end_stream (x_body X) body1"
    consider "?n = 0" "?eos" | "?n = 0" "\<not> ?eos" | "?n \<noteq> 0" by blast
    then show ?thesis
    proof cases
      case 1
      with 4 assms(2) obtain c res where "end_body (x_conn X) (dp_conn d) = Some (c, res)" "dp_conn d' = c"
        "dp_is_closing d' = dp_is_closing d" "dp_body_tx d' = dp_body_tx d"
        by (auto simp: unf split: option.split_asm sum.split_asm)
      then show ?thesis using rx by (rule ended)
    next
      case 2
      with 4 assms(2) rx show ?thesis by (intro drives_same) (auto simp: unf)
    next
      case 3
      from sized_bodiesD(3) [OF assms(1,3)] p 4 have "?n < 2 ^ 64" by blast
      with 3 have chunk: "a_chunk (x_conn X) chunk" by (simp add: a_chunk_def)
      from 4 3 assms(2) consider
        c where "write_body (x_conn X) (dp_conn d) chunk = Some c" "dp_conn d' = c"
          "dp_is_closing d' = dp_is_closing d" "dp_body_tx d' = dp_body_tx d"
        | c where "write_body_and_end (x_conn X) (dp_conn d) chunk = Some c" "dp_conn d' = c"
          "dp_is_closing d' = dp_is_closing d" "dp_body_tx d' = dp_body_tx d"
        by (cases "?eos") (auto simp: unf)
      then show ?thesis
      proof cases
        case 1
        from drives_write [OF step_write_body [OF True chunk 1(1)] body_write_body [OF 1(1)] 1(2-4)] rx show ?thesis by blast
      next
        case 2
        from drives_write [OF step_write_body_and_end [OF True chunk 2(1)] body_write_body_and_end [OF 2(1)] 2(2-4)] rx
        show ?thesis by blast
      qed
    qed
  qed
qed

lemma drives_poll_write:
  assumes "sized_bodies X ok" "dispatcher_poll_write X d = Some (d', p)"
  shows "dispatcher_inv ok d \<longrightarrow> drives X ok d d'"
proof -
  have "(\<lambda>(X, d) (d', p). sized_bodies X ok \<longrightarrow> dispatcher_inv ok d \<longrightarrow> drives X ok d d') (X, d) (d', p)"
  proof (rule dispatcher_poll_write.raw_induct [OF _ assms(2)], goal_cases)
    case (1 self X d y)
    note IH = 1(1)
    have next_turn: "sized_bodies X ok \<longrightarrow> dispatcher_inv ok d \<longrightarrow> drives X ok d (fst y)" if "self X d1 = Some y" "drives X ok d d1" for d1
      using IH [OF that(1)] that(2) by (auto simp: drives_def split: prod.split_asm)
    let ?msg = "dp_body_rx d = None \<and> can_write_head (x_conn X) (dp_conn d) \<and> d_should_poll (x_dispatch X) (dp_dispatch d)"
    consider "dp_is_closing d" | "\<not> dp_is_closing d" "?msg"
      | "\<not> dp_is_closing d" "\<not> ?msg" "\<not> can_buffer_body (x_conn X) (dp_conn d)"
      | body where "\<not> dp_is_closing d" "\<not> ?msg" "can_buffer_body (x_conn X) (dp_conn d)" "dp_body_rx d = Some body"
      | "\<not> dp_is_closing d" "\<not> ?msg" "can_buffer_body (x_conn X) (dp_conn d)" "dp_body_rx d = None"
      by blast
    then have "sized_bodies X ok \<longrightarrow> dispatcher_inv ok d \<longrightarrow> drives X ok d (fst y)"
    proof cases
      case 1
      with \<open>_ = Some y\<close> show ?thesis by auto
    next
      case 2
      with \<open>_ = Some y\<close> obtain d1 k where k: "write_next_msg X d = Some (d1, k)"
        by (auto split: option.split_asm)
      with \<open>_ = Some y\<close> 2 next_turn [of d1] drives_next_msg [OF _ _ k] show ?thesis
        by (auto split: control.split_asm)
    next
      case 3
      with \<open>_ = Some y\<close> obtain d1 q where q: "dispatcher_poll_flush X d = Some (d1, q)"
        by (auto split: option.split_asm)
      with \<open>_ = Some y\<close> 3 next_turn [of d1] drives_flush [OF q] show ?thesis
        by (auto split: poll.split_asm sum.split_asm)
    next
      case (4 body)
      with \<open>_ = Some y\<close> obtain d1 k where k: "write_body_piece X d body = Some (d1, k)"
        by (auto split: option.split_asm)
      with \<open>_ = Some y\<close> 4 next_turn [of d1] drives_body_piece [of X ok, OF _ k] show ?thesis
        by (auto simp: dispatcher_inv_def rx_ok_def split: control.split_asm)
    next
      case 5
      with \<open>_ = Some y\<close> show ?thesis by auto
    qed
    then show ?case by (cases y) simp
  qed
  with assms(1) show ?thesis by simp
qed

lemma drives_chain:
  assumes "dispatcher_inv ok d \<longrightarrow> drives X ok d d1" "dispatcher_inv ok d1 \<longrightarrow> drives X ok d1 d2"
  shows "dispatcher_inv ok d \<longrightarrow> drives X ok d d2"
  using assms by (auto simp: drives_def)

lemma drives_poll_loop:
  assumes "sized_bodies X ok" "poll_loop_turns X n d = Some (d', p)"
  shows "dispatcher_inv ok d \<longrightarrow> drives X ok d d'"
  using assms(2)
proof (induction n arbitrary: d)
  case (Suc n)
  from Suc.prems obtain d1 p1 where p1: "dispatcher_poll_read X d = Some (d1, p1)"
    by (auto split: option.split_asm)
  note r = drives_poll_read [OF p1]
  show ?case
  proof (cases "\<exists>e. p1 = Ready (Err e)")
    case True
    with Suc.prems p1 r show ?thesis by auto
  next
    case False
    with Suc.prems p1 obtain d2 p2 where p2: "dispatcher_poll_write X d1 = Some (d2, p2)"
      by (auto split: option.split_asm poll.split_asm sum.split_asm)
    note w = drives_poll_write [OF assms(1) p2]
    show ?thesis
    proof (cases "\<exists>e. p2 = Ready (Err e)")
      case True
      with Suc.prems p1 False p2 have "d' = d2" by (auto split: poll.split_asm sum.split_asm)
      with drives_chain [OF r w] show ?thesis by simp
    next
      case no_err: False
      with Suc.prems p1 False p2 obtain d3 p3 where p3: "dispatcher_poll_flush X d2 = Some (d3, p3)"
        by (auto split: option.split_asm poll.split_asm sum.split_asm)
      note f = drives_flush [OF p3]
      obtain c again where c: "wants_read_again (dp_conn d3) = (c, again)" by fastforce
      have a: "drives X ok d3 (d3\<lparr>dp_conn := c\<rparr>)"
        by (rule drives_write [OF step_wants_read_again [OF c]]) (use c in \<open>auto simp: wants_read_again_def\<close>)
      from Suc.prems p1 False p2 no_err p3 c have "d' = d3 \<or> d' = d3\<lparr>dp_conn := c\<rparr> \<or>
          poll_loop_turns X n (d3\<lparr>dp_conn := c\<rparr>) = Some (d', p)"
        by (auto simp: Let_def split: poll.split_asm sum.split_asm if_split_asm)
      moreover note flushed = drives_chain [OF drives_chain [OF r w], of d3]
      ultimately show ?thesis
        using f flushed drives_chain [OF flushed, of "d3\<lparr>dp_conn := c\<rparr>"] a
          drives_chain [OF drives_chain [OF flushed, of "d3\<lparr>dp_conn := c\<rparr>"], of d'] Suc.IH [of "d3\<lparr>dp_conn := c\<rparr>"]
        by blast
    qed
  qed
qed simp

lemma drives_finish:
  assumes "dispatcher_finish X d res up = (d', p)"
  shows "drives X ok d d'"
proof -
  obtain c r where c: "take_error (dp_conn d) = (c, r)" by fastforce
  with assms have "dp_conn d' = c" "dp_is_closing d' = dp_is_closing d" "dp_body_tx d' = dp_body_tx d"
    by (auto simp: dispatcher_finish_def split: sum.split_asm)
  moreover have "rx_ok ok d \<Longrightarrow> rx_ok ok d'"
    using assms c by (auto simp: dispatcher_finish_def split: sum.split_asm)
  moreover have "in_body c = in_body (dp_conn d)" using c by (auto simp: take_error_def)
  ultimately show ?thesis by (intro drives_write [OF step_take_error [OF c]])
qed

lemma drives_poll_inner:
  assumes "sized_bodies X ok" "dispatcher_poll_inner X should_shutdown d = Some (d', p)"
  shows "dispatcher_inv ok d \<longrightarrow> drives X ok d d'"
proof -
  from assms(2) obtain d1 q where q: "poll_loop X d = Some (d1, q)"
    by (auto simp: dispatcher_poll_inner_def split: option.split_asm)
  have l: "dispatcher_inv ok d \<longrightarrow> drives X ok d d1"
    using drives_poll_loop [OF assms(1)] q by (simp add: poll_loop_def)
  note unf = dispatcher_poll_inner_def q option.case prod.case Let_def
  show ?thesis
  proof (cases "q = Ready (Ok ()) \<and> is_done X d1")
    case False
    with assms(2) l show ?thesis by (auto simp: unf split: poll.split_asm sum.split_asm if_split_asm)
  next
    case True
    obtain c up where c: "pending_upgrade (dp_conn d1) = (c, up)" by fastforce
    have u: "drives X ok d1 (d1\<lparr>dp_conn := c\<rparr>)"
      by (rule drives_write [OF step_pending_upgrade [OF c]]) (use c in \<open>auto simp: pending_upgrade_def\<close>)
    obtain c2 s where s: "conn_poll_shutdown (x_conn X) c = (c2, s)" by fastforce
    have sh: "drives X ok (d1\<lparr>dp_conn := c\<rparr>) (d1\<lparr>dp_conn := c2\<rparr>)"
    proof (rule drives_write)
      show "conn_step (x_conn X) (dp_conn (d1\<lparr>dp_conn := c\<rparr>)) c2" using step_shutdown [OF s] by simp
    qed (use s in \<open>auto simp: conn_poll_shutdown_def split: prod.split_asm\<close>)
    from True assms(2) c s consider res where "dispatcher_finish X (d1\<lparr>dp_conn := c\<rparr>) res up = (d', p)"
      | res where "dispatcher_finish X (d1\<lparr>dp_conn := c2\<rparr>) res up = (d', p)"
      | "d' = d1\<lparr>dp_conn := c2\<rparr>"
      by (auto simp: unf split: option.split_asm if_split_asm poll.split_asm sum.split_asm)
    then have "drives X ok d1 d'"
    proof cases
      case (1 res)
      from drives_trans [OF u drives_finish [OF 1]] show ?thesis .
    next
      case (2 res)
      from drives_trans [OF drives_trans [OF u sh] drives_finish [OF 2]] show ?thesis .
    next
      case 3
      with drives_trans [OF u sh] show ?thesis by simp
    qed
    with l show ?thesis by (blast intro: drives_trans)
  qed
qed

lemma drives_poll_catch:
  assumes "sized_bodies X ok" "poll_catch X should_shutdown d = Some (d', p)"
  shows "dispatcher_inv ok d \<longrightarrow> drives X ok d d'"
proof -
  from assms(2) obtain d1 q where q: "dispatcher_poll_inner X should_shutdown d = Some (d1, q)"
    by (auto simp: poll_catch_def split: option.split_asm)
  from assms(2) q have "dp_conn d' = dp_conn d1" "dp_is_closing d' = dp_is_closing d1" "dp_body_tx d' = dp_body_tx d1"
      "dp_body_rx d' = dp_body_rx d1"
    by (auto simp: poll_catch_def split: poll.split_asm sum.split_asm prod.split_asm)
  with rx_ok_same [of d' d1 ok] drives_same [of d' d1 ok X] drives_poll_inner [OF assms(1) q] drives_trans [of X ok d d1 d'] show ?thesis by blast
qed

section \<open>Runs of the dispatcher\<close>

text \<open>
  What happens to a dispatcher between its creation and its end: it is polled, with or without the
  final shutdown, keep-alive is disabled from outside, and other tasks use the channels it shares.
\<close>

inductive dispatcher_step where
  step_poll: "dispatcher_poll X d = Some (d', p) \<Longrightarrow> dispatcher_step X d d'"
| step_poll_without_shutdown: "poll_without_shutdown X d = Some (d', q) \<Longrightarrow> dispatcher_step X d d'"
| step_dispatcher_disable: "dispatcher_step X d (dispatcher_disable_keep_alive d)"
| step_other_task: "dispatcher_step X d (d\<lparr>dp_shared := w\<rparr>)"

lemma drives_without_shutdown:
  assumes "sized_bodies X ok" "poll_without_shutdown X d = Some (d', q)"
  shows "dispatcher_inv ok d \<longrightarrow> drives X ok d d'"
proof -
  from assms(2) obtain d1 p where p: "poll_catch X False d = Some (d1, p)"
    by (auto simp: poll_without_shutdown_def split: option.split_asm)
  from assms(2) p have "dp_conn d' = dp_conn d1" "dp_is_closing d' = dp_is_closing d1"
      "dp_body_tx d' = dp_body_tx d1" "dp_body_rx d' = dp_body_rx d1"
    by (auto simp: poll_without_shutdown_def split: poll.split_asm sum.split_asm dispatched.split_asm)
  with rx_ok_same [of d' d1 ok] drives_same [of d' d1 ok X] drives_poll_catch [OF assms(1) p]
    drives_trans [of X ok d d1 d'] show ?thesis by blast
qed

lemma drives_disable_keep_alive: "drives X ok d (dispatcher_disable_keep_alive d)"
proof -
  let ?d1 = "d\<lparr>dp_conn := disable_keep_alive (dp_conn d)\<rparr>"
  have d1: "drives X ok d ?d1"
  proof (rule drives_step)
    show "conn_step (x_conn X) (dp_conn d) (dp_conn ?d1)" by (simp add: step_disable_keep_alive)
    assume "in_body (dp_conn ?d1)"
    then have "in_body (dp_conn d)"
      by (simp add: disable_keep_alive_def state_disable_keep_alive_def state_close_def split: if_split_asm)
    then show "(in_body (dp_conn d) \<and> dp_body_tx ?d1 = dp_body_tx d) \<or> dp_body_tx ?d1 \<noteq> None" by simp
  qed simp_all
  from drives_trans [OF this drives_close] d1 show ?thesis
    by (simp add: dispatcher_disable_keep_alive_def Let_def)
qed

lemma drives_dispatcher_step:
  assumes "sized_bodies X ok" "dispatcher_step X d d'"
  shows "dispatcher_inv ok d \<longrightarrow> drives X ok d d'"
  using assms(2)
proof cases
  case (step_poll p)
  with drives_poll_catch [OF assms(1)] show ?thesis by (simp add: dispatcher_poll_def)
next
  case (step_poll_without_shutdown q)
  with drives_without_shutdown [OF assms(1)] show ?thesis by simp
next
  case step_dispatcher_disable
  then show ?thesis by (simp add: drives_disable_keep_alive)
next
  case (step_other_task w)
  then show ?thesis by (simp add: drives_same)
qed

lemma drives_run:
  assumes "sized_bodies X ok" "(dispatcher_step X)\<^sup>*\<^sup>* d d'"
  shows "dispatcher_inv ok d \<longrightarrow> drives X ok d d'"
  using assms(2)
proof induction
  case (step d1 d2)
  then show ?case using drives_dispatcher_step [OF assms(1)] drives_chain [of ok d X d1 d2] by blast
qed simp

end
