(* ===== verification/Dispatch_Example.thy ===== *)
theory Dispatch_Example
  imports Dispatch_Conn Conn_Example
begin

text \<open>
  A server that is driven by the dispatcher: the connection of \<open>Conn_Example\<close>, the channels of
  \<open>Body_Chan\<close> and \<open>Oneshot\<close>, bodies of the library, and a service that answers every request at once,
  either dropping the body of the request or keeping it for later. Its runs are computed.
\<close>

section \<open>The server\<close>

definition ex_response :: "(ex_map, (unit, unit) body) response" where
  "ex_response =
     \<lparr>rp_status = 200, rp_version = HTTP_11, rp_headers = [], rp_extensions = extensions_default,
      rp_body = body_from (ascii ''hi'')\<rparr>"

abbreviation ex_chan :: "(fq, unit, ex_map, unit, unit, u64 option) body_env" where
  "ex_chan \<equiv> ex_body_env"

type_synonym ex_shared = "(fq, unit, (error + unit upgraded) cell) shared"

definition ex_service ::
    "bool \<Rightarrow> cause + (ex_map, (unit, unit) body) response \<Rightarrow> (ex_shared, (unit, unit) body option, unit, ex_map, bytes, (unit, unit) body, (unit, unit) body) http_service" where
  "ex_service keep res =
     \<lparr>svc_poll_ready = (\<lambda>w s. (w, s, Ready (Ok ()))),
      svc_call = (\<lambda>w s req.
        if keep then (w, Some (rq_body req), ())
        else (w\<lparr>sh_chans := body_drop ex_chan (sh_chans w) (rq_body req)\<rparr>, None, ())),
      fut_poll = (\<lambda>w f. (w, f, Ready res))\<rparr>"

definition ex_server ::
    "bool \<Rightarrow> cause + (ex_map, (unit, unit) body) response \<Rightarrow> (script, bytes, bytes, bytes, bytes request_line, nat, ex_map, bytes, unit, fq, unit, unit, unit,
      u64 option, (error + unit upgraded) cell, unit, unit, ((unit, unit) body option, unit) server, (unit, unit) body) dispatch_env" where
  "ex_server keep res =
     \<lparr>x_conn = ex_env req_table, x_chan = ex_chan, x_upgrade = cell_ops,
      x_body = body_http_body ex_chan id, x_dispatch = server_dispatch (ex_service keep res)\<rparr>"

definition ex_ok :: "(unit, unit) body \<Rightarrow> bool" where
  "ex_ok b \<longleftrightarrow> bd_kind b = Once None \<or> bd_kind b = Once (Some (ascii ''hi''))"

lemma ex_sized: "sized_bodies (ex_server keep (Ok ex_response)) ex_ok"
proof -
  have 1: "ex_ok b" if "server_poll_msg (ex_service keep (Ok ex_response)) w s = Some (w', s', Ready (Some (Ok (head, b))))" for w s w' s' head b
    using that by (auto simp: server_poll_msg_def ex_service_def ex_response_def ex_ok_def body_from_def body_new_def
        ascii_def split: option.split_asm)
  have 2: "ex_ok b' \<and> (\<forall>chunk. p = Ready (Some (Ok chunk)) \<longrightarrow> length chunk = 2)"
    if "ex_ok b" "body_poll_data ex_chan st b = (st', b', p)" for st b st' b' p
    using that by (auto simp: ex_ok_def body_poll_data_def poll_eof_def poll_inner_def take_delayed_eof_def ascii_def
        poll_delay_def set_delayed_eof_def ex_body_env_def
        split: option.split_asm delay_eof.split_asm if_split_asm prod.split_asm poll.split_asm)
  show ?thesis
    unfolding sized_bodies_def
    apply (intro conjI allI impI)
    subgoal using 1 by (simp add: ex_server_def server_dispatch_def)
    subgoal using 2 by (auto simp: ex_server_def body_http_body_def split: prod.split_asm)
    subgoal using 2 by (fastforce simp: ex_server_def body_http_body_def ex_env_def ex_bytes_def list_ops_def
        split: prod.split_asm poll.split_asm option.split_asm sum.split_asm)
    subgoal by (auto simp: ex_server_def body_http_body_def take_full_data_def body_take_full_data_def ex_ok_def)
    subgoal by (auto simp: ex_server_def body_http_body_def take_full_data_def body_take_full_data_def ex_ok_def
        a_chunk_def ex_env_def ex_bytes_def list_ops_def ascii_def)
    done
qed

section \<open>A response that is not sent\<close>

definition ex_dconn ::
    "bytes option list \<Rightarrow> bool \<Rightarrow> bool \<Rightarrow> bytes \<Rightarrow> (bytes, bytes, bytes) encoded_buf list \<Rightarrow> string option
     \<Rightarrow> reading \<Rightarrow> writing \<Rightarrow> ka \<Rightarrow> bool \<Rightarrow> ex_map option \<Rightarrow> (script, bytes, bytes, bytes, ex_map, unit, nat) conn" where
  "ex_dconn inp blocked decr hdr q m r w k notify cached =
     \<lparr>c_io =
        \<lparr>flush_pipeline = False, b_io = \<lparr>sc_in = inp, sc_out = [], sc_window = 0\<rparr>, read_blocked = blocked,
         read_buf = [], read_buf_strategy = Adaptive decr 8192 417792,
         write_buf = \<lparr>wb_headers = \<lparr>cur_bytes = hdr, cur_pos = 0\<rparr>, wb_max_buf_size = DEFAULT_MAX_BUFFER_SIZE,
                      wb_queue = \<lparr>bufs = q\<rparr>, wb_strategy = Queue\<rparr>\<rparr>,
      c_state =
        \<lparr>st_allow_half_close = False, st_cached_headers = cached, st_error = None, st_keep_alive = k,
         st_method = m, st_h1_parser_config = (), st_h1_header_read_timeout = None,
         st_h1_header_read_timeout_fut = None, st_h1_header_read_timeout_running = False,
         st_preserve_header_case = False, st_title_case_headers = False, st_h09_responses = False,
         st_notify_read = notify, st_reading = r, st_writing = w, st_upgrade = None,
         st_version = HTTP_11\<rparr>\<rparr>"

lemma ex_encode_last:
  "server_encode ex_http (ascii ''D'') \<lparr>enc_head = resp_head, enc_body = Some (Known 2), enc_keep_alive = False,
     enc_req_method = Some ''POST'', enc_title_case_headers = False\<rparr> [] =
   Some (resp_head, resp, Ok \<lparr>enc_kind = ELength 2, enc_is_last = True\<rparr>)"
  by code_simp

lemmas ex_dispatch_defs =
  ex_dconn_def ex_env_def server_transaction_def parse_context_def parse_headers_def poll_read_from_io_def
  script_transport_def Let_def req_nonempty req_slices restore_context_def state_busy_def ka_and_def
  record_small one_small ZERO_def decoder_new_of req_values

lemma ex_dread_head:
  "conn_poll_read_head (ex_env req_table) (ex_dconn (Some req1 # inp) False d [] [] None RInit WInit Busy n None) =
   Some (ex_dconn inp False (\<not> d) [] [] (Some ''POST'') (RBody (decoder_length 1)) WInit Busy n None,
     Ready (Some (Ok (\<lparr>version = HTTP_11, subject = RequestLine ''POST'' (ascii ''/''),
       headers = [(CONTENT_LENGTH, ascii ''1'')], extensions = extensions_default\<rparr>, DecodedLength 1, WANTS_EMPTY))))"
  by (simp add: conn_poll_read_head_def ex_dispatch_defs buffered_parse.simps req_parse(1) [where x = "[]", simplified]
      head_received_def del: strategy_record.simps)

lemma ex_ddrain:
  "poll_drain_or_close_read (ex_env tbl) (ex_dconn (None # inp) b d [] [] m (RBody (decoder_length 1)) WInit Busy n ch) =
   Some (ex_dconn inp True d [] [] m RClosed WInit Disabled n ch)"
  by (simp add: poll_drain_or_close_read_def ex_dispatch_defs ex_body_defs close_read_def state_close_read_def del: strategy_record.simps)

lemma ex_dwrite_last:
  "write_full_msg (ex_env tbl) (ex_dconn inp b d [] [] (Some ''POST'') r WInit Disabled n None) resp_head (ascii ''hi'') =
   Some (ex_dconn inp b d resp [BufExact (ascii ''hi'')] (Some ''POST'') r WClosed Disabled n (Some []))"
proof -
  have "as_u64 (length (ascii ''hi'')) = 2" by (simp add: ascii_def as_u64_def)
  then show ?thesis
    by (simp add: write_full_msg_def encode_head_def ex_dispatch_defs ex_bytes_def list_ops_def enforce_version_def
        should_read_first_def wants_keep_alive_def headers_buf_def ex_encode_last set_headers_buf_def
        encoder_is_eof_def encoder_length_def encoder_new_def danger_full_buf_def buffer_exact_def
        write_buf_buffer_def buf_list_push_def encoder_is_last_def)
      (simp add: resp_head_def)
qed

lemma ex_dflush:
  "h \<noteq> [] \<Longrightarrow> conn_poll_flush (ex_env tbl) (ex_dconn inp b d h q m r w k n ch) =
   Some (ex_dconn inp b d h q m r w k n ch, Pending)"
  by (simp add: conn_poll_flush_def buffered_poll_flush_def ex_dispatch_defs flush_queue_loop.simps script_write_def
      write_buf_remaining_def cursor_remaining_def)

lemma ex_dstart:
  "conn_new (ex_env tbl) () \<lparr>sc_in = inp, sc_out = [], sc_window = 0\<rparr> =
   ex_dconn inp False False [] [] None RInit WInit Busy False None"
  by (simp add: ex_dispatch_defs conn_new_def buffered_new_def strategy_default_def with_max_def size_defs
      write_buf_new_def cursor_new_def buf_list_new_def)

definition ex_chan_at :: "nat \<Rightarrow> (error + bytes) list \<Rightarrow> bool \<Rightarrow> bool \<Rightarrow> bool \<Rightarrow> (fq, unit) chan" where
  "ex_chan_at want items parked tx rx =
     \<lparr>ch_want = \<lparr>w_value = want\<rparr>,
      ch_data = \<lparr>fq_items = items, fq_buffer = 0, fq_parked = parked, fq_tx = tx, fq_rx = rx\<rparr>,
      ch_trailers = (), ch_trailers_tx = tx\<rparr>"

definition ex_disp ::
    "(script, bytes, bytes, bytes, ex_map, unit, nat) conn \<Rightarrow> unit option \<Rightarrow> (unit, unit) body option \<Rightarrow> nat option
     \<Rightarrow> (fq, unit) chan list
     \<Rightarrow> (script, bytes, bytes, bytes, ex_map, unit, fq, unit, (error + unit upgraded) cell, unit,
         ((unit, unit) body option, unit) server, (unit, unit) body) dispatcher" where
  "ex_disp c in_flight svc body_tx chans =
     \<lparr>dp_conn = c, dp_dispatch = \<lparr>sv_in_flight = in_flight, sv_service = svc\<rparr>, dp_body_tx = body_tx,
      dp_body_rx = None, dp_is_closing = False, dp_shared = \<lparr>sh_chans = chans, sh_upgrades = []\<rparr>\<rparr>"

lemma ex_dguards:
  "can_read_head (ex_env tbl) (ex_dconn inp b d h q m RInit w k n ch)"
  "\<not> can_read_head (ex_env tbl) (ex_dconn inp b d h q m (RBody x) w k n ch)"
  "\<not> can_read_head (ex_env tbl) (ex_dconn inp b d h q m RClosed w k n ch)"
  "can_read_body (ex_dconn inp b d h q m (RBody x) w k n ch)"
  "can_write_head (ex_env tbl) (ex_dconn inp b d h [] m r WInit k n ch)"
  by (simp_all add: can_read_head_def can_read_body_def can_write_head_def ex_dconn_def ex_env_def
      should_read_first_def server_transaction_def can_headers_buf_def buf_list_remaining_def)

lemma ex_new:
  "dispatcher_new (server_new None) (conn_new (ex_env req_table) () \<lparr>sc_in = inp, sc_out = [], sc_window = 0\<rparr>)
     \<lparr>sh_chans = [], sh_upgrades = []\<rparr> =
   ex_disp (ex_dconn inp False False [] [] None RInit WInit Busy False None) None None None []"
  by (simp add: ex_dstart dispatcher_new_def server_new_def ex_disp_def)

lemmas ex_server_defs =
  ex_server_def server_dispatch_def server_poll_msg_def server_recv_msg_def server_poll_ready_def server_should_poll_def
  ex_service_def body_http_body_def ex_disp_def

lemmas ex_channel_defs =
  ex_body_env_def fq_poll_next_def fq_try_send_def fq_send_def fq_poll_ready_def chan_defs new_channel_def body_drop_def
  try_send_data_def sender_drop_def sender_poll_ready_def poll_want_def watch_load_def watch_drop_def ex_chan_at_def
  WANTS_EMPTY_def WANTS_EXPECT_def WANTS_UPGRADE_def

lemma ex_turn_head:
  "dispatcher_poll_read_head (ex_server False res)
     (ex_disp (ex_dconn (Some req1 # inp) False d [] [] None RInit WInit Busy n None) None s None []) =
   Some (ex_disp (ex_dconn inp False (\<not> d) [] [] (Some ''POST'') (RBody (decoder_length 1)) WInit Busy n None)
           (Some ()) None (Some 0) [ex_chan_at 0 [] False True False], Ready (Ok ()))"
  by (simp add: dispatcher_poll_read_head_def deliver_head_def open_body_def attach_upgrade_def ex_server_defs ex_dread_head ex_channel_defs ZERO_def)

lemma ex_turn_drain:
  "forward_body (ex_server False res)
     (ex_disp (ex_dconn (None # inp) b d [] [] m (RBody (decoder_length 1)) WInit Busy n ch) f s (Some 0)
       [ex_chan_at 0 [] False True False]) 0 =
   Some (ex_disp (ex_dconn inp True d [] [] m RClosed WInit Disabled n ch) f s None
           [ex_chan_at 0 [] False False False], Continue)"
  by (simp add: forward_body_def drop_sender_def ex_server_defs ex_ddrain ex_dguards ex_channel_defs)

lemma ex_disp_simps:
  "x_conn (ex_server keep res) = ex_env req_table" "dp_conn (ex_disp c f s t ch) = c"
  "dp_is_closing (ex_disp c f s t ch) = False" "dp_body_tx (ex_disp c f s t ch) = t"
  "dp_body_rx (ex_disp c f s t ch) = None" "(ex_disp c f s t ch)\<lparr>dp_conn := c'\<rparr> = ex_disp c' f s t ch"
  "d_should_poll (x_dispatch (ex_server keep res)) (dp_dispatch (ex_disp c f s t ch)) \<longleftrightarrow> f \<noteq> None"
  by (simp_all add: ex_server_defs)

lemma ex_read_drain:
  "dispatcher_poll_read (ex_server False res)
     (ex_disp (ex_dconn (Some req1 # None # inp) False d [] [] None RInit WInit Busy n None) None s None []) =
   Some (ex_disp (ex_dconn inp True (\<not> d) [] [] (Some ''POST'') RClosed WInit Disabled n None) (Some ()) None None
           [ex_chan_at 0 [] False False False], Pending)"
proof -
  have k: "poll_read_keep_alive E (ex_dconn inp b dd h q m RClosed w k n ch) = (ex_dconn inp b dd h q m RClosed w k n ch, Pending)"
    for E b dd h q m w k n ch
    by (simp add: poll_read_keep_alive_def is_read_closed_def state_is_read_closed_def ex_dconn_def)
  show ?thesis
    apply (subst dispatcher_poll_read.simps)
    apply (simp add: ex_disp_simps ex_dguards ex_turn_head)
    apply (subst dispatcher_poll_read.simps)
    apply (simp add: ex_disp_simps ex_dguards ex_turn_drain)
    apply (subst dispatcher_poll_read.simps)
    apply (simp add: ex_disp_simps ex_dguards k)
    done
qed

lemma ex_write_last:
  "dispatcher_poll_write (ex_server keep (Ok ex_response))
     (ex_disp (ex_dconn inp b d [] [] (Some ''POST'') r WInit Disabled n None) (Some ()) s t chans) =
   Some (ex_disp (ex_dconn inp b d resp [BufExact (ascii ''hi'')] (Some ''POST'') r WClosed Disabled n (Some [])) None s t
           chans, Ready (Ok ()))"
proof -
  have r: "\<lparr>version = HTTP_11, subject = 200, headers = [], extensions = extensions_default\<rparr> = resp_head"
    by (simp add: resp_head_def)
  have "write_next_msg (ex_server keep (Ok ex_response))
     (ex_disp (ex_dconn inp b d [] [] (Some ''POST'') r WInit Disabled n None) (Some ()) s t chans) =
   Some (ex_disp (ex_dconn inp b d resp [BufExact (ascii ''hi'')] (Some ''POST'') r WClosed Disabled n (Some [])) None s t
           chans, Return (Ready (Ok ())))"
    by (simp add: write_next_msg_def ex_server_defs ex_response_def r take_full_data_def body_take_full_data_def
        body_from_def body_new_def ascii_def body_drop_def ex_dwrite_last [unfolded ascii_def, simplified])
  then show ?thesis
    by (subst dispatcher_poll_write.simps) (simp add: ex_server_defs ex_dguards)
qed


section \<open>A body whose end is withheld\<close>

lemma ex_dwrite:
  "write_full_msg (ex_env tbl) (ex_dconn inp b d [] [] (Some ''POST'') r WInit Busy n None) resp_head (ascii ''hi'') =
   Some (ex_dconn inp b d resp [BufExact (ascii ''hi'')] (Some ''POST'') r WKeepAlive Busy n (Some []))"
proof -
  have "as_u64 (length (ascii ''hi'')) = 2" by (simp add: ascii_def as_u64_def)
  then show ?thesis
    by (simp add: write_full_msg_def encode_head_def ex_dispatch_defs ex_bytes_def list_ops_def enforce_version_def
        should_read_first_def wants_keep_alive_def headers_buf_def ex_encode set_headers_buf_def
        encoder_is_eof_def encoder_length_def encoder_new_def danger_full_buf_def buffer_exact_def
        write_buf_buffer_def buf_list_push_def encoder_is_last_def)
      (simp add: resp_head_def)
qed

lemma ex_dread_body:
  "poll_read_body (ex_env tbl) (ex_dconn (None # inp) b d h q m (RBody (decoder_length 1)) w k n ch) =
   Some (ex_dconn inp True d h q m (RBody (decoder_length 1)) w k n ch, Pending)"
  "poll_read_body (ex_env tbl) (ex_dconn (Some [x] # None # inp) b d h q m (RBody (decoder_length 1)) WKeepAlive Busy n ch) =
   Some (ex_dconn inp True (\<not> d) h q None RInit WInit Idle n ch, Ready (Some (Ok [x])))"
  by (simp_all add: ex_dispatch_defs ex_body_defs del: strategy_record.simps)

lemma ex_dread_head_wait:
  "conn_poll_read_head (ex_env tbl) (ex_dconn (None # inp) b d h q None RInit WInit Idle n (Some [])) =
   Some (ex_dconn inp True d h q None RInit WInit Idle n (Some []), Pending)"
  by (simp add: conn_poll_read_head_def ex_dispatch_defs buffered_parse.simps del: strategy_record.simps)

lemma ex_turn_head_kept:
  "dispatcher_poll_read_head (ex_server True res)
     (ex_disp (ex_dconn (Some req1 # inp) False d [] [] None RInit WInit Busy n None) None s None []) =
   Some (ex_disp (ex_dconn inp False (\<not> d) [] [] (Some ''POST'') (RBody (decoder_length 1)) WInit Busy n None)
           (Some ()) (Some (body_new (Chan (DecodedLength 1) 0))) (Some 0) [ex_chan_at 2 [] False True True], Ready (Ok ()))"
  by (simp add: dispatcher_poll_read_head_def deliver_head_def open_body_def attach_upgrade_def ex_server_defs ex_dread_head ex_channel_defs ZERO_def)

lemma ex_turn_forward:
  "forward_body (ex_server True res)
     (ex_disp (ex_dconn (None # inp) b d h q m (RBody (decoder_length 1)) w k n ch) f s (Some 0)
       [ex_chan_at 2 [] False True True]) 0 =
   Some (ex_disp (ex_dconn inp True d h q m (RBody (decoder_length 1)) w k n ch) f s (Some 0)
           [ex_chan_at 2 [] False True True], Return Pending)"
  "forward_body (ex_server True res)
     (ex_disp (ex_dconn (Some [x] # None # inp) b d h q m (RBody (decoder_length 1)) WKeepAlive Busy n ch) f s (Some 0)
       [ex_chan_at 2 [] False True True]) 0 =
   Some (ex_disp (ex_dconn inp True (\<not> d) h q None RInit WInit Idle n ch) f s (Some 0)
           [ex_chan_at 2 [Ok [x]] True True True], Continue)"
  by (simp_all add: forward_body_def drop_sender_def ex_server_defs ex_dread_body ex_dguards ex_channel_defs)

lemma ex_read_kept:
  "dispatcher_poll_read (ex_server True res)
     (ex_disp (ex_dconn (Some req1 # None # inp) False d [] [] None RInit WInit Busy n None) None s None []) =
   Some (ex_disp (ex_dconn inp True (\<not> d) [] [] (Some ''POST'') (RBody (decoder_length 1)) WInit Busy n None)
           (Some ()) (Some (body_new (Chan (DecodedLength 1) 0))) (Some 0) [ex_chan_at 2 [] False True True], Pending)"
  apply (subst dispatcher_poll_read.simps)
  apply (simp add: ex_disp_simps ex_dguards ex_turn_head_kept)
  apply (subst dispatcher_poll_read.simps)
  apply (simp add: ex_disp_simps ex_dguards ex_turn_forward)
  done

lemma ex_turn_wait:
  "dispatcher_poll_read_head (ex_server keep res)
     (ex_disp (ex_dconn (None # inp) b d h q None RInit WInit Idle n (Some [])) None s t chans) =
   Some (ex_disp (ex_dconn inp True d h q None RInit WInit Idle n (Some [])) None s t chans, Pending)"
  by (simp add: dispatcher_poll_read_head_def ex_server_defs ex_dread_head_wait)

lemma ex_read_last:
  "dispatcher_poll_read (ex_server True res)
     (ex_disp (ex_dconn (Some [x] # None # None # inp) b d h q m (RBody (decoder_length 1)) WKeepAlive Busy n (Some []))
       None s (Some 0) [ex_chan_at 2 [] False True True]) =
   Some (ex_disp (ex_dconn inp True (\<not> d) h q None RInit WInit Idle n (Some [])) None s (Some 0)
           [ex_chan_at 2 [Ok [x]] True True True], Pending)"
  apply (subst dispatcher_poll_read.simps)
  apply (simp add: ex_disp_simps ex_dguards ex_turn_forward)
  apply (subst dispatcher_poll_read.simps)
  apply (simp add: ex_disp_simps ex_dguards ex_turn_wait)
  done

lemma ex_write_kept:
  "dispatcher_poll_write (ex_server keep (Ok ex_response))
     (ex_disp (ex_dconn inp b d [] [] (Some ''POST'') r WInit Busy n None) (Some ()) s t chans) =
   Some (ex_disp (ex_dconn inp b d resp [BufExact (ascii ''hi'')] (Some ''POST'') r WKeepAlive Busy n (Some [])) None s t
           chans, Ready (Ok ()))"
proof -
  have r: "\<lparr>version = HTTP_11, subject = 200, headers = [], extensions = extensions_default\<rparr> = resp_head"
    by (simp add: resp_head_def)
  have "write_next_msg (ex_server keep (Ok ex_response))
     (ex_disp (ex_dconn inp b d [] [] (Some ''POST'') r WInit Busy n None) (Some ()) s t chans) =
   Some (ex_disp (ex_dconn inp b d resp [BufExact (ascii ''hi'')] (Some ''POST'') r WKeepAlive Busy n (Some [])) None s t
           chans, Return (Ready (Ok ())))"
    by (simp add: write_next_msg_def ex_server_defs ex_response_def r take_full_data_def body_take_full_data_def
        body_from_def body_new_def ascii_def body_drop_def ex_dwrite [unfolded ascii_def, simplified])
  then show ?thesis
    by (subst dispatcher_poll_write.simps) (simp add: ex_server_defs ex_dguards)
qed

lemma ex_write_idle:
  "dispatcher_poll_write (ex_server keep res)
     (ex_disp (ex_dconn inp b d resp [BufExact (ascii ''hi'')] m r w k n ch) None s t chans) =
   Some (ex_disp (ex_dconn inp b d resp [BufExact (ascii ''hi'')] m r w k n ch) None s t chans, Pending)"
proof -
  have "length resp = 47" by (simp add: resp_def ascii_def CRLF_def)
  then have "can_buffer_body (ex_env req_table) (ex_dconn inp b d resp [BufExact (ascii ''hi'')] m r w k n ch)"
    by (simp add: can_buffer_body_def can_buffer_def ex_dconn_def write_buf_can_buffer_def bufs_cnt_def
        write_buf_remaining_def cursor_remaining_def buf_list_remaining_def encoded_buf_ops_def ex_env_def ex_bytes_def
        list_ops_def size_defs ascii_def MAX_BUF_LIST_BUFFERS_def)
  then show ?thesis by (subst dispatcher_poll_write.simps) (simp add: ex_disp_simps)
qed

lemma ex_poll_waits:
  assumes "dispatcher_poll_read (ex_server keep res) d = Some (d1, Pending)"
    and "dispatcher_poll_write (ex_server keep res) d1 = Some (ex_disp (ex_dconn inp b dd resp q m r w k False ch) f s t chans, p)"
    and "p = Pending \<or> p = Ready (Ok ())" "r \<noteq> RClosed"
  shows "dispatcher_poll (ex_server keep res) d =
    Some (ex_disp (ex_dconn inp b dd resp q m r w k False ch) f s t chans, Pending)"
proof -
  let ?c = "ex_dconn inp b dd resp q m r w k False ch"
  let ?d = "ex_disp ?c f s t chans"
  have f: "dispatcher_poll_flush (ex_server keep res) ?d = Some (?d, Pending)"
    by (simp add: dispatcher_poll_flush_def ex_disp_def ex_server_def ex_dflush req_nonempty)
  have a: "wants_read_again ?c = (?c, False)" by (simp add: wants_read_again_def ex_dconn_def)
  have "poll_loop_turns (ex_server keep res) (Suc n) d = Some (?d, Ready (Ok ()))" for n
    using assms(1-3) by (auto simp: f a ex_disp_simps)
  from this [of 15] have l: "poll_loop (ex_server keep res) d = Some (?d, Ready (Ok ()))" by (simp add: poll_loop_def)
  have "\<not> is_done (ex_server keep res) ?d"
    using assms(4) by (auto simp: is_done_def ex_disp_simps is_read_closed_def state_is_read_closed_def ex_dconn_def
        split: reading.split_asm)
  then show ?thesis by (simp add: dispatcher_poll_def poll_catch_def dispatcher_poll_inner_def l)
qed

lemma ex_first_poll:
  "dispatcher_poll (ex_server True (Ok ex_response))
     (ex_disp (ex_dconn (Some req1 # None # inp) False False [] [] None RInit WInit Busy False None) None None None []) =
   Some (ex_disp (ex_dconn inp True True resp [BufExact (ascii ''hi'')] (Some ''POST'') (RBody (decoder_length 1))
       WKeepAlive Busy False (Some [])) None (Some (body_new (Chan (DecodedLength 1) 0))) (Some 0)
       [ex_chan_at 2 [] False True True], Pending)"
  using ex_poll_waits [OF ex_read_kept [of _ inp False] ex_write_kept] by simp


section \<open>A body that is abandoned\<close>

lemma ex_write_fails:
  "dispatcher_poll_write (ex_server keep (Err e))
     (ex_disp (ex_dconn inp b d [] [] m r WInit k n ch) (Some ()) s t chans) =
   Some (ex_disp (ex_dconn inp b d [] [] m r WInit k n ch) (Some ()) s t chans, Ready (Err (new_user_service e)))"
  by (subst dispatcher_poll_write.simps) (simp add: write_next_msg_def ex_server_defs ex_dguards)


end
