(* ===== verification/Dispatch_Live.thy ===== *)
theory Dispatch_Live
  imports Conn_Live Dispatch_Example
begin

text \<open>
  The reading loop of a server's dispatcher always returns: one poll of the task of a connection hands
  out at most one request and at most one piece of its body before it waits for the service or the
  reader of the body, whatever the peer sends.
\<close>

section \<open>What the loop relies on\<close>

text \<open>
  The channel of a body is made without a buffer, so that its one sender has a single slot: a message
  that was accepted fills it. \<open>single\<close> picks the channels that were made that way. A message that is
  not accepted comes back.
\<close>

definition one_slot :: "('q, 'o, 'hm, 's, 'n, 'h) body_env \<Rightarrow> ('q \<Rightarrow> bool) \<Rightarrow> bool" where
  "one_slot E single \<longleftrightarrow>
     single (bq_channel E 0) \<and>
     (\<forall>q q' p. single q \<longrightarrow> bq_poll_ready E q = (q', p) \<longrightarrow> single q') \<and>
     (\<forall>q x q' r. single q \<longrightarrow> bq_try_send E q x = (q', r) \<longrightarrow>
        single q' \<and> (r = Ok () \<longrightarrow> snd (bq_poll_ready E q') \<noteq> Ready (Ok ())) \<and> (\<forall>y. r = Err y \<longrightarrow> y = x)) \<and>
     (\<forall>q. single q \<longrightarrow> single (bq_drop_tx E q))"

lemma one_slotD:
  assumes "one_slot E single"
  shows "single (bq_channel E 0)"
    and "single q \<Longrightarrow> bq_poll_ready E q = (q', p) \<Longrightarrow> single q'"
    and "single q \<Longrightarrow> bq_try_send E q x = (q', r) \<Longrightarrow> single q'"
    and "single q \<Longrightarrow> bq_try_send E q x = (q', Ok ()) \<Longrightarrow> snd (bq_poll_ready E q') \<noteq> Ready (Ok ())"
    and "single q \<Longrightarrow> bq_try_send E q x = (q', Err y) \<Longrightarrow> y = x"
    and "single q \<Longrightarrow> single (bq_drop_tx E q)"
  using assms unfolding one_slot_def by blast+

definition chans_ok :: "('q \<Rightarrow> bool) \<Rightarrow> ('q, 'o) store \<Rightarrow> bool" where
  "chans_ok single st \<longleftrightarrow> (\<forall>ch \<in> set st. w_value (ch_want ch) \<le> 2 \<and> single (ch_data ch))"

text \<open>The service uses channels only through their interface, which never takes one away.\<close>

definition lawful_service where
  "lawful_service single S \<longleftrightarrow>
     (\<forall>w s w' s' p. svc_poll_ready S w s = (w', s', p) \<longrightarrow> chans_ok single (sh_chans w) \<longrightarrow>
        chans_ok single (sh_chans w') \<and> length (sh_chans w) \<le> length (sh_chans w')) \<and>
     (\<forall>w s req w' s' f. svc_call S w s req = (w', s', f) \<longrightarrow> chans_ok single (sh_chans w) \<longrightarrow>
        chans_ok single (sh_chans w') \<and> length (sh_chans w) \<le> length (sh_chans w'))"

lemma lawful_serviceD:
  assumes "lawful_service single S" "chans_ok single (sh_chans w)"
  shows "svc_poll_ready S w s = (w', s', p) \<Longrightarrow>
      chans_ok single (sh_chans w') \<and> length (sh_chans w) \<le> length (sh_chans w')"
    and "svc_call S w s req = (w', s', f) \<Longrightarrow>
      chans_ok single (sh_chans w') \<and> length (sh_chans w) \<le> length (sh_chans w')"
  using assms unfolding lawful_service_def by blast+

lemma chans_ok_update [simp]:
  "chans_ok single st \<Longrightarrow> w_value (ch_want ch) \<le> 2 \<Longrightarrow> single (ch_data ch) \<Longrightarrow> chans_ok single (st[a := ch])"
  using set_update_subset_insert [of st a ch] by (auto simp: chans_ok_def)

lemma chans_ok_nth: "chans_ok single st \<Longrightarrow> a < length st \<Longrightarrow> w_value (ch_want (st ! a)) \<le> 2 \<and> single (ch_data (st ! a))"
  by (simp add: chans_ok_def)

section \<open>Turns of the loop\<close>

text \<open>
  Reading a head uses up the service or the readable side of the connection; forwarding a piece of a
  body uses up the slot of its channel or the sender.
\<close>

definition slot_free where
  "slot_free X d a \<longleftrightarrow> snd (bq_poll_ready (x_chan X) (ch_data (sh_chans (dp_shared d) ! a))) = Ready (Ok ())"

definition read_turns where
  "read_turns X d =
     3 * (if sv_in_flight (dp_dispatch d) = None \<and> \<not> is_read_closed (dp_conn d) \<and> \<not> dp_is_closing d then 1 else 0 :: nat) +
     (case dp_body_tx d of None \<Rightarrow> 0 | Some a \<Rightarrow> if slot_free X d a then 2 else 1)"

locale server_disp = server_conn "x_conn X" input sent H P date
  for X :: "('io, 'b, 'tk, 'ch, 'uri request_line, nat, 'hm, 'uri, 'cfg, 'q, 'o, 's, 'n, 'h, 'u, 'z, 'dyn,
      ('svc, 'fut) server, 'bs) dispatch_env"
    and input sent H P date +
  fixes S :: "(('q, 'o, 'u, 'z) shared_scheme, 'svc, 'fut, 'hm, 'uri, ('s, 'n) body, 'bs) http_service"
    and single :: "'q \<Rightarrow> bool"
  assumes disp: "x_dispatch X = server_dispatch S"
    and slot: "one_slot (x_chan X) single" and svc: "lawful_service single S"
begin

definition reads_ok :: "('io, 'b, 'tk, 'ch, 'hm, 'cfg, 'q, 'o, 'u, 'z, ('svc, 'fut) server, 'bs) dispatcher \<Rightarrow> bool" where
  "reads_ok d \<longleftrightarrow> readable (dp_conn d) \<and> chans_ok single (sh_chans (dp_shared d)) \<and>
     (\<forall>a. dp_body_tx d = Some a \<longrightarrow> a < length (sh_chans (dp_shared d)))"

lemma drop_sender_ok:
  assumes "chans_ok single (sh_chans w)"
  shows "chans_ok single (sh_chans (drop_sender X a w))" "length (sh_chans (drop_sender X a w)) = length (sh_chans w)"
proof -
  show "length (sh_chans (drop_sender X a w)) = length (sh_chans w)" by (simp add: drop_sender_def sender_drop_def)
  show "chans_ok single (sh_chans (drop_sender X a w))"
  proof (cases "a < length (sh_chans w)")
    case True
    with assms chans_ok_nth [OF assms True] show ?thesis
      by (simp add: drop_sender_def sender_drop_def one_slotD(6) [OF slot])
  qed (use assms in \<open>simp add: drop_sender_def sender_drop_def list_update_beyond\<close>)
qed

lemma open_body_ok:
  assumes "reads_ok d" "open_body X d len wants = (d', body)"
  shows "reads_ok d'"
proof (cases "len = ZERO")
  case True
  with assms show ?thesis by (simp add: open_body_def)
next
  case False
  let ?n = "length (sh_chans (dp_shared d))"
  obtain st rx where n: "new_channel (x_chan X) (sh_chans (dp_shared d)) len (wants_contains wants WANTS_EXPECT) = (st, ?n, rx)"
    and st: "chans_ok single st" "length st = Suc ?n"
    using assms(1) one_slotD(1) [OF slot]
    by (auto simp: new_channel_def Let_def reads_ok_def chans_ok_def watch_channel_def WANT_PENDING_def WANT_READY_def)
  have "chans_ok single (sh_chans ((dp_shared d)\<lparr>sh_chans := st\<rparr>))" using st by simp
  note ds = drop_sender_ok [OF this]
  show ?thesis
    using False n st ds assms by (auto simp: open_body_def reads_ok_def Let_def split: option.split_asm)
qed

lemma attach_upgrade_ok:
  assumes "reads_ok d" "attach_upgrade X d head wants = (d', head')"
  shows "reads_ok d'"
  using assms by (auto simp: attach_upgrade_def reads_ok_def drop_pending_def on_upgrade_def prepare_upgrade_def Let_def
      split: if_split_asm prod.split_asm option.split_asm)

lemma deliver_head_turn:
  assumes "reads_ok d" "deliver_head X d head len wants = (d', p)"
  shows "reads_ok d' \<and> p = Ready (Ok ()) \<and> sv_in_flight (dp_dispatch d') \<noteq> None"
proof -
  obtain d1 body where d1: "open_body X d len wants = (d1, body)" by fastforce
  obtain d2 head2 where d2: "attach_upgrade X d1 head wants = (d2, head2)" by fastforce
  have r: "reads_ok d2" by (rule attach_upgrade_ok [OF open_body_ok [OF assms(1) d1] d2])
  obtain meth uri where h: "subject head2 = RequestLine meth uri" by (cases "subject head2")
  let ?req = "\<lparr>rq_method = meth, rq_uri = uri, rq_version = version head2, rq_headers = headers head2,
    rq_extensions = extensions head2, rq_body = body\<rparr>"
  obtain w svc' f where c: "svc_call S (dp_shared d2) (sv_service (dp_dispatch d2)) ?req = (w, svc', f)"
    by (metis prod_cases3)
  have "chans_ok single (sh_chans (dp_shared d2))" using r by (simp add: reads_ok_def)
  from lawful_serviceD(2) [OF svc this c] r assms(2) show ?thesis
    by (auto simp: deliver_head_def d1 d2 disp server_dispatch_def server_recv_msg_def h c Let_def reads_ok_def
        dest: less_le_trans)
qed

lemma read_head_eof:
  assumes "conn_poll_read_head E c = Some (c', Ready None)"
  shows "is_read_closed c'"
proof -
  have "is_read_closed c'" if "on_read_head_error E c1 e = Some (c', Ready None)" for c1 e
  proof -
    have answered: "(case r of Ok _ \<Rightarrow> Pending | Err e \<Rightarrow> Ready (Some (Err e))) \<noteq> Ready None" for r :: "error + unit"
      by (cases r) simp_all
    from that show ?thesis
      by (auto simp: on_read_head_error_def Let_def answered is_read_closed_def state_is_read_closed_def close_write_def
          close_read_def state_defs split: if_split_asm)
  qed
  with assms show ?thesis
    by (auto simp: conn_poll_read_head_def Let_def split: option.split_asm poll.split_asm sum.split_asm prod.split_asm)
qed

lemma read_head_turn:
  assumes "reads_ok d" "can_read_head (x_conn X) (dp_conn d)" "\<not> dp_is_closing d"
  shows "\<exists>d' p. dispatcher_poll_read_head X d = Some (d', p) \<and> reads_ok d' \<and>
    (p = Ready (Ok ()) \<longrightarrow> read_turns X d' < read_turns X d)"
proof (cases "sv_in_flight (dp_dispatch d)")
  case (Some f)
  with assms(1) show ?thesis
    by (simp add: dispatcher_poll_read_head_def disp server_dispatch_def server_poll_ready_def)
next
  case None
  have c: "chans_ok single (sh_chans (dp_shared d))" "readable (dp_conn d)" using assms(1) by (simp_all add: reads_ok_def)
  have open': "\<not> is_read_closed (dp_conn d)"
    using assms(2) by (auto simp: can_read_head_def is_read_closed_def state_is_read_closed_def split: reading.split_asm)
  then have 3: "3 \<le> read_turns X d" using None assms(3) by (simp add: read_turns_def)
  have used: "read_turns X d' < read_turns X d"
    if "sv_in_flight (dp_dispatch d') \<noteq> None \<or> is_read_closed (dp_conn d') \<or> dp_is_closing d'" for d'
  proof -
    have "read_turns X d' \<le> 2" using that by (auto simp: read_turns_def split: option.split)
    with 3 show ?thesis by simp
  qed
  obtain w s q where p: "svc_poll_ready S (dp_shared d) (sv_service (dp_dispatch d)) = (w, s, q)" by (metis prod_cases3)
  define d1 where "d1 = d\<lparr>dp_shared := w, dp_dispatch := (dp_dispatch d)\<lparr>sv_service := s\<rparr>\<rparr>"
  have d1: "reads_ok d1" "dp_conn d1 = dp_conn d"
    using lawful_serviceD(1) [OF svc c(1) p] assms(1) by (auto simp: d1_def reads_ok_def dest: less_le_trans)
  have close: "reads_ok d2 \<Longrightarrow> reads_ok (dispatcher_close d2)" "dp_is_closing (dispatcher_close d2)" for d2
    by (simp_all add: reads_ok_def dispatcher_close_def close_read_def close_write_def)
  note unf = dispatcher_poll_read_head_def disp server_dispatch_def server_poll_ready_def None p d1_def [symmetric] Let_def
  from read_head_returns [OF c(2)] obtain c' m where
    m: "conn_poll_read_head (x_conn X) (dp_conn d) = Some (c', m)" "readable c'" by blast
  define d2 where "d2 = d1\<lparr>dp_conn := c'\<rparr>"
  have d2: "reads_ok d2" using d1 m(2) by (simp add: d2_def reads_ok_def)
  consider "q = Pending" | e where "q = Ready (Err e)" | "q = Ready (Ok ())" by (metis poll.exhaust sum.exhaust unit.exhaust)
  then show ?thesis
  proof cases
    case 1
    with d1 show ?thesis by (simp add: unf)
  next
    case 2
    with d1 close used [of "dispatcher_close d1"] show ?thesis by (simp add: unf)
  next
    case 3
    note unf2 = unf d1(2) m(1) 3 d2_def [symmetric]
    consider "m = Pending" | e where "m = Ready (Some (Err e))" | "m = Ready None"
      | head len wants where "m = Ready (Some (Ok (head, len, wants)))"
      by (metis poll.exhaust option.exhaust sum.exhaust prod_cases3)
    then show ?thesis
    proof cases
      case 1
      with d2 show ?thesis by (simp add: unf2)
    next
      case (2 e)
      with d2 show ?thesis by (simp add: unf2 server_recv_msg_def) (simp add: reads_ok_def d2_def d1_def)
    next
      case 3
      with m(1) have "is_read_closed c'" by (simp add: read_head_eof)
      then have "is_read_closed (dp_conn d2)" by (simp add: d2_def)
      with 3 d2 close used [of d2] used [of "dispatcher_close d2"] show ?thesis by (simp add: unf2)
    next
      case (4 head len wants)
      obtain d3 p where d3: "deliver_head X d2 head len wants = (d3, p)" by fastforce
      from deliver_head_turn [OF d2 d3] used [of d3] d3 4 show ?thesis by (simp add: unf2)
    qed
  qed
qed

lemma poll_ready_turn:
  assumes "chans_ok single st" "a < length st"
  obtains st' p where "sender_poll_ready (x_chan X) st a = Some (st', p)" "chans_ok single st'" "length st' = length st"
    "p = Ready (Ok ()) \<longrightarrow> snd (bq_poll_ready (x_chan X) (ch_data (st ! a))) = Ready (Ok ())"
proof -
  note ch = chans_ok_nth [OF assms]
  obtain q p where q: "bq_poll_ready (x_chan X) (ch_data (st ! a)) = (q, p)" by fastforce
  from one_slotD(2) [OF slot _ q] ch have s: "single q" by blast
  from ch consider "w_value (ch_want (st ! a)) = 0" | "w_value (ch_want (st ! a)) = 1" | "w_value (ch_want (st ! a)) = 2"
    by linarith
  then show thesis
  proof cases
    case 3
    have "(case p of Pending \<Rightarrow> Pending | Ready (Ok _) \<Rightarrow> Ready (Ok ()) | Ready (Err _) \<Rightarrow> Ready (Err new_closed)) =
        Ready (Ok ()) \<longrightarrow> p = Ready (Ok ())" by (auto split: poll.split sum.split)
    with 3 that [of "st[a := (st ! a)\<lparr>ch_data := q\<rparr>]"] q s ch assms(1) show thesis
      by (simp add: sender_poll_ready_def poll_want_def chan_defs)
  qed (use that [of st] assms(1) in \<open>auto simp: sender_poll_ready_def poll_want_def chan_defs\<close>)
qed

lemma try_send_turn:
  assumes "chans_ok single st" "a < length st"
  obtains st' r where "try_send_data (x_chan X) st a chunk = Some (st', r)" "chans_ok single st'" "length st' = length st"
    "r = Ok () \<longrightarrow> snd (bq_poll_ready (x_chan X) (ch_data (st' ! a))) \<noteq> Ready (Ok ())"
proof -
  note ch = chans_ok_nth [OF assms]
  obtain q r where q: "bq_try_send (x_chan X) (ch_data (st ! a)) (Ok chunk) = (q, r)" by fastforce
  note s = one_slotD(3-5) [OF slot, of "ch_data (st ! a)" "Ok chunk" q]
  show thesis
  proof (cases r)
    case (Inl y)
    with s(3) q ch have "y = Ok chunk" by blast
    with that [of "st[a := (st ! a)\<lparr>ch_data := q\<rparr>]" "Err chunk"] Inl q s(1) ch assms show thesis
      by (simp add: try_send_data_def)
  next
    case (Inr u)
    with that [of "st[a := (st ! a)\<lparr>ch_data := q\<rparr>]" "Ok ()"] q s ch assms show thesis
      by (simp add: try_send_data_def)
  qed
qed

lemma send_error_turn:
  assumes "chans_ok single st" "a < length st"
  shows "chans_ok single (send_error (x_chan X) st a e)"
proof -
  note ch = chans_ok_nth [OF assms]
  obtain q r where q: "bq_try_send (x_chan X) (ch_data (st ! a)) (Err e) = (q, r)" by fastforce
  with one_slotD(3) [OF slot _ q] ch assms(1) show ?thesis by (simp add: send_error_def)
qed

lemma forward_body_turn:
  assumes "reads_ok d" "dp_body_tx d = Some a" "\<not> dp_is_closing d"
  shows "\<exists>d' k. forward_body X d a = Some (d', k) \<and> reads_ok d' \<and> (k = Continue \<longrightarrow> read_turns X d' < read_turns X d)"
proof -
  let ?E = "x_chan X"
  let ?st = "sh_chans (dp_shared d)"
  have ok: "chans_ok single ?st" "readable (dp_conn d)" "a < length ?st" using assms(1,2) by (simp_all add: reads_ok_def)
  note ch = chans_ok_nth [OF ok(1,3)]
  define set where "set = (\<lambda>st d :: ('io, 'b, 'tk, 'ch, 'hm, 'cfg, 'q, 'o, 'u, 'z, ('svc, 'fut) server, 'bs) dispatcher.
    d\<lparr>dp_shared := (dp_shared d)\<lparr>sh_chans := st\<rparr>\<rparr>)"
  define drop where "drop = (\<lambda>d :: ('io, 'b, 'tk, 'ch, 'hm, 'cfg, 'q, 'o, 'u, 'z, ('svc, 'fut) server, 'bs) dispatcher.
    d\<lparr>dp_shared := drop_sender X a (dp_shared d)\<rparr>)"
  text \<open>A turn that lets the sender go, and one that keeps it with its slot taken.\<close>
  have gone: "reads_ok (drop d1) \<and> read_turns X (drop d1) < read_turns X d"
    if "readable (dp_conn d1)" "chans_ok single (sh_chans (dp_shared d1))" "dp_body_tx d1 = None"
      "dp_dispatch d1 = dp_dispatch d" "is_read_closed (dp_conn d) \<longrightarrow> is_read_closed (dp_conn d1)" for d1
    using that assms(2,3) drop_sender_ok [OF that(2)]
    by (auto simp: drop_def reads_ok_def read_turns_def)
  have kept: "reads_ok d1 \<and> read_turns X d1 < read_turns X d"
    if "readable (dp_conn d1)" "chans_ok single (sh_chans (dp_shared d1))" "dp_body_tx d1 = Some a"
      "a < length (sh_chans (dp_shared d1))" "\<not> slot_free X d1 a" "slot_free X d a"
      "dp_dispatch d1 = dp_dispatch d" "is_read_closed (dp_conn d) \<longrightarrow> is_read_closed (dp_conn d1)" for d1
    using that assms(2,3) by (auto simp: reads_ok_def read_turns_def)
  note unf = forward_body_def Let_def set_def [symmetric] drop_def [symmetric]
  show ?thesis
  proof (cases "can_read_body (dp_conn d)")
    case False
    with gone [of "d\<lparr>dp_body_tx := None\<rparr>"] ok show ?thesis by (simp add: unf)
  next
    case True
    then have o: "\<not> is_read_closed (dp_conn d)"
      by (auto simp: can_read_body_def is_read_closed_def state_is_read_closed_def split: reading.split_asm)
    obtain st p where
      p: "sender_poll_ready ?E ?st a = Some (st, p)" and st: "chans_ok single st" "length st = length ?st"
      and free: "p = Ready (Ok ()) \<longrightarrow> snd (bq_poll_ready (x_chan X) (ch_data (?st ! a))) = Ready (Ok ())"
      by (rule poll_ready_turn [OF ok(1,3)])
    have lt: "a < length st" using ok(3) st(2) by simp
    consider "p = Pending" | e where "p = Ready (Err e)" | "p = Ready (Ok ())" by (metis poll.exhaust sum.exhaust unit.exhaust)
    then show ?thesis
    proof cases
      case 1
      with True p st ok show ?thesis by (simp add: unf) (simp add: reads_ok_def set_def)
    next
      case (2 e)
      from drain_returns [OF ok(2) True] obtain c where
        "poll_drain_or_close_read (x_conn X) (dp_conn d) = Some c" "readable c" by blast
      with 2 True p st o gone [of "(set st (d\<lparr>dp_body_tx := None\<rparr>))\<lparr>dp_conn := c\<rparr>"] show ?thesis
        by (simp add: unf) (simp add: set_def)
    next
      case 3
      from read_body_returns [OF ok(2) True] obtain c m where
        m: "poll_read_body (x_conn X) (dp_conn d) = Some (c, m)" "readable c" by blast
      let ?d = "(set st (d\<lparr>dp_body_tx := None\<rparr>))\<lparr>dp_conn := c\<rparr>"
      note unf2 = unf p m(1) 3
      consider "m = Pending" | e where "m = Ready (Some (Err e))" | "m = Ready None" | chunk where "m = Ready (Some (Ok chunk))"
        by (metis poll.exhaust option.exhaust sum.exhaust)
      then show ?thesis
      proof cases
        case 1
        with True m(2) st ok show ?thesis by (simp add: unf2) (simp add: reads_ok_def set_def)
      next
        case (2 e)
        let ?d2 = "set (send_error ?E st a (new_body (CauseIo e))) ?d"
        from send_error_turn [OF st(1) lt] have "chans_ok single (sh_chans (dp_shared ?d2))" by (simp add: set_def)
        with 2 True o m(2) gone [of ?d2] show ?thesis by (simp add: unf2) (simp add: set_def)
      next
        case 3
        with True o st m(2) gone [of ?d] show ?thesis by (simp add: unf2) (simp add: set_def)
      next
        case (4 chunk)
        obtain st2 r where
          r: "try_send_data ?E st a chunk = Some (st2, r)" "chans_ok single st2" "length st2 = length st"
            "r = Ok () \<longrightarrow> snd (bq_poll_ready (x_chan X) (ch_data (st2 ! a))) \<noteq> Ready (Ok ())"
          by (rule try_send_turn [OF st(1) lt])
        show ?thesis
        proof (cases r)
          case (Inl y)
          let ?d2 = "(set st2 ?d)\<lparr>dp_conn := (if can_read_body c then close_read c else c)\<rparr>"
          have "readable (dp_conn ?d2)" using m(2) by (simp add: close_read_def)
          with 4 Inl True o r(1,2) gone [of ?d2] show ?thesis
            by (simp add: unf2 split del: if_split) (simp add: set_def split del: if_split)
        next
          case (Inr u)
          let ?d2 = "(set st2 ?d)\<lparr>dp_body_tx := Some a\<rparr>"
          from Inr r(4) have "\<not> slot_free X ?d2 a" by (simp add: slot_free_def set_def)
          moreover from free 3 have "slot_free X d a" by (simp add: slot_free_def)
          ultimately have "reads_ok ?d2 \<and> read_turns X ?d2 < read_turns X d"
            using r(2,3) m(2) lt o by (intro kept) (simp_all add: set_def)
          with 4 Inr True r(1) show ?thesis by (simp add: unf2)
        qed
      qed
    qed
  qed
qed

lemma poll_read_returns:
  "reads_ok d \<Longrightarrow> \<exists>d' p. dispatcher_poll_read X d = Some (d', p)"
proof (induction "read_turns X d" arbitrary: d rule: less_induct)
  case less
  show ?case
  proof (cases "dp_is_closing d")
    case True
    then show ?thesis by (subst dispatcher_poll_read.simps) simp
  next
    case open': False
    show ?thesis
    proof (cases "can_read_head (x_conn X) (dp_conn d)")
      case True
      from read_head_turn [OF less.prems True open'] obtain d1 p where
        h: "dispatcher_poll_read_head X d = Some (d1, p)" "reads_ok d1" "p = Ready (Ok ()) \<longrightarrow> read_turns X d1 < read_turns X d"
        by blast
      note unf = dispatcher_poll_read.simps [of X d]
      consider "p = Pending" | e where "p = Ready (Err e)" | "p = Ready (Ok ())" by (metis poll.exhaust sum.exhaust unit.exhaust)
      then show ?thesis
      proof cases
        case 3
        with h less.hyps [of d1] have "\<exists>d' p. dispatcher_poll_read X d1 = Some (d', p)" by blast
        with 3 h(1) True open' unf show ?thesis by simp
      qed (use h(1) True open' unf in simp_all)
    next
      case False
      show ?thesis
      proof (cases "dp_body_tx d")
        case (Some a)
        from forward_body_turn [OF less.prems Some open'] obtain d1 k where
          h: "forward_body X d a = Some (d1, k)" "reads_ok d1" "k = Continue \<longrightarrow> read_turns X d1 < read_turns X d" by blast
        note unf = dispatcher_poll_read.simps [of X d]
        show ?thesis
        proof (cases k)
          case Continue
          with h less.hyps [of d1] have "\<exists>d' p. dispatcher_poll_read X d1 = Some (d', p)" by blast
          with Continue h(1) False open' Some unf show ?thesis by simp
        qed (use h(1) False open' Some unf in simp)
      next
        case None
        with False open' show ?thesis by (subst dispatcher_poll_read.simps) (auto split: prod.split)
      qed
    qed
  qed
qed

end

section \<open>The example server\<close>

lemma ex_one_slot: "one_slot ex_chan (\<lambda>q. fq_buffer q = 0)"
  by (auto simp: one_slot_def ex_body_env_def fq_poll_ready_def fq_try_send_def fq_send_def split: if_split_asm)

lemma ex_body_drop_ok:
  assumes "chans_ok (\<lambda>q. fq_buffer q = 0) st"
  shows "chans_ok (\<lambda>q. fq_buffer q = 0) (body_drop ex_chan st b)" "length (body_drop ex_chan st b) = length st"
proof -
  show "length (body_drop ex_chan st b) = length st" by (simp add: body_drop_def split: body_kind.split)
  show "chans_ok (\<lambda>q. fq_buffer q = 0) (body_drop ex_chan st b)"
  proof (cases "bd_kind b")
    case (Chan len a)
    show ?thesis
    proof (cases "a < length st")
      case True
      from assms chans_ok_nth [OF assms True] Chan show ?thesis
        by (simp add: body_drop_def watch_drop_def chan_defs) (simp add: ex_body_env_def)
    qed (use assms Chan in \<open>simp add: body_drop_def list_update_beyond\<close>)
  qed (use assms in \<open>simp_all add: body_drop_def\<close>)
qed

lemma ex_lawful: "lawful_service (\<lambda>q. fq_buffer q = 0) (ex_service keep res)"
  by (auto simp: lawful_service_def ex_service_def ex_body_drop_ok)

interpretation ex_server: server_disp "ex_server keep res" script_input sc_out ex_http "table_httparse req_table" "ascii ''D''"
    "ex_service keep res" "\<lambda>q. fq_buffer q = 0" for keep res
proof -
  have "x_conn (ex_server keep res) = ex_env req_table" by (simp add: ex_server_def)
  with ex_live.server_conn_axioms
  show "server_disp (ex_server keep res) script_input sc_out ex_http (table_httparse req_table) (ascii ''D'') (ex_service keep res)
      (\<lambda>q. fq_buffer q = 0)"
    by (intro server_disp.intro server_disp_axioms.intro) (simp_all add: ex_server_def ex_one_slot ex_lawful)
qed

section \<open>A poll of the reading side returns\<close>

text \<open>C13: The reading side of a server's dispatcher never starves its task and never panics. Whatever the
  peer sends and however the service reacts, \<open>poll_read\<close> comes back after finitely many turns: it hands
  out requests, forwards their bodies and answers malformed heads, and stops at the latest when the
  service is busy and the slot of the body's channel is taken. The environment is any transport, a
  lawful \<open>httparse\<close> and header map, one-slot channels, and a service that does not tamper with
  channels.\<close>

theorem server_poll_read_returns:
  assumes "server_disp X input sent H P date S single"
    and "buffered_ok (c_io (dp_conn d))" "chans_ok single (sh_chans (dp_shared d))"
    and "\<forall>a. dp_body_tx d = Some a \<longrightarrow> a < length (sh_chans (dp_shared d))"
  shows "\<exists>d' p. dispatcher_poll_read X d = Some (d', p)"
  using server_disp.poll_read_returns [OF assms(1)] assms(2-4) unfolding server_disp.reads_ok_def [OF assms(1)] by blast

theorem server_poll_read_returns_witness:
  "\<exists>d' p. dispatcher_poll_read (ex_server True (Ok ex_response))
     (ex_disp (ex_dconn [Some req1, None] False False [] [] None RInit WInit Busy False None) None None None []) = Some (d', p)"
proof -
  note strategy_ok_default
  then have "buffered_ok (c_io (ex_dconn [Some req1, None] False False [] [] None RInit WInit Busy False None))"
    by (simp add: buffered_ok_def ex_dconn_def strategy_default_def with_max_def size_defs)
  then show ?thesis
    by (intro server_poll_read_returns [OF ex_server.server_disp_axioms]) (simp_all add: ex_disp_def chans_ok_def)
qed

end
