(* ===== verification/Dispatch_Stream.thy ===== *)
theory Dispatch_Stream
  imports Dispatch_Conn
begin

text \<open>
  A body that the user streams goes out complete and correctly framed: the writing loop of the
  dispatcher takes the pieces of the body one after the other, skips the empty ones, and ends the body
  when the user's stream ends, however often it has to wait for the body or for the transport.
\<close>

section \<open>What a body promises\<close>

text \<open>\<open>yields b\<close> are the pieces that the body \<open>b\<close> will still give.\<close>

locale streamed_body =
  fixes HB :: "('w, 'bs, 'b) http_body" and ok :: "'bs \<Rightarrow> bool" and yields :: "'bs \<Rightarrow> 'b list"
  assumes poll_ok: "ok b \<Longrightarrow> hb_poll_data HB w b = (w', b', p) \<Longrightarrow> ok b'"
    and poll_pending: "ok b \<Longrightarrow> hb_poll_data HB w b = (w', b', Pending) \<Longrightarrow> yields b' = yields b"
    and poll_piece: "ok b \<Longrightarrow> hb_poll_data HB w b = (w', b', Ready (Some (Ok c))) \<Longrightarrow> yields b = c # yields b'"
    and poll_end: "ok b \<Longrightarrow> hb_poll_data HB w b = (w', b', Ready None) \<Longrightarrow> yields b = []"
    and poll_error: "ok b \<Longrightarrow> hb_poll_data HB w b \<noteq> (w', b', Ready (Some (Err e)))"
    and end_stream: "ok b \<Longrightarrow> hb_is_end_stream HB b \<Longrightarrow> yields b = []"

text \<open>The body of the library, when it holds its data.\<close>

definition once_ok :: "('s, 'n) body \<Rightarrow> bool" where
  "once_ok b \<longleftrightarrow> bd_extra b = None \<and> (\<exists>c. bd_kind b = Once c)"

definition once_pieces :: "('s, 'n) body \<Rightarrow> bytes list" where
  "once_pieces b = (case bd_kind b of Once (Some c) \<Rightarrow> [c] | _ \<Rightarrow> [])"

interpretation once_body: streamed_body "body_http_body E exact" once_ok once_pieces for E exact
  by unfold_locales
    (auto simp: once_ok_def once_pieces_def body_http_body_def body_poll_data_def poll_eof_def poll_inner_def
      take_delayed_eof_def body_is_end_stream_def split: option.split_asm)

section \<open>Turns of the loop\<close>

text \<open>Computation induction for the writing loop, one case per way a turn can go.\<close>

lemma poll_write_induct [consumes 1, case_names closing msg msg_stop flush flush_stop piece piece_stop idle]:
  fixes P :: "('io, 'b, 'tk, 'ch, 'hm, 'cfg, 'q, 'o, 'u, 'z, 'd, 'bs) dispatcher
    \<Rightarrow> ('io, 'b, 'tk, 'ch, 'hm, 'cfg, 'q, 'o, 'u, 'z, 'd, 'bs) dispatcher \<Rightarrow> bool"
    and X :: "('io, 'b, 'tk, 'ch, 'inc, 'out, 'hm, 'uri, 'cfg, 'q, 'o, 's, 'n, 'h, 'u, 'z, 'dyn, 'd, 'bs) dispatch_env"
  assumes run: "dispatcher_poll_write X d = Some (d', p)"
    and closing: "\<And>d. dp_is_closing d \<Longrightarrow> P d d"
    and msg: "\<And>d d1 d'. d_should_poll (x_dispatch X) (dp_dispatch d) \<Longrightarrow> can_write_head (x_conn X) (dp_conn d) \<Longrightarrow>
      dp_body_rx d = None \<Longrightarrow> write_next_msg X d = Some (d1, Continue) \<Longrightarrow> P d1 d' \<Longrightarrow> P d d'"
    and msg_stop: "\<And>d d1 r. d_should_poll (x_dispatch X) (dp_dispatch d) \<Longrightarrow> can_write_head (x_conn X) (dp_conn d) \<Longrightarrow>
      dp_body_rx d = None \<Longrightarrow> write_next_msg X d = Some (d1, Return r) \<Longrightarrow> P d d1"
    and flush: "\<And>d d1 d'. dispatcher_poll_flush X d = Some (d1, Ready (Ok ())) \<Longrightarrow> P d1 d' \<Longrightarrow> P d d'"
    and flush_stop: "\<And>d d1 q. dispatcher_poll_flush X d = Some (d1, q) \<Longrightarrow> P d d1"
    and piece: "\<And>d d1 d' b. dp_body_rx d = Some b \<Longrightarrow> write_body_piece X d b = Some (d1, Continue) \<Longrightarrow> P d1 d' \<Longrightarrow> P d d'"
    and piece_stop: "\<And>d d1 b r. dp_body_rx d = Some b \<Longrightarrow> write_body_piece X d b = Some (d1, Return r) \<Longrightarrow> P d d1"
    and idle: "\<And>d. dp_body_rx d = None \<Longrightarrow> P d d"
  shows "P d d'"
proof -
  define R where "R = (\<lambda>(X', d) (d', p :: (error + unit) poll). X' = X \<longrightarrow> P d d')"
  have "R (X, d) (d', p)"
  proof (rule dispatcher_poll_write.raw_induct [OF _ run], goal_cases)
    case (1 self X' d y)
    note IH = 1(1)
    have "P d (fst y)" if X: "X' = X"
    proof -
      note run = \<open>_ = Some y\<close> [unfolded X]
      have rec: "P d1 (fst y)" if "self X d1 = Some y" for d1
        using IH [OF that] by (cases y) (simp add: R_def)
      let ?msg = "dp_body_rx d = None \<and> can_write_head (x_conn X) (dp_conn d) \<and> d_should_poll (x_dispatch X) (dp_dispatch d)"
      consider "dp_is_closing d" | "\<not> dp_is_closing d" "?msg"
        | "\<not> dp_is_closing d" "\<not> ?msg" "\<not> can_buffer_body (x_conn X) (dp_conn d)"
        | b where "\<not> dp_is_closing d" "\<not> ?msg" "can_buffer_body (x_conn X) (dp_conn d)" "dp_body_rx d = Some b"
        | "\<not> dp_is_closing d" "\<not> ?msg" "can_buffer_body (x_conn X) (dp_conn d)" "dp_body_rx d = None" by blast
      then show ?thesis
      proof cases
        case 1
        with run have "fst y = d" by auto
        with closing 1 show ?thesis by simp
      next
        case 2
        with run obtain d1 k where k: "write_next_msg X d = Some (d1, k)" by (auto split: option.split_asm)
        with run 2 have "k = Continue \<and> self X d1 = Some y \<or> (\<exists>r. k = Return r \<and> fst y = d1)"
          by (auto split: control.split_asm)
        with k 2 msg [of d d1 "fst y"] msg_stop [of d d1] rec [of d1] show ?thesis by auto
      next
        case 3
        with run obtain d1 q where q: "dispatcher_poll_flush X d = Some (d1, q)" by (auto split: option.split_asm)
        with run 3 have "q = Ready (Ok ()) \<and> self X d1 = Some y \<or> fst y = d1"
          by (auto split: poll.split_asm sum.split_asm)
        with q flush [of d d1 "fst y"] flush_stop [OF q] rec [of d1] show ?thesis by auto
      next
        case (4 b)
        with run obtain d1 k where k: "write_body_piece X d b = Some (d1, k)" by (auto split: option.split_asm)
        with run 4 have "k = Continue \<and> self X d1 = Some y \<or> (\<exists>r. k = Return r \<and> fst y = d1)"
          by (auto split: control.split_asm)
        with k 4 piece [of d b d1 "fst y"] piece_stop [of d b d1] rec [of d1] show ?thesis by auto
      next
        case 5
        with run have "fst y = d" by auto
        with idle 5 show ?thesis by simp
      qed
    qed
    then show ?case by (cases y) (simp add: R_def)
  qed
  then show ?thesis by (simp add: R_def)
qed

text \<open>The pieces that are written.\<close>

definition filled :: "('b \<Rightarrow> bytes) \<Rightarrow> 'b list \<Rightarrow> bytes list" where
  "filled cb bs = filter (\<lambda>x. x \<noteq> []) (map cb bs)"

lemma filled_simps [simp]:
  "filled cb [] = []" "filled cb (b # bs) = (if cb b = [] then filled cb bs else cb b # filled cb bs)"
  by (simp_all add: filled_def)

lemma wire_all_full: "wire_all (ELength 0) ms = (ELength 0, [])"
  by (induction ms) (simp_all add: as_u64_def)

text \<open>Writing goes on, or the body is through.\<close>

definition streams_on where
  "streams_on out cb ok yields d d' e b \<longleftrightarrow>
     (\<exists>ps b'. yields b = ps @ yields b' \<and> dp_body_rx d' = Some b' \<and> ok b' \<and>
        st_writing (c_state (dp_conn d')) = WBody (e\<lparr>enc_kind := fst (wire_all (enc_kind e) (filled cb ps))\<rparr>) \<and>
        out (dp_conn d') = out (dp_conn d) @ snd (wire_all (enc_kind e) (filled cb ps)))"

definition streamed where
  "streamed out cb yields d d' e b \<longleftrightarrow>
     dp_body_rx d' = None \<and>
     out (dp_conn d') = out (dp_conn d) @ snd (wire_all (enc_kind e) (filled cb (yields b))) @
       (case wire_end (fst (wire_all (enc_kind e) (filled cb (yields b)))) of Some t \<Rightarrow> t | None \<Rightarrow> []) \<and>
     (wire_end (fst (wire_all (enc_kind e) (filled cb (yields b)))) = None \<longrightarrow> is_write_closed (dp_conn d'))"

text \<open>A body of known length is through when its length is written, even when the user has more.\<close>

definition streamed_full where
  "streamed_full out cb yields d d' e b \<longleftrightarrow>
     (\<exists>ps rest. yields b = ps @ rest \<and> \<not> can_write_body (dp_conn d') \<and>
        fst (wire_all (enc_kind e) (filled cb ps)) = ELength 0 \<and>
        out (dp_conn d') = out (dp_conn d) @ snd (wire_all (enc_kind e) (filled cb ps)))"

lemma streams_refl:
  "dp_body_rx d' = Some b' \<Longrightarrow> ok b' \<Longrightarrow> yields b' = yields b \<Longrightarrow> st_writing (c_state (dp_conn d')) = WBody e \<Longrightarrow>
   out (dp_conn d') = out (dp_conn d) \<Longrightarrow> streams_on out cb ok yields d d' e b"
  unfolding streams_on_def by (intro exI [of _ "[]"] exI [of _ b']) simp

text \<open>A turn that wrote the pieces \<open>ps\<close> is followed by the rest of the run.\<close>

lemma wire_all_append:
  "wire_all k (xs @ ys) =
     (let (k', w) = wire_all k xs; (k'', ws) = wire_all k' ys in (k'', w @ ws))"
  by (induction k xs rule: wire_all.induct) (simp_all add: Let_def split: prod.split)

lemma streams_after:
  assumes "yields b = ps @ yields b1" "out (dp_conn d1) = out (dp_conn d) @ snd (wire_all (enc_kind e) (filled cb ps))"
  defines "e1 \<equiv> e\<lparr>enc_kind := fst (wire_all (enc_kind e) (filled cb ps))\<rparr>"
  shows "streams_on out cb ok yields d1 d' e1 b1 \<Longrightarrow> streams_on out cb ok yields d d' e b"
    and "streamed_full out cb yields d1 d' e1 b1 \<Longrightarrow> streamed_full out cb yields d d' e b"
    and "streamed out cb yields d1 d' e1 b1 \<Longrightarrow> streamed out cb yields d d' e b"
proof -
  have w: "wire_all (enc_kind e) (filled cb (ps @ qs)) =
      (let (k'', ws) = wire_all (enc_kind e1) (filled cb qs) in (k'', snd (wire_all (enc_kind e) (filled cb ps)) @ ws))" for qs
    by (simp add: filled_def wire_all_append e1_def Let_def split: prod.split)
  show "streams_on out cb ok yields d1 d' e1 b1 \<Longrightarrow> streams_on out cb ok yields d d' e b"
    unfolding streams_on_def
  proof (elim exE conjE)
    fix qs b'
    assume "yields b1 = qs @ yields b'" "dp_body_rx d' = Some b'" "ok b'"
      "st_writing (c_state (dp_conn d')) = WBody (e1\<lparr>enc_kind := fst (wire_all (enc_kind e1) (filled cb qs))\<rparr>)"
      "out (dp_conn d') = out (dp_conn d1) @ snd (wire_all (enc_kind e1) (filled cb qs))"
    with assms(1,2) w [of qs] show "\<exists>ps b'. yields b = ps @ yields b' \<and> dp_body_rx d' = Some b' \<and> ok b' \<and>
        st_writing (c_state (dp_conn d')) = WBody (e\<lparr>enc_kind := fst (wire_all (enc_kind e) (filled cb ps))\<rparr>) \<and>
        out (dp_conn d') = out (dp_conn d) @ snd (wire_all (enc_kind e) (filled cb ps))"
      by (intro exI [of _ "ps @ qs"] exI [of _ b']) (auto simp: e1_def split: prod.split)
  qed
  show "streamed_full out cb yields d1 d' e1 b1 \<Longrightarrow> streamed_full out cb yields d d' e b"
    unfolding streamed_full_def
  proof (elim exE conjE)
    fix qs rest
    assume "yields b1 = qs @ rest" "\<not> can_write_body (dp_conn d')" "fst (wire_all (enc_kind e1) (filled cb qs)) = ELength 0"
      "out (dp_conn d') = out (dp_conn d1) @ snd (wire_all (enc_kind e1) (filled cb qs))"
    with assms(1,2) w [of qs] show "\<exists>ps rest. yields b = ps @ rest \<and> \<not> can_write_body (dp_conn d') \<and>
        fst (wire_all (enc_kind e) (filled cb ps)) = ELength 0 \<and>
        out (dp_conn d') = out (dp_conn d) @ snd (wire_all (enc_kind e) (filled cb ps))"
      by (intro exI [of _ "ps @ qs"] exI [of _ rest]) (auto split: prod.split)
  qed
  show "streamed out cb yields d1 d' e1 b1 \<Longrightarrow> streamed out cb yields d d' e b"
    using assms(1,2) w [of "yields b1"] by (auto simp: streamed_def split: prod.split_asm)
qed

lemma streamed_full_cleared:
  assumes "streamed_full out cb yields d d1 e b" "dp_body_rx d' = None" "out (dp_conn d') = out (dp_conn d1)"
  shows "streamed out cb yields d d' e b"
proof -
  from assms(1) obtain ps rest where
    p: "yields b = ps @ rest" "fst (wire_all (enc_kind e) (filled cb ps)) = ELength 0"
      "out (dp_conn d1) = out (dp_conn d) @ snd (wire_all (enc_kind e) (filled cb ps))"
    unfolding streamed_full_def by blast
  obtain w where w: "wire_all (enc_kind e) (filled cb ps) = (ELength 0, w)" using p(2) by (metis prod.collapse)
  have "wire_all (enc_kind e) (filled cb (yields b)) = (ELength 0, w)"
    using w by (simp add: p(1) filled_def wire_all_append wire_all_full)
  with p w assms(2,3) show ?thesis by (simp add: streamed_def)
qed

text \<open>The writing half of a connection, while other tasks use what is shared.\<close>

inductive writer_step for X where
  side_write: "dispatcher_poll_write X d = Some (d', p) \<Longrightarrow> writer_step X d d'"
| side_flush: "dispatcher_poll_flush X d = Some (d', p) \<Longrightarrow> writer_step X d d'"
| side_other: "writer_step X d (d\<lparr>dp_shared := w\<rparr>)"

locale body_stream = conn_laws "x_conn X" input sent cb ct cc + streamed_body "x_body X" ok yields
  for X :: "('io, 'b, 'tk, 'ch, 'inc, 'out, 'hm, 'uri, 'cfg, 'q, 'o, 's, 'n, 'h, 'u, 'z, 'dyn, 'd, 'bs) dispatch_env"
    and input sent cb ct cc ok yields
begin

abbreviation out :: "('io, 'b, 'tk, 'ch, 'hm, 'cfg, nat) conn \<Rightarrow> bytes" where
  "out \<equiv> outgoing sent cb ct cc"

lemma flush_turn:
  assumes "conn_ok cb ct cc (dp_conn d)" "dispatcher_poll_flush X d = Some (d', p)"
  shows "conn_ok cb ct cc (dp_conn d')" "out (dp_conn d') = out (dp_conn d)"
    "st_writing (c_state (dp_conn d)) = WBody e \<Longrightarrow> st_writing (c_state (dp_conn d')) = WBody e"
    "\<not> can_write_body (dp_conn d) \<Longrightarrow> \<not> can_write_body (dp_conn d')"
    "is_write_closed (dp_conn d) \<Longrightarrow> is_write_closed (dp_conn d')"
    "dp_body_rx d' = dp_body_rx d" "dp_dispatch d' = dp_dispatch d"
proof -
  from assms(2) obtain c q where c: "conn_poll_flush (x_conn X) (dp_conn d) = Some (c, q)" "d' = d\<lparr>dp_conn := c\<rparr>"
    by (auto simp: dispatcher_poll_flush_def split: option.split_asm)
  from flush_ok [OF assms(1)] c show "conn_ok cb ct cc (dp_conn d')" "out (dp_conn d') = out (dp_conn d)"
    "\<not> can_write_body (dp_conn d) \<Longrightarrow> \<not> can_write_body (dp_conn d')"
    "dp_body_rx d' = dp_body_rx d" "dp_dispatch d' = dp_dispatch d"
    by (auto simp: can_write_body_def)
  have "st_writing (c_state (conn_try_keep_alive (x_conn X) c1)) = WBody e" if "st_writing (c_state c1) = WBody e"
    for c1 :: "('io, 'b, 'tk, 'ch, 'hm, 'cfg, nat) conn"
    using that state_try_keep_alive_cases [of "e_tx (x_conn X)" "c_state c1"]
    by (auto simp: conn_try_keep_alive_def maybe_notify_def can_write_body_def)
  with c show "st_writing (c_state (dp_conn d)) = WBody e \<Longrightarrow> st_writing (c_state (dp_conn d')) = WBody e"
    by (auto simp: conn_poll_flush_def split: option.split_asm poll.split_asm sum.split_asm)
  from c steps_closed(2) [OF r_into_rtranclp, OF step_flush [OF c(1)]]
  show "is_write_closed (dp_conn d) \<Longrightarrow> is_write_closed (dp_conn d')" by simp
qed

text \<open>Once the body is through, nothing more is written.\<close>

definition spent where
  "spent d d' \<longleftrightarrow>
     conn_ok cb ct cc (dp_conn d) \<and> \<not> can_write_body (dp_conn d) \<and> \<not> d_should_poll (x_dispatch X) (dp_dispatch d) \<longrightarrow>
     conn_ok cb ct cc (dp_conn d') \<and> out (dp_conn d') = out (dp_conn d) \<and> \<not> can_write_body (dp_conn d') \<and>
     (dp_body_rx d = None \<longrightarrow> dp_body_rx d' = None) \<and> (is_write_closed (dp_conn d) \<longrightarrow> is_write_closed (dp_conn d'))"

lemma end_body_spent: "end_body E c = Some (c', res) \<Longrightarrow> st_writing (c_state c) = WBody e \<Longrightarrow> \<not> can_write_body c'"
  by (auto simp: end_body_def can_write_body_def split: sum.split_asm option.split_asm if_split_asm Option.bind_split_asm)

text \<open>One turn with the body in hand.\<close>

lemma piece_turn:
  assumes "conn_ok cb ct cc (dp_conn d)" "st_writing (c_state (dp_conn d)) = WBody e" "dp_body_rx d = Some b" "ok b"
    and "\<forall>c \<in> set (yields b). length (cb c) < 2 ^ 64" "write_body_piece X d b = Some (d1, k)"
  obtains (on) ps b1 where "yields b = ps @ yields b1" "dp_body_rx d1 = Some b1" "ok b1" "conn_ok cb ct cc (dp_conn d1)"
      "st_writing (c_state (dp_conn d1)) = WBody (e\<lparr>enc_kind := fst (wire_all (enc_kind e) (filled cb ps))\<rparr>)"
      "out (dp_conn d1) = out (dp_conn d) @ snd (wire_all (enc_kind e) (filled cb ps))"
      "dp_dispatch d1 = dp_dispatch d"
    | (full) "streamed_full out cb yields d d1 e b" "conn_ok cb ct cc (dp_conn d1)" "dp_dispatch d1 = dp_dispatch d"
    | (through) "streamed out cb yields d d1 e b" "conn_ok cb ct cc (dp_conn d1)" "\<not> can_write_body (dp_conn d1)"
        "dp_dispatch d1 = dp_dispatch d"
proof -
  have cw: "can_write_body (dp_conn d)" using assms(2) by (simp add: can_write_body_def)
  obtain w b1 p where p: "hb_poll_data (x_body X) (dp_shared d) b = (w, b1, p)" by (metis prod_cases3)
  have ok1: "ok b1" by (rule poll_ok [OF assms(4) p])
  have rem: "b_remaining (buf_b (e_bytes (x_conn X))) c = 0 \<longleftrightarrow> cb c = []" for c
    using bytes_okD(7) [OF bytes, of c] by simp
  note unf = write_body_piece_def cw p prod.case Let_def
  text \<open>The end of the body.\<close>
  have ended: thesis if y: "filled cb (yields b) = []" and e: "end_body (x_conn X) (dp_conn d) = Some (c, res)"
      and d1: "dp_conn d1 = c" "dp_body_rx d1 = None" "dp_dispatch d1 = dp_dispatch d" for c res
  proof -
    from end_body_ok [OF assms(1,2)] e have c: "conn_ok cb ct cc c"
      "out c = out (dp_conn d) @ (case wire_end (enc_kind e) of Some t \<Rightarrow> t | None \<Rightarrow> [])"
      "wire_end (enc_kind e) = None \<longrightarrow> is_write_closed c"
      by (auto split: option.split_asm)
    moreover have "\<not> can_write_body c" using end_body_spent [OF e assms(2)] .
    ultimately show thesis using y d1 by (intro through) (simp_all add: streamed_def)
  qed
  consider "p = Pending" | e where "p = Ready (Some (Err e))" | "p = Ready None" | c where "p = Ready (Some (Ok c))"
    by (metis poll.exhaust option.exhaust sum.exhaust)
  then show thesis
  proof cases
    case 1
    with assms(6) have "d1 = d\<lparr>dp_shared := w, dp_body_rx := Some b1\<rparr>" by (simp add: unf)
    with poll_pending [OF assms(4) p [unfolded 1]] ok1 assms(1,2) show thesis by (intro on [of "[]" b1]) simp_all
  next
    case 2
    with poll_error [OF assms(4)] p show thesis by blast
  next
    case 3
    from assms(6) obtain c res where "end_body (x_conn X) (dp_conn d) = Some (c, res)" "dp_conn d1 = c"
      "dp_body_rx d1 = None" "dp_dispatch d1 = dp_dispatch d"
      by (auto simp: unf 3 split: option.split_asm sum.split_asm)
    with ended [OF _ this] poll_end [OF assms(4) p [unfolded 3]] show thesis by simp
  next
    case (4 c)
    note y = poll_piece [OF assms(4) p [unfolded 4]]
    have len: "length (cb c) < 2 ^ 64" using assms(5) y by simp
    show thesis
    proof (cases "cb c = []")
      case empty: True
      show thesis
      proof (cases "hb_is_end_stream (x_body X) b1")
        case True
        from assms(6) obtain c' res where e: "end_body (x_conn X) (dp_conn d) = Some (c', res)" "dp_conn d1 = c'"
          "dp_body_rx d1 = None" "dp_dispatch d1 = dp_dispatch d"
          by (auto simp: unf 4 rem empty True split: option.split_asm sum.split_asm)
        from ended [OF _ e] y empty end_stream [OF ok1 True] show thesis by simp
      next
        case False
        with assms(6) have "d1 = d\<lparr>dp_shared := w, dp_body_rx := Some b1\<rparr>" by (simp add: unf 4 rem empty)
        with y ok1 assms(1,2) empty show thesis by (intro on [of "[c]" b1]) simp_all
      qed
    next
      case filled: False
      show thesis
      proof (cases "hb_is_end_stream (x_body X) b1")
        case True
        with assms(6) filled obtain c' where "write_body_and_end (x_conn X) (dp_conn d) c = Some c'" "dp_conn d1 = c'"
          "dp_body_rx d1 = None" "dp_dispatch d1 = dp_dispatch d"
          by (auto simp: unf 4 rem)
        moreover obtain k o' where k: "wire_step (enc_kind e) (cb c) = (k, o')" by fastforce
        moreover from write_body_and_end_ok [OF assms(1,2) filled len] calculation(1) k have
          "conn_ok cb ct cc c'"
          "out c' = out (dp_conn d) @ o' @ (case wire_end k of None \<Rightarrow> [] | Some t \<Rightarrow> t)"
          "st_writing (c_state c') =
            (if \<not> enc_is_last e \<and> \<not> is_close_delimited e \<and> wire_end k \<noteq> None then WKeepAlive else WClosed)" by auto
        ultimately show thesis
          using y filled end_stream [OF ok1 True]
          by (intro through)
            (simp_all add: streamed_def can_write_body_def is_write_closed_def state_is_write_closed_def split: prod.split option.split_asm)
      next
        case False
        with assms(6) filled obtain c' where c': "write_body (x_conn X) (dp_conn d) c = Some c'"
          "d1 = d\<lparr>dp_shared := w, dp_body_rx := Some b1, dp_conn := c'\<rparr>"
          by (auto simp: unf 4 rem)
        let ?k = "fst (wire_step (enc_kind e) (cb c))"
        from write_body_ok [OF assms(1,2) filled len] c'(1) have w': "conn_ok cb ct cc c'"
          "out c' = out (dp_conn d) @ snd (wire_step (enc_kind e) (cb c))"
          "st_writing (c_state c') = (if encoder_is_eof (e\<lparr>enc_kind := ?k\<rparr>) then (if enc_is_last e then WClosed else WKeepAlive)
            else WBody (e\<lparr>enc_kind := ?k\<rparr>))" by (auto simp: Let_def)
        have wire: "wire_all (enc_kind e) (filled cb [c]) = (?k, snd (wire_step (enc_kind e) (cb c)))"
          using filled by (simp split: prod.split)
        show thesis
        proof (cases "encoder_is_eof (e\<lparr>enc_kind := ?k\<rparr>)")
          case True
          then have "?k = ELength 0" by (simp add: encoder_is_eof_def)
          with True w' c'(2) y wire have "streamed_full out cb yields d d1 e b"
            unfolding streamed_full_def
            by (intro exI [of _ "[c]"] exI [of _ "yields b1"]) (simp add: can_write_body_def)
          with w'(1) c'(2) show thesis by (intro full) simp_all
        next
          case False
          with w' c'(2) y wire ok1 show thesis by (intro on [of "[c]" b1]) simp_all
        qed
      qed
    qed
  qed
qed

definition streaming where
  "streaming d e b \<longleftrightarrow> conn_ok cb ct cc (dp_conn d) \<and> st_writing (c_state (dp_conn d)) = WBody e \<and> dp_body_rx d = Some b \<and>
     ok b \<and> (\<forall>c \<in> set (yields b). length (cb c) < 2 ^ 64) \<and> \<not> d_should_poll (x_dispatch X) (dp_dispatch d)"

definition carried where
  "carried d d' e b \<longleftrightarrow> streams_on out cb ok yields d d' e b \<or> streamed_full out cb yields d d' e b \<or> streamed out cb yields d d' e b"

text \<open>What is known of the run from \<open>d\<close> to \<open>d'\<close>; it is built up from the end of the run.\<close>

definition runs_to where
  "runs_to d' d \<longleftrightarrow> spent d d' \<and> (\<forall>e b. streaming d e b \<longrightarrow> carried d d' e b)"

lemma runs_to_refl: "runs_to d d"
  by (auto simp: runs_to_def spent_def streaming_def carried_def intro!: streams_refl)

lemma runs_to_should_poll: "d_should_poll (x_dispatch X) (dp_dispatch d) \<Longrightarrow> runs_to d' d"
  by (simp add: runs_to_def spent_def streaming_def)

lemma runs_to_shared: "runs_to d' (d\<lparr>dp_shared := w\<rparr>) \<longleftrightarrow> runs_to d' d"
  by (simp add: runs_to_def spent_def streaming_def carried_def streams_on_def streamed_full_def streamed_def)

lemma flush_runs_to:
  assumes "dispatcher_poll_flush X d = Some (d1, q)" "runs_to d' d1"
  shows "runs_to d' d"
  unfolding runs_to_def
proof (intro conjI allI impI)
  note f = flush_turn [OF _ assms(1)]
  from f assms(2) show "spent d d'" unfolding runs_to_def spent_def by metis
  fix e b
  assume d: "streaming d e b"
  with f have "streaming d1 e b" by (auto simp: streaming_def)
  with assms(2) have "carried d1 d' e b" by (simp add: runs_to_def)
  moreover from d f(2) have "out (dp_conn d1) = out (dp_conn d)" by (simp add: streaming_def)
  ultimately show "carried d d' e b" by (simp add: carried_def streams_on_def streamed_full_def streamed_def)
qed

lemma piece_spent:
  assumes "write_body_piece X d b = Some (d1, k)" "spent d1 d'" shows "spent d d'"
  unfolding spent_def
proof (intro impI, elim conjE)
  assume d: "conn_ok cb ct cc (dp_conn d)" "\<not> can_write_body (dp_conn d)" "\<not> d_should_poll (x_dispatch X) (dp_dispatch d)"
  with assms(1) have "dp_conn d1 = dp_conn d" "dp_body_rx d1 = None" "dp_dispatch d1 = dp_dispatch d"
    by (auto simp: write_body_piece_def)
  with d assms(2) show "conn_ok cb ct cc (dp_conn d') \<and> out (dp_conn d') = out (dp_conn d) \<and> \<not> can_write_body (dp_conn d') \<and>
     (dp_body_rx d = None \<longrightarrow> dp_body_rx d' = None) \<and> (is_write_closed (dp_conn d) \<longrightarrow> is_write_closed (dp_conn d'))"
    by (auto simp: spent_def)
qed

lemma piece_carried:
  assumes "write_body_piece X d b = Some (d1, k)" "streaming d e b" "runs_to d' d1"
  shows "carried d d' e b"
proof -
  from assms(2) have d: "conn_ok cb ct cc (dp_conn d)" "st_writing (c_state (dp_conn d)) = WBody e" "dp_body_rx d = Some b" "ok b"
    "\<forall>c \<in> set (yields b). length (cb c) < 2 ^ 64" "\<not> d_should_poll (x_dispatch X) (dp_dispatch d)"
    by (simp_all add: streaming_def)
  from assms(3) have run: "spent d1 d'" "\<And>e b. streaming d1 e b \<Longrightarrow> carried d1 d' e b" by (simp_all add: runs_to_def)
  show ?thesis
  proof (rule piece_turn [OF d(1-5) assms(1)])
    fix ps b1
    assume t: "yields b = ps @ yields b1" "dp_body_rx d1 = Some b1" "ok b1" "conn_ok cb ct cc (dp_conn d1)"
      "st_writing (c_state (dp_conn d1)) = WBody (e\<lparr>enc_kind := fst (wire_all (enc_kind e) (filled cb ps))\<rparr>)"
      "out (dp_conn d1) = out (dp_conn d) @ snd (wire_all (enc_kind e) (filled cb ps))" "dp_dispatch d1 = dp_dispatch d"
    then have "streaming d1 (e\<lparr>enc_kind := fst (wire_all (enc_kind e) (filled cb ps))\<rparr>) b1"
      using d by (simp add: streaming_def)
    from run(2) [OF this] streams_after [where yields = yields and out = out and cb = cb, OF t(1,6)] show ?thesis
      unfolding carried_def by blast
  next
    assume "streamed_full out cb yields d d1 e b" "conn_ok cb ct cc (dp_conn d1)" "dp_dispatch d1 = dp_dispatch d"
    with run(1) d(6) show ?thesis by (auto simp: carried_def streamed_full_def spent_def)
  next
    assume "streamed out cb yields d d1 e b" "conn_ok cb ct cc (dp_conn d1)" "\<not> can_write_body (dp_conn d1)"
      "dp_dispatch d1 = dp_dispatch d"
    with run(1) d(6) show ?thesis by (auto simp: carried_def streamed_def spent_def)
  qed
qed

lemma piece_runs_to:
  assumes "dp_body_rx d = Some b" "write_body_piece X d b = Some (d1, k)" "runs_to d' d1"
  shows "runs_to d' d"
  using piece_spent [OF assms(2)] piece_carried [OF assms(2) _ assms(3)] assms(1,3)
  by (auto simp: runs_to_def streaming_def)

lemma write_runs_to:
  assumes "dispatcher_poll_write X d = Some (d1, p)" shows "runs_to d' d1 \<longrightarrow> runs_to d' d"
  using assms
  by (induction rule: poll_write_induct)
    (simp_all add: runs_to_should_poll flush_runs_to, (metis piece_runs_to)+)

lemma writer_run: "(writer_step X)\<^sup>*\<^sup>* d d' \<Longrightarrow> runs_to d' d"
proof (induction rule: converse_rtranclp_induct)
  case base
  show ?case by (rule runs_to_refl)
next
  case (step d d1)
  from step(1) show ?case
    by (cases rule: writer_step.cases) (use step(3) write_runs_to flush_runs_to runs_to_shared in metis)+
qed

end

end
