(* ===== verification/Dispatch_Props.thy ===== *)
theory Dispatch_Props
  imports Dispatch_Live Dispatch_Stream
begin

text \<open>
  Properties of a dispatched connection that combine the dispatcher with the connection below it and
  the body and the service above it.
\<close>

section \<open>The dispatcher and its connection\<close>

text \<open>C3: The dispatcher refines the protocol of the connection. Over any run, in which it is polled with
  or without the final shutdown, keep-alive is disabled from outside and other tasks use the shared
  channels, it performs operations of the connection only in the states for which they are made:
  everything that holds of runs of the connection holds of a dispatched connection. While the body
  of a message is being received there is a sender for it, and a dispatcher that is closing has
  closed both sides of the connection. The service, the caller and the bodies are arbitrary, as long
  as a piece of a body fits the address space.\<close>

theorem dispatcher_respects_conn:
  assumes "sized_bodies X ok" "(dispatcher_step X)\<^sup>*\<^sup>* (dispatcher_new ds c w) d" "\<not> can_read_body c"
  shows "(conn_step (x_conn X))\<^sup>*\<^sup>* c (dp_conn d) \<and>
    (can_read_body (dp_conn d) \<longrightarrow> dp_body_tx d \<noteq> None) \<and>
    (dp_is_closing d \<longrightarrow> is_read_closed (dp_conn d) \<and> is_write_closed (dp_conn d))"
proof -
  have "dispatcher_inv ok (dispatcher_new ds c w)"
    using assms(3) by (simp add: dispatcher_inv_def dispatcher_new_def rx_ok_def)
  with drives_run [OF assms(1,2)] show ?thesis by (auto simp: drives_def dispatcher_inv_def dispatcher_new_def)
qed

theorem dispatcher_respects_conn_witness:
  "\<exists>d. (dispatcher_step (ex_server True (Ok ex_response)))\<^sup>*\<^sup>*
      (dispatcher_new (server_new None)
        (conn_new (ex_env req_table) () \<lparr>sc_in = [Some req1, None], sc_out = [], sc_window = 0\<rparr>)
        \<lparr>sh_chans = [], sh_upgrades = []\<rparr>) d \<and> can_read_body (dp_conn d) \<and>
    (conn_step (ex_env req_table))\<^sup>*\<^sup>*
      (conn_new (ex_env req_table) () \<lparr>sc_in = [Some req1, None], sc_out = [], sc_window = 0\<rparr>) (dp_conn d)"
proof -
  let ?c = "conn_new (ex_env req_table) () \<lparr>sc_in = [Some req1, None], sc_out = [], sc_window = 0\<rparr> ::
    (script, bytes, bytes, bytes, ex_map, unit, nat) conn"
  have x: "x_conn (ex_server True (Ok ex_response)) = ex_env req_table" by (simp add: ex_server_def)
  have n: "\<not> can_read_body ?c" by (simp add: ex_dstart can_read_body_def ex_dconn_def)
  let ?d = "ex_disp (ex_dconn [] True True resp [BufExact (ascii ''hi'')] (Some ''POST'') (RBody (decoder_length 1))
       WKeepAlive Busy False (Some [])) None (Some (body_new (Chan (DecodedLength 1) 0))) (Some 0)
       [ex_chan_at 2 [] False True True]"
  have d: "(dispatcher_step (ex_server True (Ok ex_response)))\<^sup>*\<^sup>*
      (dispatcher_new (server_new None) ?c \<lparr>sh_chans = [], sh_upgrades = []\<rparr>) ?d" "can_read_body (dp_conn ?d)"
    unfolding ex_new using step_poll [OF ex_first_poll [of "[]"]] by (auto simp: ex_disp_simps ex_dguards)
  from dispatcher_respects_conn [OF ex_sized d(1) n] d x show ?thesis by auto
qed

section \<open>Streamed bodies\<close>

text \<open>A stream that gives its items in order, and waits where the script has none.\<close>

definition ex_stream :: "bytes option list \<Rightarrow> bytes option list \<times> (cause + bytes) option poll" where
  "ex_stream s =
     (case s of
        [] \<Rightarrow> ([], Ready None)
      | None # s \<Rightarrow> (s, Pending)
      | Some c # s \<Rightarrow> (s, Ready (Some (Ok c))))"

abbreviation ex_stream_env :: "(fq, unit, ex_map, bytes option list, unit, u64 option) body_env" where
  "ex_stream_env \<equiv> ex_body_env\<lparr>stream_poll_next := ex_stream\<rparr>"

definition wrapped_ok :: "(bytes option list, 'n) body \<Rightarrow> bool" where
  "wrapped_ok b \<longleftrightarrow> bd_extra b = None \<and> (\<exists>s. bd_kind b = Wrapped s)"

definition wrapped_pieces :: "(bytes option list, 'n) body \<Rightarrow> bytes list" where
  "wrapped_pieces b = (case bd_kind b of Wrapped s \<Rightarrow> List.map_filter id s | _ \<Rightarrow> [])"

interpretation wrapped_body: streamed_body "body_http_body ex_stream_env exact" wrapped_ok wrapped_pieces for exact
  by unfold_locales
    (auto simp: wrapped_ok_def wrapped_pieces_def body_http_body_def body_poll_data_def poll_eof_def poll_inner_def
      take_delayed_eof_def body_is_end_stream_def ex_stream_def List.map_filter_simps
      split: option.split_asm list.split_asm)

text \<open>A server that answers with such a body.\<close>

definition ex_streamer ::
    "bytes option list \<Rightarrow> (script, bytes, bytes, bytes, bytes request_line, nat, ex_map, bytes, unit, fq, unit, unit, unit,
      u64 option, (error + unit upgraded) cell, unit, unit, (unit, unit) server, (bytes option list, unit) body) dispatch_env" where
  "ex_streamer s =
     \<lparr>x_conn = ex_env req_table, x_chan = ex_body_env, x_upgrade = cell_ops,
      x_body = body_http_body ex_stream_env id,
      x_dispatch = server_dispatch
        \<lparr>svc_poll_ready = (\<lambda>w s. (w, s, Ready (Ok ()))),
         svc_call = (\<lambda>w s req. (w\<lparr>sh_chans := body_drop (ex_body_env :: (fq, unit, ex_map, unit, unit, u64 option) body_env) (sh_chans w) (rq_body req)\<rparr>, s, ())),
         fut_poll = (\<lambda>w f. (w, f, Ready (Ok
           \<lparr>rp_status = 200, rp_version = HTTP_11, rp_headers = [], rp_extensions = extensions_default,
            rp_body = wrap_stream s\<rparr>)))\<rparr>\<rparr>"

interpretation ex_streamer: body_stream "ex_streamer s" script_input sc_out "\<lambda>b. b" "\<lambda>b. b" "\<lambda>b. b"
    wrapped_ok wrapped_pieces for s
  by (intro body_stream.intro) (simp_all add: ex_streamer_def ex_conn_laws wrapped_body.streamed_body_axioms)

lemma ex_streamer_simps:
  "x_conn (ex_streamer s) = ex_env req_table"
  "hb_poll_data (x_body (ex_streamer s)) w (wrap_stream (Some m # r)) = (w, wrap_stream r, Ready (Some (Ok m)))"
  "hb_poll_data (x_body (ex_streamer s)) w (wrap_stream (None # r)) = (w, wrap_stream r, Pending)"
  "hb_poll_data (x_body (ex_streamer s)) w (wrap_stream []) = (w, wrap_stream [], Ready None)"
  "hb_is_end_stream (x_body (ex_streamer s)) (wrap_stream r) = False"
  "hb_drop (x_body (ex_streamer s)) w (wrap_stream r) = w"
  "b_remaining (buf_b (e_bytes (ex_env req_table))) = length"
  by (simp_all add: ex_streamer_def body_http_body_def wrap_stream_def body_new_def body_poll_data_def poll_eof_def
      poll_inner_def take_delayed_eof_def ex_stream_def body_is_end_stream_def body_drop_def ex_env_def ex_bytes_def list_ops_def)

text \<open>C1: A streamed body goes out complete and correctly framed. From a state in which the head of a
  message has been written and its body is still to come, however often the dispatcher is then made to
  write and to flush, and however often it has to wait for the body or for the transport: while the
  body is held, a prefix of its pieces is on its way to the peer, framed by the encoder that was
  chosen with the head, or its whole announced length; when the dispatcher lets go of the body, all
  of it is, in order and followed by the end that the framing needs, and if the body has fallen short
  of its announced length, the connection is closed for writing. Empty pieces leave no trace, so
  that they do not end a chunked body early.\<close>

theorem streamed_body_complete:
  assumes "conn_laws (x_conn X) input sent cb ct cc" "streamed_body (x_body X) ok yields"
    and "conn_ok cb ct cc (dp_conn d)" "st_writing (c_state (dp_conn d)) = WBody e" "dp_body_rx d = Some b" "ok b"
    and "\<forall>c \<in> set (yields b). length (cb c) < 2 ^ 64" "\<not> d_should_poll (x_dispatch X) (dp_dispatch d)"
    and "(writer_step X)\<^sup>*\<^sup>* d d'"
  shows "case dp_body_rx d' of
      None \<Rightarrow> streamed (outgoing sent cb ct cc) cb yields d d' e b
    | Some _ \<Rightarrow> streams_on (outgoing sent cb ct cc) cb ok yields d d' e b \<or>
        streamed_full (outgoing sent cb ct cc) cb yields d d' e b"
proof -
  have s: "body_stream X input sent cb ct cc ok yields" using assms(1,2) by (simp add: body_stream_def)
  from body_stream.writer_run [OF s assms(9)] assms(3-8)
  have "body_stream.carried sent cb ct cc ok yields d d' e b"
    by (simp add: body_stream.runs_to_def [OF s] body_stream.streaming_def [OF s])
  then show ?thesis using streamed_full_cleared [of "outgoing sent cb ct cc" cb yields d d' e b d']
    by (auto simp: body_stream.carried_def [OF s] streams_on_def streamed_def split: option.split)
qed

text \<open>The stream gives \<open>hi\<close>, waits, gives an empty piece and \<open>yo\<close>, and ends; the turns of the loop are computed.\<close>

abbreviation ex_sconn ::
    "(bytes, bytes, bytes) encoded_buf list \<Rightarrow> writing \<Rightarrow> (script, bytes, bytes, bytes, ex_map, unit, nat) conn" where
  "ex_sconn q w \<equiv> ex_dconn [] True True [] q None RKeepAlive w Busy False None"

abbreviation ex_sdisp where
  "ex_sdisp c rx \<equiv>
     \<lparr>dp_conn = c, dp_dispatch = server_new (), dp_body_tx = None, dp_body_rx = rx, dp_is_closing = False,
      dp_shared = \<lparr>sh_chans = [], sh_upgrades = []\<rparr>\<rparr>"

abbreviation ex_chunk :: "bytes \<Rightarrow> (bytes, bytes, bytes) encoded_buf" where
  "ex_chunk m \<equiv> BufChunked (ascii ''2'' @ CRLF @ m @ CRLF)"

abbreviation ex_queue :: "(bytes, bytes, bytes) encoded_buf list" where
  "ex_queue \<equiv> [ex_chunk (ascii ''hi''), ex_chunk (ascii ''yo'')]"

abbreviation ex_last :: "(bytes, bytes, bytes) encoded_buf" where
  "ex_last \<equiv> BufChunkedEnd (ascii ''0'' @ CRLF @ CRLF)"

lemma ex_stream_guards:
  "q = [] \<or> q = [ex_chunk (ascii ''hi'')] \<or> q = ex_queue \<or> q = ex_queue @ [ex_last] \<Longrightarrow>
    can_buffer_body (ex_env tbl) (ex_sconn q w)"
  "\<not> can_write_head (ex_env tbl) (ex_sconn q (WBody e))" "\<not> can_write_head (ex_env tbl) (ex_sconn q WKeepAlive)"
  "can_write_body (ex_sconn q (WBody e))"
  by (auto simp: can_buffer_body_def can_buffer_def write_buf_can_buffer_def ex_dconn_def bufs_cnt_def MAX_BUF_LIST_BUFFERS_def
      write_buf_remaining_def cursor_remaining_def buf_list_remaining_def ex_env_def can_write_body_def can_write_head_def
      encoded_buf_ops_def ex_bytes_def list_ops_def ascii_def CRLF_def DEFAULT_MAX_BUFFER_SIZE_def should_read_first_def
      server_transaction_def can_headers_buf_def)

lemma ex_stream_write:
  assumes "length m = 2"
  shows "write_body (ex_env tbl) (ex_sconn q (WBody encoder_chunked)) m =
    Some (ex_sconn (q @ [ex_chunk m]) (WBody encoder_chunked))"
proof -
  have "case chunk_size_new 2 of Some cs \<Rightarrow> chunk_size_chunk cs = ascii ''2'' @ CRLF | None \<Rightarrow> False"
    by code_simp
  then obtain cs where "chunk_size_new 2 = Some cs" "chunk_size_chunk cs = ascii ''2'' @ CRLF"
    by (auto split: option.split_asm)
  with assms show ?thesis
    by (simp add: write_body_def ex_dconn_def encode_def encoder_chunked_def encoder_new_def ex_env_def ex_bytes_def
        list_ops_def conn_buffer_def buffered_buffer_def write_buf_buffer_def buf_list_push_def encoder_is_eof_def)
qed

lemma ex_stream_end:
  "end_body (ex_env tbl) (ex_sconn q (WBody encoder_chunked)) = Some (ex_sconn (q @ [ex_last]) WKeepAlive, Ok ())"
  by (simp add: end_body_def ex_dconn_def encoder_end_def encoder_chunked_def encoder_new_def ex_env_def ex_bytes_def
      list_ops_def conn_buffer_def buffered_buffer_def write_buf_buffer_def buf_list_push_def is_close_delimited_def
      encoder_is_last_def)

lemma ex_stream_turns:
  "write_body_piece (ex_streamer []) (ex_sdisp (ex_sconn q (WBody encoder_chunked)) (Some b)) (wrap_stream (None # s)) =
     Some (ex_sdisp (ex_sconn q (WBody encoder_chunked)) (Some (wrap_stream s)), Return Pending)"
  "write_body_piece (ex_streamer []) (ex_sdisp (ex_sconn q (WBody encoder_chunked)) (Some b)) (wrap_stream (Some [] # s)) =
     Some (ex_sdisp (ex_sconn q (WBody encoder_chunked)) (Some (wrap_stream s)), Continue)"
  "write_body_piece (ex_streamer []) (ex_sdisp (ex_sconn q (WBody encoder_chunked)) (Some b)) (wrap_stream []) =
     Some (ex_sdisp (ex_sconn (q @ [ex_last]) WKeepAlive) None, Continue)"
  "length m = 2 \<Longrightarrow>
   write_body_piece (ex_streamer []) (ex_sdisp (ex_sconn q (WBody encoder_chunked)) (Some b)) (wrap_stream (Some m # s)) =
     Some (ex_sdisp (ex_sconn (q @ [ex_chunk m]) (WBody encoder_chunked)) (Some (wrap_stream s)), Continue)"
  by (auto simp: write_body_piece_def ex_streamer_simps ex_stream_write ex_stream_end ex_stream_guards Let_def)

lemma ex_stream_run:
  "(writer_step (ex_streamer []))\<^sup>*\<^sup>*
    (ex_sdisp (ex_sconn [] (WBody encoder_chunked)) (Some (wrap_stream [Some (ascii ''hi''), None, Some [], Some (ascii ''yo'')])))
    (ex_sdisp (ex_sconn (ex_queue @ [ex_last]) WKeepAlive) None)"
proof -
  let ?c = "\<lambda>q. ex_sconn q (WBody encoder_chunked)"
  note turn = ex_stream_guards ex_streamer_simps(1) ex_stream_turns
  have two: "length (ascii ''hi'') = 2" "length (ascii ''yo'') = 2" by (simp_all add: ascii_def)
  have 1: "dispatcher_poll_write (ex_streamer [])
      (ex_sdisp (?c []) (Some (wrap_stream [Some (ascii ''hi''), None, Some [], Some (ascii ''yo'')]))) =
    Some (ex_sdisp (?c [ex_chunk (ascii ''hi'')]) (Some (wrap_stream [Some [], Some (ascii ''yo'')])), Pending)"
    by (subst dispatcher_poll_write.simps, simp add: turn two) (subst dispatcher_poll_write.simps, simp add: turn)
  have 2: "dispatcher_poll_write (ex_streamer [])
      (ex_sdisp (?c [ex_chunk (ascii ''hi'')]) (Some (wrap_stream [Some [], Some (ascii ''yo'')]))) =
    Some (ex_sdisp (ex_sconn (ex_queue @ [ex_last]) WKeepAlive) None, Pending)"
    apply (subst dispatcher_poll_write.simps, simp add: turn)
    apply (subst dispatcher_poll_write.simps, simp add: turn two)
    apply (subst dispatcher_poll_write.simps, simp add: turn)
    apply (subst dispatcher_poll_write.simps, simp add: turn ex_stream_guards(1) [of "ex_queue @ [ex_last]", simplified])
    done
  from side_write [OF 1] side_write [OF 2] show ?thesis
    by (meson rtranclp.rtrancl_into_rtrancl rtranclp.rtrancl_refl)
qed

theorem streamed_body_complete_witness:
  "outgoing sc_out (\<lambda>b. b) (\<lambda>b. b) (\<lambda>b. b) (ex_sconn (ex_queue @ [ex_last]) WKeepAlive) =
     ascii ''2'' @ CRLF @ ascii ''hi'' @ CRLF @ ascii ''2'' @ CRLF @ ascii ''yo'' @ CRLF @ ascii ''0'' @ CRLF @ CRLF"
proof -
  have c: "conn_ok (\<lambda>b. b) (\<lambda>b. b) (\<lambda>b. b) (ex_sconn [] (WBody encoder_chunked))"
    "outgoing sc_out (\<lambda>b. b) (\<lambda>b. b) (\<lambda>b. b) (ex_sconn [] (WBody encoder_chunked)) = []"
    "st_writing (c_state (ex_sconn [] (WBody encoder_chunked))) = WBody encoder_chunked"
    by (simp_all add: conn_ok_def ex_dconn_def wb_ok_def cursor_ok_def list_inv_def buffered_ok_def size_defs encoder_is_eof_def
        encoder_chunked_def encoder_new_def outgoing_def pipe_def wb_content_def cursor_chunk_def list_content_def)
  have y: "wrapped_ok (wrap_stream s :: (_, unit) body)" "wrapped_pieces (wrap_stream s :: (_, unit) body) = List.map_filter id s" for s
    by (simp_all add: wrapped_ok_def wrapped_pieces_def wrap_stream_def body_new_def)
  have sp: "\<not> d_should_poll (x_dispatch (ex_streamer [])) (server_new ())"
    by (simp add: ex_streamer_def server_dispatch_def server_should_poll_def server_new_def)
  have hex: "upper_hex (Suc (Suc 0)) = ascii ''2''" by (simp add: upper_hex.simps hex_digit_def ascii_def)
  from streamed_body_complete [where e = encoder_chunked and b = "wrap_stream [Some (ascii ''hi''), None, Some [], Some (ascii ''yo'')]",
      OF ex_streamer.conn_laws_axioms ex_streamer.streamed_body_axioms _ _ _ _ _ _ ex_stream_run] c sp y hex
  show ?thesis
    by (simp_all add: streamed_def List.map_filter_simps encoder_chunked_def encoder_new_def ascii_def)
qed

end
