(* ===== verification/Spec2Isabelle.thy ===== *)
theory Spec2Isabelle
  imports Conn_Props Dispatch_Props
begin

text \<open>
  Verification of an HTTP/1 library.
\<close>

end
